(* ===== verification/Prelude.thy ===== *)
theory Prelude
  imports Main "HOL-Library.Word" "HOL-Library.AList" "HOL-Library.State_Monad"
    "HOL-Library.Multiset"
begin

text \<open>
  What every other theory of the development shares: names for Rust's machine types, the
  integer casts the source writes with \<^verbatim>\<open>as\<close>, the two list operations of
  \<^verbatim>\<open>Vec\<close> that have no counterpart in the library (\<open>swap_remove\<close>, and updating the first
  match), the association-list view of a \<^verbatim>\<open>HashMap\<close>, and a small calculus of Hoare triples
  for the state monad in which the I/O thread is written.
\<close>

section \<open>Machine types\<close>

type_synonym u8 = "8 word"
type_synonym u16 = "16 word"
type_synonym u32 = "32 word"
type_synonym u64 = "64 word"

text \<open>Signed values are mathematical integers; a cast to them wraps, as Rust's \<^verbatim>\<open>as\<close> does.\<close>

type_synonym i32 = int
type_synonym i64 = int

definition as_i32 :: "int \<Rightarrow> i32" where
  "as_i32 x = (x + 2 ^ 31) mod 2 ^ 32 - 2 ^ 31"

definition as_u32 :: "int \<Rightarrow> u32" where
  "as_u32 x = word_of_int x"

definition is_i32 :: "int \<Rightarrow> bool" where
  "is_i32 x \<longleftrightarrow> - (2 ^ 31) \<le> x \<and> x < 2 ^ 31"

definition is_i64 :: "int \<Rightarrow> bool" where
  "is_i64 x \<longleftrightarrow> - (2 ^ 63) \<le> x \<and> x < 2 ^ 63"

lemma as_i32_is_i32 [simp]: "is_i32 (as_i32 x)"
proof -
  have "0 \<le> (x + 2 ^ 31) mod 2 ^ 32" and "(x + 2 ^ 31) mod 2 ^ 32 < 2 ^ 32"
    by simp_all
  then show ?thesis
    by (simp add: is_i32_def as_i32_def)
qed

lemma as_i32_id [simp]: "is_i32 x \<Longrightarrow> as_i32 x = x"
  by (simp add: is_i32_def as_i32_def)

section \<open>Collections\<close>

named_theorems mem_simps \<open>membership facts of the list operations\<close>

text \<open>\<^verbatim>\<open>Vec::swap_remove\<close>: the last element takes the place of the removed one.\<close>

definition swap_remove :: "'a list \<Rightarrow> nat \<Rightarrow> 'a list" where
  "swap_remove xs i = (if i < length xs then butlast (xs[i := last xs]) else xs)"

lemma length_swap_remove [simp]: "i < length xs \<Longrightarrow> length (swap_remove xs i) = length xs - 1"
  by (simp add: swap_remove_def)

lemma swap_remove_split:
  assumes "i < length xs"
  shows "(i = length xs - 1 \<and> swap_remove xs i = take i xs)
    \<or> (i < length xs - 1 \<and> swap_remove xs i
        = take i xs @ last xs # butlast (drop (Suc i) xs))"
proof (cases "i = length xs - 1")
  case True
  with assms show ?thesis
    by (simp add: swap_remove_def butlast_conv_take take_update_cancel)
next
  case False
  with assms have "drop (Suc i) xs \<noteq> []" by auto
  with assms False show ?thesis
    by (auto simp: swap_remove_def upd_conv_take_nth_drop butlast_append)
qed

lemma mset_swap_remove: "i < length xs \<Longrightarrow> mset (swap_remove xs i) + {#xs ! i#} = mset xs"
proof -
  assume i: "i < length xs"
  have xs: "xs = take i xs @ xs ! i # drop (Suc i) xs"
    by (rule id_take_nth_drop [OF i])
  show ?thesis
  proof (cases "i = length xs - 1")
    case True
    with i have "drop (Suc i) xs = []" by simp
    with xs True i swap_remove_split [OF i] show ?thesis
      by (metis add_mset_add_single mset_append mset.simps union_mset_add_mset_right add.right_neutral less_irrefl)
  next
    case False
    with i have ne: "drop (Suc i) xs \<noteq> []" by auto
    then have "last xs = last (drop (Suc i) xs)" by (simp add: last_drop)
    then have "mset (last xs # butlast (drop (Suc i) xs)) = mset (drop (Suc i) xs)"
      by (metis append_butlast_last_id mset_append mset.simps ne add.commute union_mset_add_mset_right add_mset_add_single)
    moreover have "mset xs = mset (take i xs) + {#xs ! i#} + mset (drop (Suc i) xs)"
      by (subst xs) simp
    ultimately show ?thesis
      using False swap_remove_split [OF i] by simp
  qed
qed

lemma set_swap_remove:
  assumes "i < length xs"
  shows "insert (xs ! i) (set (swap_remove xs i)) = set xs"
  using arg_cong [OF mset_swap_remove [OF assms], of set_mset] by simp

lemma set_swap_remove_subset [mem_simps]: "set (swap_remove xs i) \<subseteq> set xs"
  using set_swap_remove [of i xs] by (cases "i < length xs") (auto simp: swap_remove_def)

text \<open>\<^verbatim>\<open>iter_mut().find(p)\<close> followed by a write through the reference found.\<close>

primrec update_first :: "('a \<Rightarrow> bool) \<Rightarrow> ('a \<Rightarrow> 'a) \<Rightarrow> 'a list \<Rightarrow> 'a list" where
  "update_first p f [] = []"
| "update_first p f (x # xs) = (if p x then f x # xs else x # update_first p f xs)"

lemma length_update_first [simp]: "length (update_first p f xs) = length xs"
  by (induction xs) auto

lemma update_first_none: "\<forall>x \<in> set xs. \<not> p x \<Longrightarrow> update_first p f xs = xs"
  by (induction xs) auto

lemma set_update_first [mem_simps]: "set (update_first p f xs) \<subseteq> set xs \<union> f ` {x \<in> set xs. p x}"
  by (induction xs) auto

section \<open>A calculus for the state monad\<close>

text \<open>
  \<open>valid P m Q\<close>: started in a state satisfying \<open>P\<close>, the computation \<open>m\<close> ends with a result and a
  state satisfying \<open>Q\<close>. The rules are collected in \<open>wp\<close>; \<open>keeps I m\<close> is the special case of an
  invariant.
\<close>

named_theorems wp \<open>backward rules for \<open>valid\<close>\<close>
named_theorems keep \<open>operations that keep an invariant\<close>

abbreviation return :: "'a \<Rightarrow> ('s, 'a) state" where
  "return \<equiv> State_Monad.return"

definition valid :: "('s \<Rightarrow> bool) \<Rightarrow> ('s, 'a) state \<Rightarrow> ('a \<Rightarrow> 's \<Rightarrow> bool) \<Rightarrow> bool" where
  "valid P m Q \<longleftrightarrow> (\<forall>s. P s \<longrightarrow> Q (fst (run_state m s)) (snd (run_state m s)))"

definition keeps :: "('s \<Rightarrow> bool) \<Rightarrow> ('s, 'a) state \<Rightarrow> bool" where
  "keeps I m \<longleftrightarrow> valid I m (\<lambda>_. I)"

definition modify :: "('s \<Rightarrow> 's) \<Rightarrow> ('s, unit) state" where
  "modify f = State (\<lambda>s. ((), f s))"

definition gets :: "('s \<Rightarrow> 'a) \<Rightarrow> ('s, 'a) state" where
  "gets f = State (\<lambda>s. (f s, s))"

lemma run_modify [simp]: "run_state (modify f) s = ((), f s)"
  by (simp add: modify_def)

lemma run_gets [simp]: "run_state (gets f) s = (f s, s)"
  by (simp add: gets_def)

lemma keepsI: "(\<And>s a s'. I s \<Longrightarrow> run_state m s = (a, s') \<Longrightarrow> I s') \<Longrightarrow> keeps I m"
  by (auto simp: keeps_def valid_def prod_eq_iff)

lemma keepsD: "keeps I m \<Longrightarrow> I s \<Longrightarrow> I (snd (run_state m s))"
  by (simp add: keeps_def valid_def)

lemma keepsE: "keeps I m \<Longrightarrow> I s \<Longrightarrow> run_state m s = (a, s') \<Longrightarrow> I s'"
  by (drule (1) keepsD) simp

lemma validE: "valid P m Q \<Longrightarrow> P s \<Longrightarrow> run_state m s = (a, s') \<Longrightarrow> Q a s'"
  by (auto simp: valid_def)

lemma valid_weaken:
  "valid P m Q \<Longrightarrow> (\<And>s. P' s \<Longrightarrow> P s) \<Longrightarrow> (\<And>a s. Q a s \<Longrightarrow> Q' a s) \<Longrightarrow> valid P' m Q'"
  by (simp add: valid_def)

lemma valid_return [wp]: "(\<And>s. P s \<Longrightarrow> Q x s) \<Longrightarrow> valid P (return x) Q"
  by (simp add: valid_def)

lemma valid_bind [wp]:
  "valid P m R \<Longrightarrow> (\<And>x. valid (R x) (f x) Q) \<Longrightarrow> valid P (State_Monad.bind m f) Q"
  by (simp add: valid_def case_prod_beta)

lemma keep_return [keep]: "keeps I (return x)"
  by (simp add: keeps_def valid_def)

lemma keep_bind [keep]: "keeps I m \<Longrightarrow> (\<And>x. keeps I (f x)) \<Longrightarrow> keeps I (State_Monad.bind m f)"
  by (simp add: keeps_def valid_def case_prod_beta)

lemma keep_bind_result:
  "keeps I m \<Longrightarrow> (\<And>x b. I b \<Longrightarrow> fst (run_state m b) = x \<Longrightarrow> keeps I (f x)) \<Longrightarrow> keeps I (State_Monad.bind m f)"
  unfolding keeps_def valid_def by (auto simp: case_prod_beta)

lemma keep_if [keep]: "(b \<Longrightarrow> keeps I m) \<Longrightarrow> (\<not> b \<Longrightarrow> keeps I n) \<Longrightarrow> keeps I (if b then m else n)"
  by simp

lemma keep_option [keep]:
  "(x = None \<Longrightarrow> keeps I m) \<Longrightarrow> (\<And>y. x = Some y \<Longrightarrow> keeps I (f y))
    \<Longrightarrow> keeps I (case x of None \<Rightarrow> m | Some y \<Rightarrow> f y)"
  by (cases x) simp_all

lemma keep_sum [keep]:
  "(\<And>y. x = Inl y \<Longrightarrow> keeps I (f y)) \<Longrightarrow> (\<And>y. x = Inr y \<Longrightarrow> keeps I (g y))
    \<Longrightarrow> keeps I (case x of Inl y \<Rightarrow> f y | Inr y \<Rightarrow> g y)"
  by (cases x) simp_all

lemma keep_prod [keep]:
  "(\<And>a b. x = (a, b) \<Longrightarrow> keeps I (f a b)) \<Longrightarrow> keeps I (case x of (a, b) \<Rightarrow> f a b)"
  by (cases x) simp

lemma keep_gets [keep]: "keeps I (gets f)"
  by (simp add: keeps_def valid_def)

lemma keep_Let [keep]: "(\<And>y. y = x \<Longrightarrow> keeps I (f y)) \<Longrightarrow> keeps I (let y = x in f y)"
  by simp

text \<open>\<^verbatim>\<open>for x in xs { .. }\<close>\<close>

primrec for_each :: "('a \<Rightarrow> ('s, unit) state) \<Rightarrow> 'a list \<Rightarrow> ('s, unit) state" where
  "for_each f [] = return ()"
| "for_each f (x # xs) = State_Monad.bind (f x) (\<lambda>_. for_each f xs)"

lemma keep_for_each [keep]:
  "(\<And>x. x \<in> set xs \<Longrightarrow> keeps I (f x)) \<Longrightarrow> keeps I (for_each f xs)"
  by (induction xs) (auto intro!: keep_return keep_bind)

text \<open>
  The adapters of a Rust iterator whose closure performs calls: \<^verbatim>\<open>map\<close>, \<^verbatim>\<open>filter\<close>, \<^verbatim>\<open>find\<close> and
  \<^verbatim>\<open>any\<close>. The last two stop at the first element that answers.
\<close>

primrec map_m :: "('a \<Rightarrow> ('s, 'b) state) \<Rightarrow> 'a list \<Rightarrow> ('s, 'b list) state" where
  "map_m f [] = return []"
| "map_m f (x # xs) =
     State_Monad.bind (f x) (\<lambda>y. State_Monad.bind (map_m f xs) (\<lambda>ys. return (y # ys)))"

primrec filter_m :: "('a \<Rightarrow> ('s, bool) state) \<Rightarrow> 'a list \<Rightarrow> ('s, 'a list) state" where
  "filter_m p [] = return []"
| "filter_m p (x # xs) =
     State_Monad.bind (p x) (\<lambda>b. State_Monad.bind (filter_m p xs) (\<lambda>ys. return (if b then x # ys else ys)))"

primrec find_m :: "('a \<Rightarrow> ('s, bool) state) \<Rightarrow> 'a list \<Rightarrow> ('s, 'a option) state" where
  "find_m p [] = return None"
| "find_m p (x # xs) = State_Monad.bind (p x) (\<lambda>b. if b then return (Some x) else find_m p xs)"

definition any_m :: "('a \<Rightarrow> ('s, bool) state) \<Rightarrow> 'a list \<Rightarrow> ('s, bool) state" where
  "any_m p xs = State_Monad.bind (find_m p xs) (\<lambda>r. return (r \<noteq> None))"

lemma keep_map_m [keep]: "(\<And>x. x \<in> set xs \<Longrightarrow> keeps I (f x)) \<Longrightarrow> keeps I (map_m f xs)"
  by (induction xs) (auto intro!: keep_return keep_bind)

lemma keep_filter_m [keep]: "(\<And>x. x \<in> set xs \<Longrightarrow> keeps I (p x)) \<Longrightarrow> keeps I (filter_m p xs)"
  by (induction xs) (auto intro!: keep_return keep_bind)

lemma keep_find_m [keep]: "(\<And>x. x \<in> set xs \<Longrightarrow> keeps I (p x)) \<Longrightarrow> keeps I (find_m p xs)"
  by (induction xs) (auto intro!: keep_return keep_bind)

lemma keep_any_m [keep]: "(\<And>x. x \<in> set xs \<Longrightarrow> keeps I (p x)) \<Longrightarrow> keeps I (any_m p xs)"
  unfolding any_m_def by (intro keep_return keep_bind keep_find_m)

lemma length_map_m [simp]: "length (fst (run_state (map_m f xs) s)) = length xs"
  by (induction xs arbitrary: s) (simp_all add: case_prod_beta)

lemma set_filter_m: "set (fst (run_state (filter_m p xs) s)) \<subseteq> set xs"
  by (induction xs arbitrary: s) (auto simp: case_prod_beta subset_iff split: if_splits)

lemma find_m_mem: "fst (run_state (find_m p xs) s) = Some x \<Longrightarrow> x \<in> set xs"
  by (induction xs arbitrary: s) (auto simp: case_prod_beta split: if_splits)

text \<open>A recursive call under a bind may use what the first computation can return.\<close>

lemma bind_state_cong [fundef_cong]:
  assumes "m = m'" and "\<And>x s s'. run_state m' s = (x, s') \<Longrightarrow> f x = f' x"
  shows "State_Monad.bind m f = State_Monad.bind m' f'"
  unfolding State_Monad.bind_def assms(1) using assms(2)
  by (auto intro!: ext split: prod.split)

end
