(* ===== verification/Rust_Str.thy ===== *)
theory Rust_Str
  imports Prelude
begin

text \<open>
  The part of Rust's \<^verbatim>\<open>str\<close> that the source uses. A string is the list of its Unicode scalar
  values: \<^verbatim>\<open>trim\<close> removes the characters with the White\_Space property at both ends, and the
  splitting functions look at single ASCII characters, so both work on scalar values. Byte
  lengths and C strings go through the UTF-8 encoding at the end of the theory.
\<close>

type_synonym rchar = nat
type_synonym rstr = "rchar list"

definition lit :: "string \<Rightarrow> rstr" where
  "lit s = map of_char s"

lemma lit_Nil [simp]: "lit [] = []"
  and lit_Cons [simp]: "lit (c # s) = of_char c # lit s"
  by (simp_all add: lit_def)

section \<open>Trimming\<close>

text \<open>\<^verbatim>\<open>char::is_whitespace\<close>: the 25 scalar values with the White\_Space property.\<close>

definition is_whitespace :: "rchar \<Rightarrow> bool" where
  "is_whitespace c \<longleftrightarrow> (9 \<le> c \<and> c \<le> 13) \<or> c = 32 \<or> c = 133 \<or> c = 160 \<or> c = 5760
     \<or> (8192 \<le> c \<and> c \<le> 8202) \<or> c = 8232 \<or> c = 8233 \<or> c = 8239 \<or> c = 8287 \<or> c = 12288"

definition trim :: "rstr \<Rightarrow> rstr" where
  "trim s = rev (dropWhile is_whitespace (rev (dropWhile is_whitespace s)))"

definition trimmed :: "rstr \<Rightarrow> bool" where
  "trimmed s \<longleftrightarrow> s = [] \<or> \<not> is_whitespace (hd s) \<and> \<not> is_whitespace (last s)"

lemma trim_Nil [simp]: "trim [] = []"
  by (simp add: trim_def)

lemma trim_id [simp]: "trimmed s \<Longrightarrow> trim s = s"
proof -
  assume "trimmed s"
  then have "dropWhile is_whitespace s = s" and "dropWhile is_whitespace (rev s) = rev s"
    by (auto simp: trimmed_def dropWhile_eq_self_iff hd_rev)
  then show "trim s = s" by (simp add: trim_def)
qed

lemma dropWhile_rev_hd:
  assumes "\<not> p (hd s)" and "s \<noteq> []"
  shows "hd (rev (dropWhile p (rev s))) = hd s" and "rev (dropWhile p (rev s)) \<noteq> []"
proof -
  have "s = rev (dropWhile p (rev s)) @ rev (takeWhile p (rev s))"
    by (metis rev_append rev_rev_ident takeWhile_dropWhile_id)
  moreover have ne: "rev (dropWhile p (rev s)) \<noteq> []"
    using assms by (auto simp: dropWhile_eq_Nil_conv)
  ultimately show "hd (rev (dropWhile p (rev s))) = hd s"
    by (metis hd_append2)
  show "rev (dropWhile p (rev s)) \<noteq> []" by (rule ne)
qed

lemma trimmed_trim [simp]: "trimmed (trim s)"
proof (cases "dropWhile is_whitespace s = []")
  case True
  then show ?thesis unfolding trim_def trimmed_def by (simp only: rev.simps dropWhile.simps simp_thms)
next
  case False
  let ?t = "dropWhile is_whitespace s"
  from False have hd: "\<not> is_whitespace (hd ?t)" by (simp add: hd_dropWhile)
  then have t: "hd (trim s) = hd ?t" and ne: "trim s \<noteq> []"
    using dropWhile_rev_hd [of is_whitespace ?t] False by (simp_all add: trim_def)
  have "\<not> is_whitespace (last (trim s))"
    using ne unfolding trim_def by (metis hd_dropWhile last_rev rev_is_Nil_conv)
  with t hd show ?thesis by (simp add: trimmed_def)
qed

lemma set_trim: "set (trim s) \<subseteq> set s"
  unfolding trim_def by (metis set_dropWhileD set_rev subsetI)

lemma trimmed_append:
  "trimmed s \<Longrightarrow> s \<noteq> [] \<Longrightarrow> trimmed t \<Longrightarrow> t \<noteq> [] \<Longrightarrow> trimmed (s @ u @ t)"
  by (simp add: trimmed_def)

section \<open>Splitting\<close>

text \<open>\<^verbatim>\<open>split(c)\<close>: the pieces between the separators, at least one.\<close>

primrec split_on :: "rchar \<Rightarrow> rstr \<Rightarrow> rstr list" where
  "split_on c [] = [[]]"
| "split_on c (x # s) =
     (if x = c then [] # split_on c s
      else case split_on c s of [] \<Rightarrow> [[x]] | p # ps \<Rightarrow> (x # p) # ps)"

text \<open>\<^verbatim>\<open>split_once(c)\<close>: what stands before and after the first separator.\<close>

primrec split_once :: "rchar \<Rightarrow> rstr \<Rightarrow> (rstr \<times> rstr) option" where
  "split_once c [] = None"
| "split_once c (x # s) =
     (if x = c then Some ([], s)
      else case split_once c s of None \<Rightarrow> None | Some (a, b) \<Rightarrow> Some (x # a, b))"

text \<open>\<^verbatim>\<open>splitn(2, c).collect()\<close>.\<close>

definition splitn2 :: "rchar \<Rightarrow> rstr \<Rightarrow> rstr list" where
  "splitn2 c s = (case split_once c s of None \<Rightarrow> [s] | Some (a, b) \<Rightarrow> [a, b])"

primrec strip_prefix :: "rstr \<Rightarrow> rstr \<Rightarrow> rstr option" where
  "strip_prefix [] s = Some s"
| "strip_prefix (p # ps) s = (case s of [] \<Rightarrow> None | x # xs \<Rightarrow> if x = p then strip_prefix ps xs else None)"

text \<open>\<^verbatim>\<open>Vec<String>::join\<close>.\<close>

fun join :: "rstr \<Rightarrow> rstr list \<Rightarrow> rstr" where
  "join sep [] = []"
| "join sep [s] = s"
| "join sep (s # t # ts) = s @ sep @ join sep (t # ts)"

lemma split_on_nonempty [simp]: "split_on c s \<noteq> []"
  by (induction s) (auto split: list.splits)

lemma split_on_plain [simp]: "c \<notin> set s \<Longrightarrow> split_on c s = [s]"
  by (induction s) auto

lemma split_on_append [simp]: "c \<notin> set s \<Longrightarrow> split_on c (s @ c # t) = s # split_on c t"
  by (induction s) auto

lemma split_on_no_sep: "p \<in> set (split_on c s) \<Longrightarrow> c \<notin> set p"
  by (induction s arbitrary: p) (auto split: if_splits list.splits)

lemma split_on_set: "p \<in> set (split_on c s) \<Longrightarrow> set p \<subseteq> set s"
proof (induction s arbitrary: p)
  case (Cons x s)
  then show ?case
    by (cases "split_on c s") (fastforce split: if_splits)+
qed simp

lemma split_once_append [simp]: "c \<notin> set s \<Longrightarrow> split_once c (s @ c # t) = Some (s, t)"
  by (induction s) auto

lemma split_once_none [simp]: "split_once c s = None \<longleftrightarrow> c \<notin> set s"
  by (induction s) (auto split: option.splits)

lemma split_once_SomeD: "split_once c s = Some (a, b) \<Longrightarrow> s = a @ c # b \<and> c \<notin> set a"
  by (induction s arbitrary: a) (auto split: if_splits option.splits)

lemma splitn2_append [simp]: "c \<notin> set s \<Longrightarrow> splitn2 c (s @ c # t) = [s, t]"
  by (simp add: splitn2_def)

lemma splitn2_plain [simp]: "c \<notin> set s \<Longrightarrow> splitn2 c s = [s]"
  by (simp add: splitn2_def split: option.split) (metis option.distinct(1) split_once_none)

lemma strip_prefix_append [simp]: "strip_prefix p (p @ s) = Some s"
  by (induction p) auto

lemma strip_prefix_SomeD: "strip_prefix p s = Some t \<Longrightarrow> s = p @ t"
  by (induction p arbitrary: s) (auto split: list.splits if_splits)

lemma split_on_join:
  "\<forall>p \<in> set ps. c \<notin> set p \<Longrightarrow> ps \<noteq> [] \<Longrightarrow> split_on c (join [c] ps) = ps"
  by (induction "[c]" ps rule: join.induct) auto

section \<open>Decimal numbers\<close>

fun show_nat :: "nat \<Rightarrow> rstr" where
  "show_nat n = (if n < 10 then [48 + n] else show_nat (n div 10) @ [48 + n mod 10])"

declare show_nat.simps [simp del]

definition is_digit :: "rchar \<Rightarrow> bool" where
  "is_digit c \<longleftrightarrow> 48 \<le> c \<and> c \<le> 57"

definition digits_value :: "rstr \<Rightarrow> nat" where
  "digits_value s = foldl (\<lambda>n c. 10 * n + (c - 48)) 0 s"

definition parse_digits :: "rstr \<Rightarrow> nat option" where
  "parse_digits s = (if s \<noteq> [] \<and> list_all is_digit s then Some (digits_value s) else None)"

text \<open>
  \<^verbatim>\<open>str::parse::<usize>()\<close> on a 64-bit target: an optional \<^verbatim>\<open>+\<close>, then digits, in range.
  \<^verbatim>\<open>str::parse::<i64>()\<close>: an optional sign, then digits, in range. The kind of error is
  not observed by the source, so every failure is \<open>None\<close>.
\<close>

definition parse_usize :: "rstr \<Rightarrow> nat option" where
  "parse_usize s =
     (case parse_digits (case s of [] \<Rightarrow> [] | x # xs \<Rightarrow> if x = 43 then xs else x # xs) of
        None \<Rightarrow> None
      | Some n \<Rightarrow> if n < 2 ^ 64 then Some n else None)"

definition parse_i64 :: "rstr \<Rightarrow> int option" where
  "parse_i64 s =
     (case s of
        [] \<Rightarrow> None
      | x # xs \<Rightarrow>
          if x = 45 then
            (case parse_digits xs of
               None \<Rightarrow> None
             | Some n \<Rightarrow> if n \<le> 2 ^ 63 then Some (- int n) else None)
          else
            (case parse_digits (if x = 43 then xs else x # xs) of
               None \<Rightarrow> None
             | Some n \<Rightarrow> if n < 2 ^ 63 then Some (int n) else None))"

lemma show_nat_digits: "c \<in> set (show_nat n) \<Longrightarrow> is_digit c"
proof (induction n arbitrary: c rule: show_nat.induct)
  case (1 n)
  then show ?case
    by (cases "n < 10") (auto simp: show_nat.simps [of n] is_digit_def)
qed

lemma show_nat_nonempty [simp]: "show_nat n \<noteq> []"
  by (subst show_nat.simps) simp

lemma digits_value_show [simp]: "digits_value (show_nat n) = n"
proof (induction n rule: show_nat.induct)
  case (1 n)
  then show ?case
    by (cases "n < 10") (simp_all add: show_nat.simps [of n] digits_value_def)
qed

lemma parse_digits_show [simp]: "parse_digits (show_nat n) = Some n"
  by (simp add: parse_digits_def list_all_iff show_nat_digits)

lemma show_nat_no_sign: "hd (show_nat n) \<noteq> 43 \<and> hd (show_nat n) \<noteq> 45"
  using show_nat_digits [of "hd (show_nat n)" n] by (auto simp: is_digit_def)

lemma parse_usize_show [simp]: "n < 2 ^ 64 \<Longrightarrow> parse_usize (show_nat n) = Some n"
  using show_nat_no_sign [of n] parse_digits_show [of n]
  by (cases "show_nat n") (simp_all add: parse_usize_def)

lemma parse_i64_show:
  "parse_i64 (show_nat n) = (if n < 2 ^ 63 then Some (int n) else None)"
proof (cases "show_nat n")
  case (Cons x xs)
  then have "x \<noteq> 43" "x \<noteq> 45" using show_nat_no_sign [of n] by auto
  then show ?thesis
    using Cons parse_digits_show [of n] by (simp add: parse_i64_def)
qed simp

lemma parse_usize_bound: "parse_usize s = Some n \<Longrightarrow> n < 2 ^ 64"
  by (auto simp: parse_usize_def split: option.splits if_splits)

lemma parse_i64_range: "parse_i64 s = Some i \<Longrightarrow> is_i64 i"
  by (auto simp: parse_i64_def is_i64_def split: option.splits if_splits list.splits)

lemma show_nat_trimmed: "trimmed (show_nat n)"
  using show_nat_digits [of "hd (show_nat n)" n] show_nat_digits [of "last (show_nat n)" n]
  by (auto simp: trimmed_def is_digit_def is_whitespace_def)

lemma show_nat_plain: "\<not> is_digit c \<Longrightarrow> c \<notin> set (show_nat n)"
  using show_nat_digits by blast

section \<open>UTF-8\<close>

text \<open>The encoding of one scalar value, for byte lengths (\<^verbatim>\<open>str::len\<close>) and C strings.\<close>

definition utf8_char :: "rchar \<Rightarrow> u8 list" where
  "utf8_char c =
     (if c < 128 then [word_of_nat c]
      else if c < 2048 then [word_of_nat (192 + c div 64), word_of_nat (128 + c mod 64)]
      else if c < 65536 then
        [word_of_nat (224 + c div 4096), word_of_nat (128 + c div 64 mod 64),
         word_of_nat (128 + c mod 64)]
      else
        [word_of_nat (240 + c div 262144), word_of_nat (128 + c div 4096 mod 64),
         word_of_nat (128 + c div 64 mod 64), word_of_nat (128 + c mod 64)])"

definition utf8 :: "rstr \<Rightarrow> u8 list" where
  "utf8 s = concat (map utf8_char s)"

end
