(* ===== verification/Fec.thy ===== *)
theory Fec
  imports Rust_Str
begin

text \<open>
  \<^verbatim>\<open>srt-protocol/src/fec.rs\<close>: the parser of the packet-filter string and its printer. The
  parser's \<^verbatim>\<open>for\<close> loop with its early returns is the recursive function \<open>parse_params\<close>; error
  messages are modelled in full. \<^verbatim>\<open>usize\<close> is 64 bits wide.
\<close>

datatype fec_layout = Even | Staircase

datatype arq_mode = Always | OnReq | Never

record fec_config =
  cols :: nat
  rows :: nat
  layout :: fec_layout
  arq :: arq_mode

definition fec_default :: fec_config where
  "fec_default = \<lparr> cols = 10, rows = 1, layout = Staircase, arq = OnReq \<rparr>"

section \<open>Parser\<close>

text \<open>One \<^verbatim>\<open>key:value\<close> parameter, as the body of the \<^verbatim>\<open>match key\<close>.\<close>

definition parse_kv :: "rstr \<Rightarrow> rstr \<Rightarrow> fec_config \<Rightarrow> rstr + fec_config" where
  "parse_kv key val c =
     (if key = lit ''cols'' then
        (case parse_usize val of
           None \<Rightarrow> Inl (lit ''invalid cols value: '' @ [39] @ val @ [39])
         | Some n \<Rightarrow> if n = 0 then Inl (lit ''cols must be >= 1'') else Inr (c\<lparr> cols := n \<rparr>))
      else if key = lit ''rows'' then
        (case parse_i64 val of
           None \<Rightarrow> Inl (lit ''invalid rows value: '' @ [39] @ val @ [39])
         | Some raw \<Rightarrow>
             if raw = 0 then Inl (lit ''rows must be >= 1'')
             else Inr (c\<lparr> rows := nat \<bar>raw\<bar> \<rparr>))
      else if key = lit ''layout'' then
        (if val = lit ''even'' then Inr (c\<lparr> layout := Even \<rparr>)
         else if val = lit ''staircase'' then Inr (c\<lparr> layout := Staircase \<rparr>)
         else Inl (lit ''invalid layout: '' @ [39] @ val @ [39] @ lit '', expected '' @ [39] @ lit ''even''
           @ [39] @ lit '' or '' @ [39] @ lit ''staircase'' @ [39]))
      else if key = lit ''arq'' then
        (if val = lit ''always'' then Inr (c\<lparr> arq := Always \<rparr>)
         else if val = lit ''onreq'' then Inr (c\<lparr> arq := OnReq \<rparr>)
         else if val = lit ''never'' then Inr (c\<lparr> arq := Never \<rparr>)
         else Inl (lit ''invalid arq: '' @ [39] @ val @ [39] @ lit '', expected '' @ [39] @ lit ''always''
           @ [39] @ lit '', '' @ [39] @ lit ''onreq'' @ [39] @ lit '', or '' @ [39] @ lit ''never'' @ [39]))
      else Inr c)"

fun parse_params :: "rstr list \<Rightarrow> fec_config \<Rightarrow> rstr + fec_config" where
  "parse_params [] c = Inr c"
| "parse_params (p # ps) c =
     (let param = trim p in
      if param = [] then parse_params ps c
      else
        (case splitn2 58 param of
           [k, v] \<Rightarrow>
             (case parse_kv (trim k) (trim v) c of
                Inl e \<Rightarrow> Inl e
              | Inr c' \<Rightarrow> parse_params ps c')
         | _ \<Rightarrow> Inl (lit ''invalid parameter '' @ [39] @ param @ [39] @ lit '', expected key:value'')))"

definition fec_parse :: "rstr \<Rightarrow> rstr + fec_config" where
  "fec_parse s =
     (let trimmed = trim s in
      if trimmed = [] then Inl (lit ''empty config string'')
      else
        (let parts = splitn2 44 trimmed in
         if trim (hd parts) \<noteq> lit ''fec'' then
           Inl (lit ''config must start with '' @ [39] @ lit ''fec'' @ [39] @ lit '', got '' @ [39]
             @ hd parts @ [39])
         else if length parts < 2 then Inr fec_default
         else parse_params (split_on 44 (parts ! 1)) fec_default))"

section \<open>Printer\<close>

primrec layout_str :: "fec_layout \<Rightarrow> rstr" where
  "layout_str Even = lit ''even''"
| "layout_str Staircase = lit ''staircase''"

primrec arq_str :: "arq_mode \<Rightarrow> rstr" where
  "arq_str Always = lit ''always''"
| "arq_str OnReq = lit ''onreq''"
| "arq_str Never = lit ''never''"

definition fec_display :: "fec_config \<Rightarrow> rstr" where
  "fec_display c = lit ''fec,cols:'' @ show_nat (cols c) @ lit '',rows:'' @ show_nat (rows c)
     @ lit '',layout:'' @ layout_str (layout c) @ lit '',arq:'' @ arq_str (arq c)"

section \<open>Properties\<close>

text \<open>What every accepted configuration satisfies.\<close>

definition fec_wf :: "fec_config \<Rightarrow> bool" where
  "fec_wf c \<longleftrightarrow> 1 \<le> cols c \<and> cols c < 2 ^ 64 \<and> 1 \<le> rows c \<and> rows c \<le> 2 ^ 63"

lemma parse_kv_wf: "parse_kv k v c = Inr c' \<Longrightarrow> fec_wf c \<Longrightarrow> fec_wf c'"
  using parse_usize_bound [of v] parse_i64_range [of v]
  by (auto simp: parse_kv_def fec_wf_def is_i64_def split: option.splits if_splits)

lemma parse_params_wf: "parse_params ps c = Inr c' \<Longrightarrow> fec_wf c \<Longrightarrow> fec_wf c'"
  by (induction ps c rule: parse_params.induct)
     (auto simp: Let_def dest: parse_kv_wf split: if_splits list.splits sum.splits)

lemma fec_default_wf: "fec_wf fec_default"
  by (simp add: fec_wf_def fec_default_def)

text \<open>The definitions that evaluate a closed filter string.\<close>

lemmas fec_eval = fec_parse_def parse_kv_def fec_default_def trim_def is_whitespace_def splitn2_def
  parse_usize_def parse_i64_def parse_digits_def digits_value_def is_digit_def

text \<open>
  Claim C36. A filter string the parser accepts always gives a matrix of at least one column and
  one row, within the machine range.
\<close>

theorem fec_parse_wf: "fec_parse s = Inr c \<Longrightarrow> fec_wf c"
  by (auto simp: fec_parse_def Let_def fec_default_wf dest: parse_params_wf split: if_splits)

theorem fec_parse_wf_witness:
  "fec_parse (lit ''fec,cols:20,rows:-4'') =
      Inr \<lparr> cols = 20, rows = 4, layout = Staircase, arq = OnReq \<rparr>
   \<and> fec_wf \<lparr> cols = 20, rows = 4, layout = Staircase, arq = OnReq \<rparr>"
proof -
  have p: "fec_parse (lit ''fec,cols:20,rows:-4'') =
      Inr \<lparr> cols = 20, rows = 4, layout = Staircase, arq = OnReq \<rparr>"
    by (simp add: fec_eval)
  show ?thesis using p fec_parse_wf [OF p] by simp
qed

text \<open>The printed string as the parser takes it apart: the filter name and four parameters.\<close>

definition fec_param :: "string \<Rightarrow> rstr \<Rightarrow> rstr" where
  "fec_param key val = lit key @ 58 # val"

lemma fec_display_split:
  "fec_display c = lit ''fec'' @ 44 # fec_param ''cols'' (show_nat (cols c)) @ 44 #
     fec_param ''rows'' (show_nat (rows c)) @ 44 # fec_param ''layout'' (layout_str (layout c)) @ 44 #
     fec_param ''arq'' (arq_str (arq c))"
  by (simp add: fec_display_def fec_param_def)

lemma layout_str_plain [simp]:
  "44 \<notin> set (layout_str l)" "trimmed (layout_str l)" "layout_str l \<noteq> []"
  by (cases l; simp add: trimmed_def is_whitespace_def)+

lemma arq_str_plain [simp]:
  "44 \<notin> set (arq_str a)" "trimmed (arq_str a)" "arq_str a \<noteq> []"
  by (cases a; simp add: trimmed_def is_whitespace_def)+

lemma show_nat_comma [simp]: "44 \<notin> set (show_nat n)"
  by (rule show_nat_plain) (simp add: is_digit_def)

declare show_nat_trimmed [simp]

lemma fec_key_plain:
  assumes "key \<in> {''cols'', ''rows'', ''layout'', ''arq''}"
  shows "trimmed (lit key)" and "lit key \<noteq> []" and "58 \<notin> set (lit key)" and "44 \<notin> set (lit key)"
  using assms by (auto simp: trimmed_def is_whitespace_def)

lemma trimmed_fec_param:
  assumes "key \<in> {''cols'', ''rows'', ''layout'', ''arq''}" and "trimmed v" and "v \<noteq> []"
  shows "trimmed (fec_param key v)" and "fec_param key v \<noteq> []"
  using trimmed_append [OF fec_key_plain(1,2) [OF assms(1)] assms(2,3), of "[58]"]
  by (simp_all add: fec_param_def)

lemma parse_params_step:
  assumes "key \<in> {''cols'', ''rows'', ''layout'', ''arq''}" and "trimmed v" and "v \<noteq> []"
  shows "parse_params (fec_param key v # ps) c =
    (case parse_kv (lit key) v c of Inl e \<Rightarrow> Inl e | Inr c' \<Rightarrow> parse_params ps c')"
proof -
  from fec_key_plain(3) [OF assms(1)] have "splitn2 58 (fec_param key v) = [lit key, v]"
    unfolding fec_param_def by (rule splitn2_append)
  with trimmed_fec_param [OF assms] fec_key_plain(1) [OF assms(1)] assms(2) show ?thesis by simp
qed

lemma parse_kv_display:
  "1 \<le> cols c \<Longrightarrow> cols c < 2 ^ 64 \<Longrightarrow>
     parse_kv (lit ''cols'') (show_nat (cols c)) d = Inr (d\<lparr> cols := cols c \<rparr>)"
  "1 \<le> rows c \<Longrightarrow> parse_kv (lit ''rows'') (show_nat (rows c)) d =
     (if rows c < 2 ^ 63 then Inr (d\<lparr> rows := rows c \<rparr>)
      else Inl (lit ''invalid rows value: '' @ [39] @ show_nat (rows c) @ [39]))"
  "parse_kv (lit ''layout'') (layout_str (layout c)) d = Inr (d\<lparr> layout := layout c \<rparr>)"
  "parse_kv (lit ''arq'') (arq_str (arq c)) d = Inr (d\<lparr> arq := arq c \<rparr>)"
     apply (simp add: parse_kv_def)
    apply (simp add: parse_kv_def parse_i64_show)
   apply (cases "layout c"; simp add: parse_kv_def)
  apply (cases "arq c"; simp add: parse_kv_def)
  done

lemma fec_parse_display:
  "fec_parse (fec_display c) = parse_params [fec_param ''cols'' (show_nat (cols c)),
     fec_param ''rows'' (show_nat (rows c)), fec_param ''layout'' (layout_str (layout c)),
     fec_param ''arq'' (arq_str (arq c))] fec_default"
proof -
  have last: "\<not> is_whitespace (last (arq_str (arq c)))"
    by (cases "arq c") (simp_all add: is_whitespace_def)
  have tr: "trimmed (fec_display c)"
    using last by (simp add: trimmed_def fec_display_def is_whitespace_def)
  have fec: "44 \<notin> set (lit ''fec'')" "trimmed (lit ''fec'')"
    by (simp_all add: trimmed_def is_whitespace_def)
  have ps: "44 \<notin> set (fec_param k v)" if "k \<in> {''cols'', ''rows'', ''layout'', ''arq''}" "44 \<notin> set v" for k v
    using that fec_key_plain(4) by (simp add: fec_param_def)
  have "splitn2 44 (fec_display c) = [lit ''fec'', fec_param ''cols'' (show_nat (cols c)) @ 44 #
     fec_param ''rows'' (show_nat (rows c)) @ 44 # fec_param ''layout'' (layout_str (layout c)) @ 44 #
     fec_param ''arq'' (arq_str (arq c))]"
    unfolding fec_display_split by (rule splitn2_append [OF fec(1)])
  moreover have "fec_display c \<noteq> []" by (simp add: fec_display_def)
  ultimately show ?thesis
    using tr fec(2) ps by (simp add: fec_parse_def Let_def)
qed

text \<open>
  Claim C37. Printing an accepted configuration and parsing it again gives it back, with one
  exception: the row count \<open>2 ^ 63\<close>, which the parser accepts from the text
  \<^verbatim>\<open>rows:-9223372036854775808\<close> (it takes the absolute value of an \<^verbatim>\<open>i64\<close>), is printed without its
  sign and refused.
\<close>

theorem fec_display_roundtrip:
  "fec_wf c \<Longrightarrow> fec_parse (fec_display c) =
     (if rows c < 2 ^ 63 then Inr c
      else Inl (lit ''invalid rows value: '' @ [39] @ show_nat (rows c) @ [39]))"
  by (simp add: fec_parse_display parse_params_step parse_kv_display fec_wf_def fec_default_def
      del: parse_params.simps(2) lit_Cons)

theorem fec_display_roundtrip_witness:
  "fec_wf \<lparr> cols = 20, rows = 4, layout = Even, arq = Never \<rparr>
   \<and> fec_parse (fec_display \<lparr> cols = 20, rows = 4, layout = Even, arq = Never \<rparr>)
       = Inr \<lparr> cols = 20, rows = 4, layout = Even, arq = Never \<rparr>
   \<and> fec_parse (lit ''fec,rows:-9223372036854775808'') = Inr (fec_default\<lparr> rows := 2 ^ 63 \<rparr>)
   \<and> (\<exists>e. fec_parse (fec_display (fec_default\<lparr> rows := 2 ^ 63 \<rparr>)) = Inl e)"
proof -
  have w: "fec_wf \<lparr> cols = 20, rows = 4, layout = Even, arq = Never \<rparr>"
    and w': "fec_wf (fec_default\<lparr> rows := 2 ^ 63 \<rparr>)"
    by (simp_all add: fec_wf_def fec_default_def)
  have "fec_parse (lit ''fec,rows:-9223372036854775808'') = Inr (fec_default\<lparr> rows := 2 ^ 63 \<rparr>)"
    by (simp add: fec_eval)
  then show ?thesis
    using w fec_display_roundtrip [OF w] fec_display_roundtrip [OF w'] by simp
qed

end
