(* ===== verification/Error_Codes.thy ===== *)
theory Error_Codes
  imports Rust_Str
begin

text \<open>
  \<^verbatim>\<open>srt-protocol/src/error.rs\<close>: the error and rejection enumerations, their numeric codes,
  their categories and their messages. A Rust variant \<^verbatim>\<open>SrtError::X\<close> is the constructor \<open>Err_X\<close>,
  \<^verbatim>\<open>RejectReason::X\<close> is \<open>Rej_X\<close>, \<^verbatim>\<open>ErrorKind::X\<close> is \<open>Kind_X\<close>.
\<close>

section \<open>Errors\<close>

datatype error_kind =
  Kind_Success | Kind_Setup | Kind_Connection | Kind_SystemResource | Kind_FileSystem
| Kind_NotSupported | Kind_Again | Kind_PeerError | Kind_Unknown

datatype srt_error =
  Err_Success | Err_ConnectionSetup | Err_NoServer | Err_ConnectionRejected | Err_SocketFail
  | Err_SecurityFail | Err_SocketClosed | Err_ConnectionFail | Err_ConnectionLost
  | Err_NoConnection | Err_Resource | Err_Thread | Err_NoBuffer | Err_SysObject | Err_File
  | Err_InvalidReadOffset | Err_ReadPermission | Err_InvalidWriteOffset
  | Err_WritePermission | Err_InvalidOperation | Err_BoundSocket | Err_ConnectedSocket
  | Err_InvalidParam | Err_InvalidSocket | Err_UnboundSocket | Err_NoListen
  | Err_RendezvousNoServer | Err_RendezvousUnbound | Err_InvalidMessageApi
  | Err_InvalidBufferApi | Err_DuplicateListen | Err_LargeMessage | Err_InvalidPollId
  | Err_PollEmpty | Err_BindConflict | Err_AsyncFail | Err_AsyncSend | Err_AsyncRecv
  | Err_Timeout | Err_Congestion | Err_PeerError | Err_Unknown

primrec code :: "srt_error \<Rightarrow> i32" where
  "code Err_Success = 0"
| "code Err_ConnectionSetup = 1000"
| "code Err_NoServer = 1001"
| "code Err_ConnectionRejected = 1002"
| "code Err_SocketFail = 1003"
| "code Err_SecurityFail = 1004"
| "code Err_SocketClosed = 1005"
| "code Err_ConnectionFail = 2000"
| "code Err_ConnectionLost = 2001"
| "code Err_NoConnection = 2002"
| "code Err_Resource = 3000"
| "code Err_Thread = 3001"
| "code Err_NoBuffer = 3002"
| "code Err_SysObject = 3003"
| "code Err_File = 4000"
| "code Err_InvalidReadOffset = 4001"
| "code Err_ReadPermission = 4002"
| "code Err_InvalidWriteOffset = 4003"
| "code Err_WritePermission = 4004"
| "code Err_InvalidOperation = 5000"
| "code Err_BoundSocket = 5001"
| "code Err_ConnectedSocket = 5002"
| "code Err_InvalidParam = 5003"
| "code Err_InvalidSocket = 5004"
| "code Err_UnboundSocket = 5005"
| "code Err_NoListen = 5006"
| "code Err_RendezvousNoServer = 5007"
| "code Err_RendezvousUnbound = 5008"
| "code Err_InvalidMessageApi = 5009"
| "code Err_InvalidBufferApi = 5010"
| "code Err_DuplicateListen = 5011"
| "code Err_LargeMessage = 5012"
| "code Err_InvalidPollId = 5013"
| "code Err_PollEmpty = 5014"
| "code Err_BindConflict = 5015"
| "code Err_AsyncFail = 6000"
| "code Err_AsyncSend = 6001"
| "code Err_AsyncRecv = 6002"
| "code Err_Timeout = 6003"
| "code Err_Congestion = 6004"
| "code Err_PeerError = 7000"
| "code Err_Unknown = - 1"

text \<open>\<^verbatim>\<open>code / 1000\<close> truncates, but the division is reached only with a non-negative code.\<close>

definition kind :: "srt_error \<Rightarrow> error_kind" where
  "kind e =
     (let c = code e in
      if c < 0 then Kind_Unknown
      else if c div 1000 = 0 then Kind_Success
      else if c div 1000 = 1 then Kind_Setup
      else if c div 1000 = 2 then Kind_Connection
      else if c div 1000 = 3 then Kind_SystemResource
      else if c div 1000 = 4 then Kind_FileSystem
      else if c div 1000 = 5 then Kind_NotSupported
      else if c div 1000 = 6 then Kind_Again
      else if c div 1000 = 7 then Kind_PeerError
      else Kind_Unknown)"

definition from_code :: "i32 \<Rightarrow> srt_error" where
  "from_code c =
     (if c = 0 then Err_Success
      else if c = 1000 then Err_ConnectionSetup
      else if c = 1001 then Err_NoServer
      else if c = 1002 then Err_ConnectionRejected
      else if c = 1003 then Err_SocketFail
      else if c = 1004 then Err_SecurityFail
      else if c = 1005 then Err_SocketClosed
      else if c = 2000 then Err_ConnectionFail
      else if c = 2001 then Err_ConnectionLost
      else if c = 2002 then Err_NoConnection
      else if c = 3000 then Err_Resource
      else if c = 3001 then Err_Thread
      else if c = 3002 then Err_NoBuffer
      else if c = 3003 then Err_SysObject
      else if c = 4000 then Err_File
      else if c = 4001 then Err_InvalidReadOffset
      else if c = 4002 then Err_ReadPermission
      else if c = 4003 then Err_InvalidWriteOffset
      else if c = 4004 then Err_WritePermission
      else if c = 5000 then Err_InvalidOperation
      else if c = 5001 then Err_BoundSocket
      else if c = 5002 then Err_ConnectedSocket
      else if c = 5003 then Err_InvalidParam
      else if c = 5004 then Err_InvalidSocket
      else if c = 5005 then Err_UnboundSocket
      else if c = 5006 then Err_NoListen
      else if c = 5007 then Err_RendezvousNoServer
      else if c = 5008 then Err_RendezvousUnbound
      else if c = 5009 then Err_InvalidMessageApi
      else if c = 5010 then Err_InvalidBufferApi
      else if c = 5011 then Err_DuplicateListen
      else if c = 5012 then Err_LargeMessage
      else if c = 5013 then Err_InvalidPollId
      else if c = 5014 then Err_PollEmpty
      else if c = 5015 then Err_BindConflict
      else if c = 6000 then Err_AsyncFail
      else if c = 6001 then Err_AsyncSend
      else if c = 6002 then Err_AsyncRecv
      else if c = 6003 then Err_Timeout
      else if c = 6004 then Err_Congestion
      else if c = 7000 then Err_PeerError
      else Err_Unknown)"

primrec srt_error_display :: "srt_error \<Rightarrow> rstr" where
  "srt_error_display Err_Success = lit ''success''"
| "srt_error_display Err_ConnectionSetup = lit ''connection setup failure''"
| "srt_error_display Err_NoServer = lit ''connection timed out''"
| "srt_error_display Err_ConnectionRejected = lit ''connection rejected by peer''"
| "srt_error_display Err_SocketFail = lit ''unable to create/configure SRT socket''"
| "srt_error_display Err_SecurityFail = lit ''encryption failure''"
| "srt_error_display Err_SocketClosed = lit ''socket closed during operation''"
| "srt_error_display Err_ConnectionFail = lit ''connection failure''"
| "srt_error_display Err_ConnectionLost = lit ''connection lost''"
| "srt_error_display Err_NoConnection = lit ''no connection''"
| "srt_error_display Err_Resource = lit ''system resource failure''"
| "srt_error_display Err_Thread = lit ''unable to create thread''"
| "srt_error_display Err_NoBuffer = lit ''no memory space available''"
| "srt_error_display Err_SysObject = lit ''unable to create system object''"
| "srt_error_display Err_File = lit ''file system failure''"
| "srt_error_display Err_InvalidReadOffset = lit ''cannot seek read position''"
| "srt_error_display Err_ReadPermission = lit ''failure in read''"
| "srt_error_display Err_InvalidWriteOffset = lit ''cannot seek write position''"
| "srt_error_display Err_WritePermission = lit ''failure in write''"
| "srt_error_display Err_InvalidOperation = lit ''operation not supported''"
| "srt_error_display Err_BoundSocket = lit ''socket already bound''"
| "srt_error_display Err_ConnectedSocket = lit ''socket already connected''"
| "srt_error_display Err_InvalidParam = lit ''invalid parameter''"
| "srt_error_display Err_InvalidSocket = lit ''invalid socket ID''"
| "srt_error_display Err_UnboundSocket = lit ''socket not bound''"
| "srt_error_display Err_NoListen = lit ''socket not in listening state''"
| "srt_error_display Err_RendezvousNoServer = lit ''rendezvous connection mode with non-matching sockets''"
| "srt_error_display Err_RendezvousUnbound = lit ''rendezvous connection but unbound socket''"
| "srt_error_display Err_InvalidMessageApi = lit ''message API not valid in stream mode''"
| "srt_error_display Err_InvalidBufferApi = lit ''buffer API not valid in message mode''"
| "srt_error_display Err_DuplicateListen = lit ''another socket already listening on this port''"
| "srt_error_display Err_LargeMessage = lit ''message too large for the configured payload size''"
| "srt_error_display Err_InvalidPollId = lit ''invalid epoll ID''"
| "srt_error_display Err_PollEmpty = lit ''epoll container empty''"
| "srt_error_display Err_BindConflict = lit ''port already in use''"
| "srt_error_display Err_AsyncFail = lit ''non-blocking call failure''"
| "srt_error_display Err_AsyncSend = lit ''no buffer space available for sending''"
| "srt_error_display Err_AsyncRecv = lit ''no data available for reading''"
| "srt_error_display Err_Timeout = lit ''operation timed out''"
| "srt_error_display Err_Congestion = lit ''congestion control''"
| "srt_error_display Err_PeerError = lit ''error from peer''"
| "srt_error_display Err_Unknown = lit ''unknown error''"

section \<open>Rejection reasons\<close>

datatype reject_reason =
  Rej_Unknown | Rej_System | Rej_Peer | Rej_Resource | Rej_Rogue | Rej_Backlog | Rej_Ipe
  | Rej_Close | Rej_Version | Rej_RdvCookie | Rej_BadSecret | Rej_Unsecure | Rej_MessageApi
  | Rej_Congestion | Rej_Filter | Rej_Group | Rej_Timeout | Rej_Crypto

primrec reject_code :: "reject_reason \<Rightarrow> i32" where
  "reject_code Rej_Unknown = 0"
| "reject_code Rej_System = 1"
| "reject_code Rej_Peer = 2"
| "reject_code Rej_Resource = 3"
| "reject_code Rej_Rogue = 4"
| "reject_code Rej_Backlog = 5"
| "reject_code Rej_Ipe = 6"
| "reject_code Rej_Close = 7"
| "reject_code Rej_Version = 8"
| "reject_code Rej_RdvCookie = 9"
| "reject_code Rej_BadSecret = 10"
| "reject_code Rej_Unsecure = 11"
| "reject_code Rej_MessageApi = 12"
| "reject_code Rej_Congestion = 13"
| "reject_code Rej_Filter = 14"
| "reject_code Rej_Group = 15"
| "reject_code Rej_Timeout = 16"
| "reject_code Rej_Crypto = 17"

definition reject_from_code :: "i32 \<Rightarrow> reject_reason" where
  "reject_from_code c =
     (if c = 0 then Rej_Unknown
      else if c = 1 then Rej_System
      else if c = 2 then Rej_Peer
      else if c = 3 then Rej_Resource
      else if c = 4 then Rej_Rogue
      else if c = 5 then Rej_Backlog
      else if c = 6 then Rej_Ipe
      else if c = 7 then Rej_Close
      else if c = 8 then Rej_Version
      else if c = 9 then Rej_RdvCookie
      else if c = 10 then Rej_BadSecret
      else if c = 11 then Rej_Unsecure
      else if c = 12 then Rej_MessageApi
      else if c = 13 then Rej_Congestion
      else if c = 14 then Rej_Filter
      else if c = 15 then Rej_Group
      else if c = 16 then Rej_Timeout
      else if c = 17 then Rej_Crypto
      else Rej_Unknown)"

primrec reject_display :: "reject_reason \<Rightarrow> rstr" where
  "reject_display Rej_Unknown = lit ''unknown''"
| "reject_display Rej_System = lit ''system function error''"
| "reject_display Rej_Peer = lit ''rejected by peer''"
| "reject_display Rej_Resource = lit ''resource allocation failure''"
| "reject_display Rej_Rogue = lit ''incorrect data in handshake''"
| "reject_display Rej_Backlog = lit ''listener backlog exceeded''"
| "reject_display Rej_Ipe = lit ''internal program error''"
| "reject_display Rej_Close = lit ''socket is closing''"
| "reject_display Rej_Version = lit ''peer version too old''"
| "reject_display Rej_RdvCookie = lit ''rendezvous cookie collision''"
| "reject_display Rej_BadSecret = lit ''incorrect passphrase''"
| "reject_display Rej_Unsecure = lit ''password required or unexpected''"
| "reject_display Rej_MessageApi = lit ''stream/message API conflict''"
| "reject_display Rej_Congestion = lit ''incompatible congestion controller''"
| "reject_display Rej_Filter = lit ''incompatible packet filter''"
| "reject_display Rej_Group = lit ''incompatible group''"
| "reject_display Rej_Timeout = lit ''connection timeout''"
| "reject_display Rej_Crypto = lit ''incompatible crypto mode''"

section \<open>Codes and enumerations agree\<close>

lemma from_code_code [simp]: "from_code (code e) = e"
  by (cases e) (simp_all add: from_code_def)

lemma code_inject: "code e = code e' \<longleftrightarrow> e = e'"
  by (metis from_code_code)

lemma code_from_code: "from_code c \<noteq> Err_Unknown \<Longrightarrow> code (from_code c) = c"
  by (auto simp: from_code_def split: if_splits)

lemma reject_from_code_code [simp]: "reject_from_code (reject_code r) = r"
  by (cases r) (simp_all add: reject_from_code_def)

lemma reject_code_range: "reject_from_code c \<noteq> Rej_Unknown \<Longrightarrow> reject_code (reject_from_code c) = c"
  by (auto simp: reject_from_code_def split: if_splits)

lemma from_code_AsyncSend [simp]: "from_code 6001 = Err_AsyncSend"
  by (simp add: from_code_def)

text \<open>
  Claim C34. The error enumeration and libsrt's numeric codes are in bijection apart from
  \<open>Err_Unknown\<close>: decoding an encoded error gives the error back, encoding a decoded code gives
  the code back unless the code is not one libsrt defines, and the same holds of the rejection
  reasons.
\<close>

theorem error_code_roundtrip:
  "from_code (code e) = e
   \<and> (if from_code c = Err_Unknown then c \<notin> code ` (UNIV - {Err_Unknown}) else code (from_code c) = c)
   \<and> reject_from_code (reject_code r) = r
   \<and> (if reject_from_code d = Rej_Unknown then d \<notin> reject_code ` (UNIV - {Rej_Unknown})
      else reject_code (reject_from_code d) = d)"
proof -
  have "c \<notin> code ` (UNIV - {Err_Unknown})" if "from_code c = Err_Unknown"
    using that by auto
  moreover have "d \<notin> reject_code ` (UNIV - {Rej_Unknown})" if "reject_from_code d = Rej_Unknown"
    using that by auto
  ultimately show ?thesis
    by (simp add: code_from_code reject_code_range)
qed

text \<open>
  The category of an error is the thousands digit of its code: two errors are of the
  same category exactly when their codes agree up to the last three digits, and the category
  \<open>Kind_Again\<close>, which is what a caller retries on, holds of exactly the five non-blocking codes.
\<close>

lemma error_kind_is_major:
  "(kind e = kind e' \<longleftrightarrow> code e div 1000 = code e' div 1000)
   \<and> (kind e = Kind_Again \<longleftrightarrow>
        e \<in> {Err_AsyncFail, Err_AsyncSend, Err_AsyncRecv, Err_Timeout, Err_Congestion})
   \<and> (kind e = Kind_Unknown \<longleftrightarrow> e = Err_Unknown)"
proof -
  have major: "kind e = (if code e < 0 then Kind_Unknown else
      [Kind_Success, Kind_Setup, Kind_Connection, Kind_SystemResource, Kind_FileSystem,
       Kind_NotSupported, Kind_Again, Kind_PeerError] ! nat (code e div 1000))
    \<and> code e div 1000 \<in> {-1, 0, 1, 2, 3, 4, 5, 6, 7} \<and> (code e < 0 \<longleftrightarrow> code e div 1000 = -1)" for e
    by (cases e) (simp_all add: kind_def)
  have "kind e = kind e' \<longleftrightarrow> code e div 1000 = code e' div 1000"
    using major [of e] major [of e'] by (auto split: if_splits)
  moreover have "kind e = Kind_Again \<longleftrightarrow>
      e \<in> {Err_AsyncFail, Err_AsyncSend, Err_AsyncRecv, Err_Timeout, Err_Congestion}"
    and "kind e = Kind_Unknown \<longleftrightarrow> e = Err_Unknown"
    by (cases e; simp add: kind_def)+
  ultimately show ?thesis by blast
qed

end
