(* ===== verification/Config.thy ===== *)
theory Config
  imports Error_Codes
begin

text \<open>
  \<^verbatim>\<open>srt-protocol/src/config.rs\<close>: transmission and encryption modes, the configuration struct
  with its defaults, and the status enumerations. \<^verbatim>\<open>std::time::Duration\<close> is a number of
  nanoseconds. The arithmetic of \<^verbatim>\<open>KeySize::from_km_field\<close> can overflow a \<^verbatim>\<open>u32\<close>: what happens
  then depends on the build's overflow checks, which are a parameter of the definition.
\<close>

section \<open>Durations and panics\<close>

type_synonym duration = nat

definition from_millis :: "nat \<Rightarrow> duration" where
  "from_millis n = n * 1000000"

definition from_secs :: "nat \<Rightarrow> duration" where
  "from_secs n = n * 1000000000"

definition as_millis :: "duration \<Rightarrow> nat" where
  "as_millis d = d div 1000000"

lemma as_millis_from_millis [simp]: "as_millis (from_millis n) = n"
  by (simp add: as_millis_def from_millis_def)

datatype 'a rust = Panic | Done 'a

section \<open>Modes\<close>

datatype trans_type = TT_Live | TT_File

datatype crypto_mode_config = AesCtr | AesGcm

datatype key_size = AES128 | AES192 | AES256

primrec key_size_value :: "key_size \<Rightarrow> nat" where
  "key_size_value AES128 = 16"
| "key_size_value AES192 = 24"
| "key_size_value AES256 = 32"

definition from_bytes_len :: "nat \<Rightarrow> key_size option" where
  "from_bytes_len len =
     (if len = 16 then Some AES128
      else if len = 24 then Some AES192
      else if len = 32 then Some AES256
      else None)"

definition to_km_field :: "key_size \<Rightarrow> u32" where
  "to_km_field k = word_of_nat (key_size_value k) div 4"

definition from_km_field :: "bool \<Rightarrow> u32 \<Rightarrow> key_size option rust" where
  "from_km_field overflow_checks field =
     (if overflow_checks \<and> unat field * 4 \<ge> 2 ^ 32 then Panic
      else Done (from_bytes_len (unat (field * 4))))"

datatype retransmit_algo = RA_Default | RA_Reduced

datatype km_state =
  Km_Unsecured | Km_Securing | Km_Secured | Km_NoSecret | Km_BadSecret | Km_BadCryptoMode

primrec km_state_value :: "km_state \<Rightarrow> i32" where
  "km_state_value Km_Unsecured = 0"
| "km_state_value Km_Securing = 1"
| "km_state_value Km_Secured = 2"
| "km_state_value Km_NoSecret = 3"
| "km_state_value Km_BadSecret = 4"
| "km_state_value Km_BadCryptoMode = 5"

definition km_from_value :: "i32 \<Rightarrow> km_state" where
  "km_from_value v =
     (if v = 0 then Km_Unsecured
      else if v = 1 then Km_Securing
      else if v = 2 then Km_Secured
      else if v = 3 then Km_NoSecret
      else if v = 4 then Km_BadSecret
      else if v = 5 then Km_BadCryptoMode
      else Km_Unsecured)"

section \<open>The configuration\<close>

record srt_config =
  mss :: u32
  flight_flag_size :: u32
  send_buffer_size :: u32
  recv_buffer_size :: u32
  udp_send_buffer_size :: u32
  udp_recv_buffer_size :: u32
  send_sync :: bool
  recv_sync :: bool
  send_timeout :: "duration option"
  recv_timeout :: "duration option"
  reuse_addr :: bool
  linger :: "duration option"
  connect_timeout :: duration
  rendezvous :: bool
  ipv6_only :: bool
  ip_ttl :: i32
  ip_tos :: i32
  bind_to_device :: "rstr option"
  peer_idle_timeout :: duration
  trans_type :: trans_type
  message_api :: bool
  payload_size :: u32
  max_bw :: i64
  input_bw :: i64
  min_input_bw :: i64
  overhead_bw :: i32
  max_rexmit_bw :: i64
  tsbpd_mode :: bool
  recv_latency :: u32
  peer_latency :: u32
  tlpkt_drop :: bool
  send_drop_delay :: i32
  nak_report :: bool
  drift_tracer :: bool
  loss_max_ttl :: i32
  passphrase :: rstr
  key_size :: key_size
  crypto_mode :: crypto_mode_config
  enforced_encryption :: bool
  km_refresh_rate :: u32
  km_pre_announce :: u32
  sender :: bool
  stream_id :: rstr
  congestion :: rstr
  packet_filter :: rstr
  retransmit_algo :: retransmit_algo
  min_version :: u32
  group_connect :: bool
  group_min_stable_timeout :: duration

definition default_config :: srt_config where
  "default_config =
     \<lparr> mss = 1500,
       flight_flag_size = 25600,
       send_buffer_size = 8192 * 1316,
       recv_buffer_size = 8192 * 1316,
       udp_send_buffer_size = 65536,
       udp_recv_buffer_size = 65536,
       send_sync = True,
       recv_sync = True,
       send_timeout = None,
       recv_timeout = None,
       reuse_addr = True,
       linger = Some (from_secs 180),
       connect_timeout = from_secs 3,
       rendezvous = False,
       ipv6_only = False,
       ip_ttl = 64,
       ip_tos = 0,
       bind_to_device = None,
       peer_idle_timeout = from_secs 5,
       trans_type = TT_Live,
       message_api = True,
       payload_size = 1316,
       max_bw = - 1,
       input_bw = 0,
       min_input_bw = 0,
       overhead_bw = 25,
       max_rexmit_bw = - 1,
       tsbpd_mode = True,
       recv_latency = 120,
       peer_latency = 0,
       tlpkt_drop = True,
       send_drop_delay = - 1,
       nak_report = True,
       drift_tracer = True,
       loss_max_ttl = 0,
       passphrase = [],
       key_size = AES128,
       crypto_mode = AesCtr,
       enforced_encryption = True,
       km_refresh_rate = 0x01000000,
       km_pre_announce = 0x1000,
       sender = False,
       stream_id = [],
       congestion = lit ''live'',
       packet_filter = [],
       retransmit_algo = RA_Default,
       min_version = 0,
       group_connect = False,
       group_min_stable_timeout = from_millis 60 \<rparr>"

definition live_defaults :: "srt_config \<Rightarrow> srt_config" where
  "live_defaults c = c \<lparr> trans_type := TT_Live, message_api := True, tsbpd_mode := True,
     tlpkt_drop := True, nak_report := True, payload_size := 1316, congestion := lit ''live'' \<rparr>"

definition file_defaults :: "srt_config \<Rightarrow> srt_config" where
  "file_defaults c = c \<lparr> trans_type := TT_File, message_api := True, tsbpd_mode := False,
     tlpkt_drop := False, nak_report := False, payload_size := 0, congestion := lit ''file'' \<rparr>"

definition encryption_enabled :: "srt_config \<Rightarrow> bool" where
  "encryption_enabled c \<longleftrightarrow> passphrase c \<noteq> []"

section \<open>Statuses\<close>

datatype socket_status =
  S_Init | S_Opened | S_Listening | S_Connecting | S_Connected | S_Broken | S_Closing | S_Closed
| S_NonExist

datatype member_status = M_Pending | M_Idle | M_Running | M_Broken

definition SRT_LIVE_DEF_PLSIZE :: u32 where
  "SRT_LIVE_DEF_PLSIZE = 1316"

definition SRT_LIVE_MAX_PLSIZE :: u32 where
  "SRT_LIVE_MAX_PLSIZE = 1456"

definition SRT_LIVE_DEF_LATENCY_MS :: u32 where
  "SRT_LIVE_DEF_LATENCY_MS = 120"

section \<open>Properties\<close>

lemma unat_km_field: "unat (to_km_field k * 4) = key_size_value k"
  by (cases k) (simp_all add: to_km_field_def)

lemma from_bytes_len_Some: "from_bytes_len n = Some k \<longleftrightarrow> n = key_size_value k"
  by (cases k) (auto simp: from_bytes_len_def)

text \<open>
  Claim C35. Encoding a key size into the KM field and decoding it gives the key size back, in
  every build; a field below \<open>2 ^ 30\<close> is decoded to a key size exactly when it is that key
  size's code. Above that bound the multiplication overflows: a build with overflow checks
  panics, and a build without them decodes the four fields that agree modulo \<open>2 ^ 30\<close> alike.
\<close>

theorem km_field_roundtrip:
  "from_km_field chk (to_km_field k) = Done (Some k)
   \<and> (from_km_field chk f = Done (Some k) \<longleftrightarrow>
        unat f mod 2 ^ 30 = unat (to_km_field k) \<and> (chk \<longrightarrow> unat f < 2 ^ 30))
   \<and> (from_km_field chk f = Panic \<longleftrightarrow> chk \<and> 2 ^ 30 \<le> unat f)"
proof -
  have mul: "unat (f * 4) = 4 * (unat f mod 2 ^ 30)"
    using mult_mod_right [of 4 "unat f" "2 ^ 30"] by (simp add: unat_word_ariths mult.commute)
  have val: "key_size_value k = 4 * unat (to_km_field k)"
    by (cases k) (simp_all add: to_km_field_def)
  have "unat (to_km_field k) < 2 ^ 30"
    by (cases k) (simp_all add: to_km_field_def)
  then have "from_km_field chk (to_km_field k) = Done (Some k)"
    by (simp add: from_km_field_def from_bytes_len_Some unat_km_field)
  then show ?thesis
    by (auto simp: from_km_field_def from_bytes_len_Some mul val)
qed

text \<open>Its instance at the largest build-dependent case: field \<open>0x40000004\<close> is AES-128 without
  overflow checks and a panic with them.\<close>

theorem km_field_roundtrip_witness:
  "from_km_field False 0x40000004 = Done (Some AES128) \<and> from_km_field True 0x40000004 = Panic"
  using km_field_roundtrip [of False AES128 "0x40000004"] km_field_roundtrip [of True AES128 "0x40000004"]
  by (simp add: to_km_field_def)

lemma km_state_roundtrip: "km_from_value (km_state_value k) = k"
  by (cases k) (simp_all add: km_from_value_def)

lemma mode_defaults_override:
  "live_defaults (file_defaults c) = live_defaults c" "file_defaults (live_defaults c) = file_defaults c"
  by (simp_all add: live_defaults_def file_defaults_def)

lemma live_defaults_default: "live_defaults default_config = default_config"
  by (simp add: live_defaults_def default_config_def)

end
