(* ===== verification/Addr.thy ===== *)
theory Addr
  imports Rust_Str
begin

text \<open>
  The address conversions at the end of \<^verbatim>\<open>srt-transport/src/epoll_bridge.rs\<close>. An IP address is
  the list of its octets (4 or 16). A C \<^verbatim>\<open>sockaddr_storage\<close> is read by its family as one of the
  structs the source casts it to, so it is a datatype with a case per family; its integer fields
  hold what the C struct holds, that is, values in network byte order read as native integers.
  The byte order of the target is the parameter \<open>le\<close> (little-endian when true).
\<close>

datatype socket_addr = V4 (octets: "u8 list") (port: u16)
  | V6 (octets: "u8 list") (port: u16) (flowinfo: u32) (scope_id: u32)

definition wf_addr :: "socket_addr \<Rightarrow> bool" where
  "wf_addr a = (case a of V4 os p \<Rightarrow> length os = 4 | V6 os p f s \<Rightarrow> length os = 16)"

definition is_ipv4 :: "socket_addr \<Rightarrow> bool" where
  "is_ipv4 a = (case a of V4 _ _ \<Rightarrow> True | V6 _ _ _ _ \<Rightarrow> False)"

definition unspecified_v4 :: socket_addr where
  "unspecified_v4 = V4 [0, 0, 0, 0] 0"

section \<open>Byte order\<close>

primrec le_nat :: "u8 list \<Rightarrow> nat" where
  "le_nat [] = 0"
| "le_nat (b # bs) = unat b + 256 * le_nat bs"

primrec le_bytes :: "nat \<Rightarrow> nat \<Rightarrow> u8 list" where
  "le_bytes 0 x = []"
| "le_bytes (Suc n) x = word_of_nat (x mod 256) # le_bytes n (x div 256)"

definition to_be16 :: "bool \<Rightarrow> u16 \<Rightarrow> u16" where
  "to_be16 le w = (if le then word_of_nat (le_nat (rev (le_bytes 2 (unat w)))) else w)"

abbreviation from_be16 :: "bool \<Rightarrow> u16 \<Rightarrow> u16" where
  "from_be16 \<equiv> to_be16"

definition from_be32 :: "bool \<Rightarrow> u32 \<Rightarrow> u32" where
  "from_be32 le w = (if le then word_of_nat (le_nat (rev (le_bytes 4 (unat w)))) else w)"

definition from_ne_bytes :: "bool \<Rightarrow> u8 list \<Rightarrow> u32" where
  "from_ne_bytes le os = word_of_nat (le_nat (if le then os else rev os))"

text \<open>\<^verbatim>\<open>Ipv4Addr::from(u32)\<close>: the octets, most significant first.\<close>

definition ipv4_of_u32 :: "u32 \<Rightarrow> u8 list" where
  "ipv4_of_u32 w = rev (le_bytes 4 (unat w))"

lemma length_le_bytes [simp]: "length (le_bytes n x) = n"
  by (induction n arbitrary: x) auto

lemma unat_less_256: "unat (b :: u8) < 256"
  using unsigned_less [of b, where 'a = nat] by simp

lemma unat_less_65536: "unat (p :: u16) < 65536"
  using unsigned_less [of p, where 'a = nat] by simp

lemma le_nat_bound: "le_nat bs < 256 ^ length bs"
proof (induction bs)
  case (Cons b bs)
  have "unat b < 256" by (rule unat_less_256)
  with Cons show ?case by simp
qed simp

lemma le_bytes_le_nat [simp]: "le_bytes (length bs) (le_nat bs) = bs"
proof (induction bs)
  case (Cons b bs)
  have "unat b < 256" by (rule unat_less_256)
  with Cons show ?case by simp
qed simp

lemma le_bytes_le_nat' [simp]: "length bs = n \<Longrightarrow> le_bytes n (le_nat bs) = bs"
  using le_bytes_le_nat [of bs] by simp

lemma unat_le_nat2: "length bs = 2 \<Longrightarrow> unat (word_of_nat (le_nat bs) :: u16) = le_nat bs"
  using le_nat_bound [of bs] by (simp add: unat_of_nat)

lemma unat_le_nat4: "length bs = 4 \<Longrightarrow> unat (word_of_nat (le_nat bs) :: u32) = le_nat bs"
  using le_nat_bound [of bs] by (simp add: unat_of_nat)

lemma le_nat_le_bytes: "x < 256 ^ n \<Longrightarrow> le_nat (le_bytes n x) = x"
proof (induction n arbitrary: x)
  case (Suc n)
  then have "x div 256 < 256 ^ n" by (simp add: div_less_iff_less_mult mult.commute)
  with Suc.IH show ?case by (simp add: unat_of_nat)
qed simp

lemma be16_involution [simp]: "from_be16 le (to_be16 le p) = p"
proof -
  have "unat p < 256 ^ 2" using unat_less_65536 [of p] by simp
  then show ?thesis
    by (simp add: to_be16_def unat_le_nat2 le_nat_le_bytes)
qed

lemma ipv4_roundtrip [simp]:
  "length os = 4 \<Longrightarrow> ipv4_of_u32 (from_be32 le (from_ne_bytes le os)) = os"
  by (simp add: ipv4_of_u32_def from_be32_def from_ne_bytes_def unat_le_nat4)

section \<open>Conversions\<close>

datatype sockaddr =
  Sockaddr_in (sin_port: u16) (s_addr: u32)
| Sockaddr_in6 (sin6_port: u16) (s6_addr: "u8 list") (sin6_flowinfo: u32) (sin6_scope_id: u32)
| Sockaddr_other

definition socket_addr_to_sockaddr :: "bool \<Rightarrow> socket_addr \<Rightarrow> sockaddr" where
  "socket_addr_to_sockaddr le a =
     (case a of
        V4 os p \<Rightarrow> Sockaddr_in (to_be16 le p) (from_ne_bytes le os)
      | V6 os p f s \<Rightarrow> Sockaddr_in6 (to_be16 le p) os f s)"

text \<open>A null pointer is \<open>None\<close>.\<close>

definition sockaddr_to_socket_addr :: "bool \<Rightarrow> sockaddr option \<Rightarrow> socket_addr option" where
  "sockaddr_to_socket_addr le sa =
     (case sa of
        None \<Rightarrow> None
      | Some (Sockaddr_in p a) \<Rightarrow> Some (V4 (ipv4_of_u32 (from_be32 le a)) (from_be16 le p))
      | Some (Sockaddr_in6 p a f s) \<Rightarrow> Some (V6 a (from_be16 le p) 0 0)
      | Some Sockaddr_other \<Rightarrow> None)"

definition sockaddr_storage_to_socket_addr :: "bool \<Rightarrow> sockaddr \<Rightarrow> socket_addr option" where
  "sockaddr_storage_to_socket_addr le sa = sockaddr_to_socket_addr le (Some sa)"

text \<open>
  Claim C38. On either byte order, an address converted for libsrt and read back is the same IP
  address and port; an IPv4 address comes back unchanged, an IPv6 address comes back with its
  flow label and scope id zeroed, so it is unchanged exactly when both were zero.
\<close>

theorem sockaddr_roundtrip:
  assumes "wf_addr a"
  shows "sockaddr_storage_to_socket_addr le (socket_addr_to_sockaddr le a) =
      Some (case a of V4 os p \<Rightarrow> V4 os p | V6 os p f s \<Rightarrow> V6 os p 0 0)
    \<and> (sockaddr_storage_to_socket_addr le (socket_addr_to_sockaddr le a) = Some a \<longleftrightarrow>
        is_ipv4 a \<or> flowinfo a = 0 \<and> scope_id a = 0)"
  using assms by (cases a)
    (auto simp: wf_addr_def is_ipv4_def socket_addr_to_sockaddr_def
      sockaddr_storage_to_socket_addr_def sockaddr_to_socket_addr_def)

text \<open>An instance that loses its scope: the link-local address \<open>fe80::1\<close> on interface 2.\<close>

theorem sockaddr_roundtrip_witness:
  "let a = V6 [254, 128, 0, 0, 0, 0, 0, 0, 0, 0, 0, 0, 0, 0, 0, 1] 9000 0 2 in
   wf_addr a \<and> sockaddr_storage_to_socket_addr True (socket_addr_to_sockaddr True a) \<noteq> Some a"
  using sockaddr_roundtrip [of "V6 [254, 128, 0, 0, 0, 0, 0, 0, 0, 0, 0, 0, 0, 0, 0, 1] 9000 0 2" True]
  by (simp add: wf_addr_def is_ipv4_def Let_def)

end
