(* ===== verification/Stats.thy ===== *)
theory Stats
  imports Prelude
begin

text \<open>
  \<^verbatim>\<open>srt-protocol/src/stats.rs\<close>, \<^verbatim>\<open>srt-protocol/src/received_packet.rs\<close> and
  \<^verbatim>\<open>srt-transport/src/stats_bridge.rs\<close>: the statistics snapshot, its reset, its translation from
  libsrt's performance record, and the received packet. An \<^verbatim>\<open>f64\<close> is its IEEE bit pattern: the
  source only copies such values and writes \<^verbatim>\<open>0.0\<close>, whose pattern is 0. The performance record has
  the fields the bridge reads, under libsrt's names with the prefix \<open>p_\<close>.
\<close>

type_synonym f64 = "64 word"

section \<open>Statistics\<close>

record srt_stats =
  ms_timestamp :: i64
  pkt_sent_total :: i64
  pkt_recv_total :: i64
  pkt_snd_loss_total :: i32
  pkt_rcv_loss_total :: i32
  pkt_retrans_total :: i32
  pkt_sent_ack_total :: i32
  pkt_recv_ack_total :: i32
  pkt_sent_nak_total :: i32
  pkt_recv_nak_total :: i32
  us_snd_duration_total :: i64
  pkt_snd_drop_total :: i32
  pkt_rcv_drop_total :: i32
  pkt_rcv_undecrypt_total :: i32
  byte_sent_total :: u64
  byte_recv_total :: u64
  byte_rcv_loss_total :: u64
  byte_retrans_total :: u64
  byte_snd_drop_total :: u64
  byte_rcv_drop_total :: u64
  byte_rcv_undecrypt_total :: u64
  pkt_sent_unique_total :: i64
  pkt_recv_unique_total :: i64
  byte_sent_unique_total :: u64
  byte_recv_unique_total :: u64
  pkt_sent :: i64
  pkt_recv :: i64
  pkt_snd_loss :: i32
  pkt_rcv_loss :: i32
  pkt_retrans :: i32
  pkt_rcv_retrans :: i32
  pkt_rcv_retrans_total :: i32
  pkt_sent_ack :: i32
  pkt_recv_ack :: i32
  pkt_sent_nak :: i32
  pkt_recv_nak :: i32
  mbps_send_rate :: f64
  mbps_recv_rate :: f64
  us_snd_duration :: i64
  pkt_reorder_distance :: i32
  pkt_rcv_avg_belated_time :: f64
  pkt_rcv_belated :: i64
  pkt_snd_drop :: i32
  pkt_rcv_drop :: i32
  pkt_rcv_undecrypt :: i32
  byte_sent :: u64
  byte_recv :: u64
  byte_rcv_loss :: u64
  byte_retrans :: u64
  byte_snd_drop :: u64
  byte_rcv_drop :: u64
  byte_rcv_undecrypt :: u64
  pkt_sent_unique :: i64
  pkt_recv_unique :: i64
  byte_sent_unique :: u64
  byte_recv_unique :: u64
  us_pkt_snd_period :: f64
  pkt_flow_window :: i32
  pkt_congestion_window :: i32
  pkt_flight_size :: i32
  ms_rtt :: f64
  mbps_bandwidth :: f64
  byte_avail_snd_buf :: i32
  byte_avail_rcv_buf :: i32
  mbps_max_bw :: f64
  byte_mss :: i32
  pkt_snd_buf :: i32
  byte_snd_buf :: i32
  ms_snd_buf :: i32
  ms_snd_tsbpd_delay :: i32
  pkt_rcv_buf :: i32
  byte_rcv_buf :: i32
  ms_rcv_buf :: i32
  ms_rcv_tsbpd_delay :: i32
  pkt_snd_filter_extra_total :: i32
  pkt_rcv_filter_extra_total :: i32
  pkt_rcv_filter_supply_total :: i32
  pkt_rcv_filter_loss_total :: i32
  pkt_snd_filter_extra :: i32
  pkt_rcv_filter_extra :: i32
  pkt_rcv_filter_supply :: i32
  pkt_rcv_filter_loss :: i32
  pkt_reorder_tolerance :: i32

definition default_stats :: srt_stats where
  "default_stats =
     \<lparr> ms_timestamp = 0, pkt_sent_total = 0, pkt_recv_total = 0, pkt_snd_loss_total = 0,
       pkt_rcv_loss_total = 0, pkt_retrans_total = 0, pkt_sent_ack_total = 0,
       pkt_recv_ack_total = 0, pkt_sent_nak_total = 0, pkt_recv_nak_total = 0,
       us_snd_duration_total = 0, pkt_snd_drop_total = 0, pkt_rcv_drop_total = 0,
       pkt_rcv_undecrypt_total = 0, byte_sent_total = 0, byte_recv_total = 0,
       byte_rcv_loss_total = 0, byte_retrans_total = 0, byte_snd_drop_total = 0,
       byte_rcv_drop_total = 0, byte_rcv_undecrypt_total = 0, pkt_sent_unique_total = 0,
       pkt_recv_unique_total = 0, byte_sent_unique_total = 0, byte_recv_unique_total = 0,
       pkt_sent = 0, pkt_recv = 0, pkt_snd_loss = 0, pkt_rcv_loss = 0, pkt_retrans = 0,
       pkt_rcv_retrans = 0, pkt_rcv_retrans_total = 0, pkt_sent_ack = 0, pkt_recv_ack = 0,
       pkt_sent_nak = 0, pkt_recv_nak = 0, mbps_send_rate = 0, mbps_recv_rate = 0,
       us_snd_duration = 0, pkt_reorder_distance = 0, pkt_rcv_avg_belated_time = 0,
       pkt_rcv_belated = 0, pkt_snd_drop = 0, pkt_rcv_drop = 0, pkt_rcv_undecrypt = 0,
       byte_sent = 0, byte_recv = 0, byte_rcv_loss = 0, byte_retrans = 0, byte_snd_drop = 0,
       byte_rcv_drop = 0, byte_rcv_undecrypt = 0, pkt_sent_unique = 0, pkt_recv_unique = 0,
       byte_sent_unique = 0, byte_recv_unique = 0, us_pkt_snd_period = 0, pkt_flow_window = 0,
       pkt_congestion_window = 0, pkt_flight_size = 0, ms_rtt = 0, mbps_bandwidth = 0,
       byte_avail_snd_buf = 0, byte_avail_rcv_buf = 0, mbps_max_bw = 0, byte_mss = 0,
       pkt_snd_buf = 0, byte_snd_buf = 0, ms_snd_buf = 0, ms_snd_tsbpd_delay = 0,
       pkt_rcv_buf = 0, byte_rcv_buf = 0, ms_rcv_buf = 0, ms_rcv_tsbpd_delay = 0,
       pkt_snd_filter_extra_total = 0, pkt_rcv_filter_extra_total = 0,
       pkt_rcv_filter_supply_total = 0, pkt_rcv_filter_loss_total = 0,
       pkt_snd_filter_extra = 0, pkt_rcv_filter_extra = 0, pkt_rcv_filter_supply = 0,
       pkt_rcv_filter_loss = 0, pkt_reorder_tolerance = 0 \<rparr>"

definition reset_local :: "srt_stats \<Rightarrow> srt_stats" where
  "reset_local s = s
     \<lparr> pkt_sent := 0, pkt_recv := 0, pkt_snd_loss := 0, pkt_rcv_loss := 0, pkt_retrans := 0,
       pkt_rcv_retrans := 0, pkt_sent_ack := 0, pkt_recv_ack := 0, pkt_sent_nak := 0,
       pkt_recv_nak := 0, mbps_send_rate := 0, mbps_recv_rate := 0, us_snd_duration := 0,
       pkt_reorder_distance := 0, pkt_rcv_avg_belated_time := 0, pkt_rcv_belated := 0,
       pkt_snd_drop := 0, pkt_rcv_drop := 0, pkt_rcv_undecrypt := 0, byte_sent := 0,
       byte_recv := 0, byte_rcv_loss := 0, byte_retrans := 0, byte_snd_drop := 0,
       byte_rcv_drop := 0, byte_rcv_undecrypt := 0, pkt_sent_unique := 0, pkt_recv_unique := 0,
       byte_sent_unique := 0, byte_recv_unique := 0, pkt_snd_filter_extra := 0,
       pkt_rcv_filter_extra := 0, pkt_rcv_filter_supply := 0, pkt_rcv_filter_loss := 0 \<rparr>"

section \<open>libsrt's performance record\<close>

record perfmon =
  p_msTimeStamp :: i64
  p_pktSentTotal :: i64
  p_pktRecvTotal :: i64
  p_pktSndLossTotal :: i32
  p_pktRcvLossTotal :: i32
  p_pktRetransTotal :: i32
  p_pktSentACKTotal :: i32
  p_pktRecvACKTotal :: i32
  p_pktSentNAKTotal :: i32
  p_pktRecvNAKTotal :: i32
  p_usSndDurationTotal :: i64
  p_pktSndDropTotal :: i32
  p_pktRcvDropTotal :: i32
  p_pktRcvUndecryptTotal :: i32
  p_byteSentTotal :: u64
  p_byteRecvTotal :: u64
  p_byteRcvLossTotal :: u64
  p_byteRetransTotal :: u64
  p_byteSndDropTotal :: u64
  p_byteRcvDropTotal :: u64
  p_byteRcvUndecryptTotal :: u64
  p_pktSentUniqueTotal :: i64
  p_pktRecvUniqueTotal :: i64
  p_byteSentUniqueTotal :: u64
  p_byteRecvUniqueTotal :: u64
  p_pktSent :: i64
  p_pktRecv :: i64
  p_pktSndLoss :: i32
  p_pktRcvLoss :: i32
  p_pktRetrans :: i32
  p_pktRcvRetrans :: i32
  p_pktSentACK :: i32
  p_pktRecvACK :: i32
  p_pktSentNAK :: i32
  p_pktRecvNAK :: i32
  p_mbpsSendRate :: f64
  p_mbpsRecvRate :: f64
  p_usSndDuration :: i64
  p_pktReorderDistance :: i32
  p_pktRcvAvgBelatedTime :: f64
  p_pktRcvBelated :: i64
  p_pktSndDrop :: i32
  p_pktRcvDrop :: i32
  p_pktRcvUndecrypt :: i32
  p_byteSent :: u64
  p_byteRecv :: u64
  p_byteRcvLoss :: u64
  p_byteRetrans :: u64
  p_byteSndDrop :: u64
  p_byteRcvDrop :: u64
  p_byteRcvUndecrypt :: u64
  p_pktSentUnique :: i64
  p_pktRecvUnique :: i64
  p_byteSentUnique :: u64
  p_byteRecvUnique :: u64
  p_usPktSndPeriod :: f64
  p_pktFlowWindow :: i32
  p_pktCongestionWindow :: i32
  p_pktFlightSize :: i32
  p_msRTT :: f64
  p_mbpsBandwidth :: f64
  p_byteAvailSndBuf :: i32
  p_byteAvailRcvBuf :: i32
  p_mbpsMaxBW :: f64
  p_byteMSS :: i32
  p_pktSndBuf :: i32
  p_byteSndBuf :: i32
  p_msSndBuf :: i32
  p_msSndTsbPdDelay :: i32
  p_pktRcvBuf :: i32
  p_byteRcvBuf :: i32
  p_msRcvBuf :: i32
  p_msRcvTsbPdDelay :: i32
  p_pktSndFilterExtraTotal :: i32
  p_pktRcvFilterExtraTotal :: i32
  p_pktRcvFilterSupplyTotal :: i32
  p_pktRcvFilterLossTotal :: i32
  p_pktSndFilterExtra :: i32
  p_pktRcvFilterExtra :: i32
  p_pktRcvFilterSupply :: i32
  p_pktRcvFilterLoss :: i32
  p_pktReorderTolerance :: i32

definition convert_perfmon_to_stats :: "perfmon \<Rightarrow> srt_stats" where
  "convert_perfmon_to_stats p =
     \<lparr> ms_timestamp = p_msTimeStamp p, pkt_sent_total = p_pktSentTotal p,
       pkt_recv_total = p_pktRecvTotal p, pkt_snd_loss_total = p_pktSndLossTotal p,
       pkt_rcv_loss_total = p_pktRcvLossTotal p, pkt_retrans_total = p_pktRetransTotal p,
       pkt_sent_ack_total = p_pktSentACKTotal p, pkt_recv_ack_total = p_pktRecvACKTotal p,
       pkt_sent_nak_total = p_pktSentNAKTotal p, pkt_recv_nak_total = p_pktRecvNAKTotal p,
       us_snd_duration_total = p_usSndDurationTotal p,
       pkt_snd_drop_total = p_pktSndDropTotal p, pkt_rcv_drop_total = p_pktRcvDropTotal p,
       pkt_rcv_undecrypt_total = p_pktRcvUndecryptTotal p, byte_sent_total = p_byteSentTotal p,
       byte_recv_total = p_byteRecvTotal p, byte_rcv_loss_total = p_byteRcvLossTotal p,
       byte_retrans_total = p_byteRetransTotal p, byte_snd_drop_total = p_byteSndDropTotal p,
       byte_rcv_drop_total = p_byteRcvDropTotal p,
       byte_rcv_undecrypt_total = p_byteRcvUndecryptTotal p,
       pkt_sent_unique_total = p_pktSentUniqueTotal p,
       pkt_recv_unique_total = p_pktRecvUniqueTotal p,
       byte_sent_unique_total = p_byteSentUniqueTotal p,
       byte_recv_unique_total = p_byteRecvUniqueTotal p, pkt_sent = p_pktSent p,
       pkt_recv = p_pktRecv p, pkt_snd_loss = p_pktSndLoss p, pkt_rcv_loss = p_pktRcvLoss p,
       pkt_retrans = p_pktRetrans p, pkt_rcv_retrans = p_pktRcvRetrans p,
       pkt_rcv_retrans_total = 0, pkt_sent_ack = p_pktSentACK p, pkt_recv_ack = p_pktRecvACK p,
       pkt_sent_nak = p_pktSentNAK p, pkt_recv_nak = p_pktRecvNAK p,
       mbps_send_rate = p_mbpsSendRate p, mbps_recv_rate = p_mbpsRecvRate p,
       us_snd_duration = p_usSndDuration p, pkt_reorder_distance = p_pktReorderDistance p,
       pkt_rcv_avg_belated_time = p_pktRcvAvgBelatedTime p,
       pkt_rcv_belated = p_pktRcvBelated p, pkt_snd_drop = p_pktSndDrop p,
       pkt_rcv_drop = p_pktRcvDrop p, pkt_rcv_undecrypt = p_pktRcvUndecrypt p,
       byte_sent = p_byteSent p, byte_recv = p_byteRecv p, byte_rcv_loss = p_byteRcvLoss p,
       byte_retrans = p_byteRetrans p, byte_snd_drop = p_byteSndDrop p,
       byte_rcv_drop = p_byteRcvDrop p, byte_rcv_undecrypt = p_byteRcvUndecrypt p,
       pkt_sent_unique = p_pktSentUnique p, pkt_recv_unique = p_pktRecvUnique p,
       byte_sent_unique = p_byteSentUnique p, byte_recv_unique = p_byteRecvUnique p,
       us_pkt_snd_period = p_usPktSndPeriod p, pkt_flow_window = p_pktFlowWindow p,
       pkt_congestion_window = p_pktCongestionWindow p, pkt_flight_size = p_pktFlightSize p,
       ms_rtt = p_msRTT p, mbps_bandwidth = p_mbpsBandwidth p,
       byte_avail_snd_buf = p_byteAvailSndBuf p, byte_avail_rcv_buf = p_byteAvailRcvBuf p,
       mbps_max_bw = p_mbpsMaxBW p, byte_mss = p_byteMSS p, pkt_snd_buf = p_pktSndBuf p,
       byte_snd_buf = p_byteSndBuf p, ms_snd_buf = p_msSndBuf p,
       ms_snd_tsbpd_delay = p_msSndTsbPdDelay p, pkt_rcv_buf = p_pktRcvBuf p,
       byte_rcv_buf = p_byteRcvBuf p, ms_rcv_buf = p_msRcvBuf p,
       ms_rcv_tsbpd_delay = p_msRcvTsbPdDelay p,
       pkt_snd_filter_extra_total = p_pktSndFilterExtraTotal p,
       pkt_rcv_filter_extra_total = p_pktRcvFilterExtraTotal p,
       pkt_rcv_filter_supply_total = p_pktRcvFilterSupplyTotal p,
       pkt_rcv_filter_loss_total = p_pktRcvFilterLossTotal p,
       pkt_snd_filter_extra = p_pktSndFilterExtra p,
       pkt_rcv_filter_extra = p_pktRcvFilterExtra p,
       pkt_rcv_filter_supply = p_pktRcvFilterSupply p,
       pkt_rcv_filter_loss = p_pktRcvFilterLoss p,
       pkt_reorder_tolerance = p_pktReorderTolerance p \<rparr>"

text \<open>
  The translation keeps every counter libsrt reports: two performance records with the
  same translation are equal, so no field is dropped, duplicated or overwritten; and the one
  field libsrt has no source for is zero.
\<close>

lemma convert_perfmon_faithful:
  "(convert_perfmon_to_stats p = convert_perfmon_to_stats q \<longleftrightarrow> p = q)
   \<and> pkt_rcv_retrans_total (convert_perfmon_to_stats p) = 0"
  by (cases p; cases q) (simp add: convert_perfmon_to_stats_def)

text \<open>The fields a reset must not touch: the totals since the start and the instant readings.\<close>

definition lasting_ints :: "srt_stats \<Rightarrow> int list" where
  "lasting_ints s =
     [ ms_timestamp s, pkt_sent_total s, pkt_recv_total s, pkt_snd_loss_total s,
       pkt_rcv_loss_total s, pkt_retrans_total s, pkt_sent_ack_total s, pkt_recv_ack_total s,
       pkt_sent_nak_total s, pkt_recv_nak_total s, us_snd_duration_total s,
       pkt_snd_drop_total s, pkt_rcv_drop_total s, pkt_rcv_undecrypt_total s,
       pkt_sent_unique_total s, pkt_recv_unique_total s, pkt_rcv_retrans_total s,
       pkt_flow_window s, pkt_congestion_window s, pkt_flight_size s, byte_avail_snd_buf s,
       byte_avail_rcv_buf s, byte_mss s, pkt_snd_buf s, byte_snd_buf s, ms_snd_buf s,
       ms_snd_tsbpd_delay s, pkt_rcv_buf s, byte_rcv_buf s, ms_rcv_buf s, ms_rcv_tsbpd_delay s,
       pkt_snd_filter_extra_total s, pkt_rcv_filter_extra_total s,
       pkt_rcv_filter_supply_total s, pkt_rcv_filter_loss_total s, pkt_reorder_tolerance s ]"

definition lasting_words :: "srt_stats \<Rightarrow> u64 list" where
  "lasting_words s =
     [ byte_sent_total s, byte_recv_total s, byte_rcv_loss_total s, byte_retrans_total s,
       byte_snd_drop_total s, byte_rcv_drop_total s, byte_rcv_undecrypt_total s,
       byte_sent_unique_total s, byte_recv_unique_total s, us_pkt_snd_period s, ms_rtt s,
       mbps_bandwidth s, mbps_max_bw s ]"

lemma reset_local_idem: "reset_local (reset_local s) = reset_local s"
  by (simp add: reset_local_def)

lemma reset_local_default: "reset_local default_stats = default_stats"
  by (simp add: reset_local_def default_stats_def)

text \<open>
  A reset clears the interval counters and nothing else: the totals and the instant
  readings keep their values, and two snapshots are equal after a reset exactly when they agreed
  on those.
\<close>

lemma reset_local_exact:
  "lasting_ints (reset_local s) = lasting_ints s
   \<and> lasting_words (reset_local s) = lasting_words s
   \<and> (reset_local s = reset_local t \<longleftrightarrow>
        lasting_ints s = lasting_ints t \<and> lasting_words s = lasting_words t)"
proof -
  have "lasting_ints (reset_local s) = lasting_ints s" for s
    by (simp add: lasting_ints_def reset_local_def)
  moreover have "lasting_words (reset_local s) = lasting_words s" for s
    by (simp add: lasting_words_def reset_local_def)
  moreover have "reset_local s = reset_local t"
    if "lasting_ints s = lasting_ints t" "lasting_words s = lasting_words t"
    using that by (cases s; cases t) (simp add: lasting_ints_def lasting_words_def reset_local_def)
  ultimately show ?thesis by metis
qed

section \<open>Received packets\<close>

record received_packet =
  data :: "u8 list"
  sender_timestamp_us :: "i64 option"

definition packet_from_bytes :: "u8 list \<Rightarrow> received_packet" where
  "packet_from_bytes d = \<lparr> data = d, sender_timestamp_us = None \<rparr>"

definition with_srctime :: "u8 list \<Rightarrow> i64 \<Rightarrow> received_packet" where
  "with_srctime d srctime_us =
     (let ts = (if srctime_us = 0 then None else Some srctime_us) in
      \<lparr> data = d, sender_timestamp_us = ts \<rparr>)"

definition into_bytes :: "received_packet \<Rightarrow> u8 list" where
  "into_bytes p = data p"

text \<open>The conversions \<^verbatim>\<open>From<Bytes>\<close> and \<^verbatim>\<open>AsRef<[u8]>\<close>.\<close>

definition packet_from :: "u8 list \<Rightarrow> received_packet" where
  "packet_from d = packet_from_bytes d"

definition packet_as_ref :: "received_packet \<Rightarrow> u8 list" where
  "packet_as_ref p = data p"

lemma packet_conversions: "packet_as_ref (packet_from d) = d" "into_bytes (packet_from d) = d" "packet_from d = with_srctime d 0"
  by (simp_all add: packet_as_ref_def packet_from_def packet_from_bytes_def into_bytes_def with_srctime_def)

lemma with_srctime_simps [simp]:
  "data (with_srctime d t) = d"
  "sender_timestamp_us (with_srctime d t) = (if t = 0 then None else Some t)"
  "into_bytes (with_srctime d t) = d"
  "with_srctime d 0 = packet_from_bytes d"
  by (simp_all add: with_srctime_def packet_from_bytes_def into_bytes_def)

end
