(* ===== verification/Group_Endpoint.thy ===== *)
theory Group_Endpoint
  imports Config Addr Stats
begin

text \<open>
  The data of \<^verbatim>\<open>srt-transport/src/group.rs\<close>: a member endpoint with its validity check, the
  group modes and the per-member snapshot. A rejected endpoint is \<open>Inl Err_InvalidParam\<close>.
\<close>

definition MAX_GROUP_MEMBER_WEIGHT :: u16 where
  "MAX_GROUP_MEMBER_WEIGHT = 32767"

record group_endpoint =
  ep_addr :: socket_addr
  ep_local_addr :: "socket_addr option"
  ep_weight :: u16
  ep_token :: i32

definition endpoint_new :: "socket_addr \<Rightarrow> i32 \<Rightarrow> group_endpoint" where
  "endpoint_new a t = \<lparr> ep_addr = a, ep_local_addr = None, ep_weight = 0, ep_token = t \<rparr>"

definition endpoint_check :: "group_endpoint \<Rightarrow> srt_error + unit" where
  "endpoint_check ep =
     (if (case ep_local_addr ep of
            None \<Rightarrow> False
          | Some local \<Rightarrow> is_ipv4 local \<noteq> is_ipv4 (ep_addr ep))
      then Inl Err_InvalidParam
      else if ep_weight ep > MAX_GROUP_MEMBER_WEIGHT \<or> ep_token ep < 0
      then Inl Err_InvalidParam
      else Inr ())"

record group_member_stats =
  gm_id :: i32
  gm_peer_addr :: "socket_addr option"
  gm_socket_status :: socket_status
  gm_member_status :: member_status
  gm_weight :: u16
  gm_token :: i32
  gm_stats :: srt_stats

datatype group_mode = Broadcast | Backup

datatype group_type = SRT_GTYPE_BROADCAST | SRT_GTYPE_BACKUP

primrec to_srt_type :: "group_mode \<Rightarrow> group_type" where
  "to_srt_type Broadcast = SRT_GTYPE_BROADCAST"
| "to_srt_type Backup = SRT_GTYPE_BACKUP"

section \<open>The builder's endpoint list\<close>

definition add_endpoint :: "group_endpoint list \<Rightarrow> socket_addr \<Rightarrow> group_endpoint list" where
  "add_endpoint eps a = eps @ [endpoint_new a (as_i32 (int (length eps)))]"

definition add_member_endpoint :: "group_endpoint list \<Rightarrow> group_endpoint \<Rightarrow> group_endpoint list" where
  "add_member_endpoint eps ep = eps @ [ep]"

lemma endpoint_check_ok:
  "endpoint_check ep = Inr () \<longleftrightarrow>
     (\<forall>l. ep_local_addr ep = Some l \<longrightarrow> is_ipv4 l = is_ipv4 (ep_addr ep))
     \<and> ep_weight ep \<le> MAX_GROUP_MEMBER_WEIGHT \<and> 0 \<le> ep_token ep"
  by (auto simp: endpoint_check_def not_less split: option.splits)

lemma foldl_add_endpoint:
  "int (length as) \<le> 2 ^ 31 \<Longrightarrow>
   foldl add_endpoint [] as = map (\<lambda>(i, a). endpoint_new a (int i)) (enumerate 0 as)"
proof (induction as rule: rev_induct)
  case (snoc a as)
  then have "is_i32 (int (length as))" by (simp add: is_i32_def)
  with snoc show ?case
    by (simp add: add_endpoint_def enumerate_append_eq)
qed simp

text \<open>
  A builder filled with \<^verbatim>\<open>add_endpoint\<close> alone holds one unbound, weight-0 member per
  address in order; each carries its own token, its index, and passes the endpoint check, so no
  two members of such a group can be confused and libsrt never replaces a token.
\<close>

lemma add_endpoint_tokens:
  assumes "int (length as) \<le> 2 ^ 31"
  shows "let eps = foldl add_endpoint [] as in
     map ep_addr eps = as \<and> map ep_token eps = map int [0..<length as] \<and> distinct (map ep_token eps)
     \<and> list_all (\<lambda>ep. endpoint_check ep = Inr ()) eps"
proof -
  have tok: "map (ep_token \<circ> (\<lambda>(i, a). endpoint_new a (int i))) (enumerate 0 as) = map int [0..<length as]"
    by (simp add: comp_def case_prod_beta endpoint_new_def flip: map_map [unfolded comp_def, of int fst])
  have "map (ep_addr \<circ> (\<lambda>(i, a). endpoint_new a (int i))) (enumerate 0 as) = as"
    by (simp add: comp_def case_prod_beta endpoint_new_def map_snd_enumerate)
  moreover have "distinct (map int [0..<length as])"
    by (simp add: distinct_map)
  moreover have "list_all (\<lambda>ep. endpoint_check ep = Inr ())
      (map (\<lambda>(i, a). endpoint_new a (int i)) (enumerate 0 as))"
    by (auto simp: list_all_iff endpoint_check_ok endpoint_new_def)
  ultimately show ?thesis
    using tok by (simp add: foldl_add_endpoint [OF assms] Let_def)
qed

end
