(* ===== verification/Watch.thy ===== *)
theory Watch
  imports Group_Endpoint
begin

text \<open>
  The decision core of the stranded-member repair in \<^verbatim>\<open>srt-transport/src/epoll_bridge.rs\<close>: how a
  watched group member is classified from one look at libsrt, what the passage of time makes of
  it, and how a member that must be replaced is replaced. All of it is pure in the source; the
  calls around it are in the theory \<open>Members\<close>. An \<^verbatim>\<open>Instant\<close> is a number of nanoseconds.
\<close>

type_synonym socket_id = i32
type_synonym instant = nat

section \<open>libsrt's states\<close>

text \<open>The named values of libsrt's two C enumerations, and any other value.\<close>

datatype raw_sockstatus =
  SRTS_INIT | SRTS_OPENED | SRTS_LISTENING | SRTS_CONNECTING | SRTS_CONNECTED | SRTS_BROKEN
| SRTS_CLOSING | SRTS_CLOSED | SRTS_NONEXIST | SRTS_OTHER int

datatype raw_memberstatus =
  SRT_GST_PENDING | SRT_GST_IDLE | SRT_GST_RUNNING | SRT_GST_BROKEN | SRT_GST_OTHER int

definition raw_state_to_status :: "raw_sockstatus \<Rightarrow> socket_status" where
  "raw_state_to_status raw =
     (case raw of
        SRTS_INIT \<Rightarrow> S_Init
      | SRTS_OPENED \<Rightarrow> S_Opened
      | SRTS_LISTENING \<Rightarrow> S_Listening
      | SRTS_CONNECTING \<Rightarrow> S_Connecting
      | SRTS_CONNECTED \<Rightarrow> S_Connected
      | SRTS_BROKEN \<Rightarrow> S_Broken
      | SRTS_CLOSING \<Rightarrow> S_Closing
      | SRTS_CLOSED \<Rightarrow> S_Closed
      | SRTS_NONEXIST \<Rightarrow> S_NonExist
      | SRTS_OTHER _ \<Rightarrow> S_NonExist)"

definition map_member_status :: "raw_memberstatus \<Rightarrow> member_status" where
  "map_member_status raw =
     (case raw of
        SRT_GST_PENDING \<Rightarrow> M_Pending
      | SRT_GST_IDLE \<Rightarrow> M_Idle
      | SRT_GST_RUNNING \<Rightarrow> M_Running
      | SRT_GST_BROKEN \<Rightarrow> M_Broken
      | SRT_GST_OTHER _ \<Rightarrow> M_Broken)"

definition is_terminal_status :: "socket_status \<Rightarrow> bool" where
  "is_terminal_status s \<longleftrightarrow> s \<in> {S_Broken, S_Closing, S_Closed, S_NonExist}"

lemma raw_connected [simp]: "raw_state_to_status r = S_Connected \<longleftrightarrow> r = SRTS_CONNECTED"
  by (cases r) (simp_all add: raw_state_to_status_def)

lemma terminal_simps [simp]:
  "is_terminal_status S_Broken" "is_terminal_status S_Closing" "is_terminal_status S_Closed"
  "is_terminal_status S_NonExist" "\<not> is_terminal_status S_Init" "\<not> is_terminal_status S_Opened"
  "\<not> is_terminal_status S_Listening" "\<not> is_terminal_status S_Connecting"
  "\<not> is_terminal_status S_Connected"
  by (simp_all add: is_terminal_status_def)

section \<open>Time constants\<close>

definition GROUP_RECV_SWEEP :: duration where "GROUP_RECV_SWEEP = from_millis 100"
definition STRANDED_CHECK :: duration where "STRANDED_CHECK = from_millis 100"
definition STRANDED_MEMBER_GRACE :: duration where "STRANDED_MEMBER_GRACE = from_millis 500"
definition MAX_STRANDED_REPAIRS :: nat where "MAX_STRANDED_REPAIRS = 3"
definition HANDSHAKE_TTL_SLACK :: duration where "HANDSHAKE_TTL_SLACK = from_secs 1"
definition DEFAULT_CONNECT_TIMEOUT :: duration where "DEFAULT_CONNECT_TIMEOUT = from_secs 3"
definition MASKED_MEMBER_RECHECK :: duration where "MASKED_MEMBER_RECHECK = from_secs 1"
definition SUPERSEDED_LINGER_SLACK :: duration where "SUPERSEDED_LINGER_SLACK = from_secs 1"

section \<open>A watched member\<close>

record watched_member =
  wm_id :: socket_id
  wm_endpoint :: group_endpoint
  wm_live :: socket_status
  wm_not_before :: instant
  wm_resolve_by :: instant
  wm_stranded_since :: "instant option"
  wm_repairs :: nat
  wm_supersedes :: "socket_id list"
  wm_close_superseded_at :: "instant option"
  wm_forced :: bool
  wm_waiting :: bool

definition watched_new :: "socket_id \<Rightarrow> group_endpoint \<Rightarrow> instant \<Rightarrow> instant \<Rightarrow> watched_member" where
  "watched_new i ep resolve now =
     \<lparr> wm_id = i, wm_endpoint = ep, wm_live = S_Init, wm_not_before = now, wm_resolve_by = resolve,
       wm_stranded_since = None, wm_repairs = 0, wm_supersedes = [], wm_close_superseded_at = None,
       wm_forced = False, wm_waiting = False \<rparr>"

definition in_flight :: "member_status \<Rightarrow> socket_status \<Rightarrow> bool" where
  "in_flight m live \<longleftrightarrow> m \<in> {M_Pending, M_Idle, M_Running} \<and> \<not> is_terminal_status live"

section \<open>Classification\<close>

datatype verdict = V_Gone | V_BrokenLive | V_Stranded | V_Confirmed | V_Masked | V_Handshaking

definition classify_watched ::
  "socket_status \<Rightarrow> (member_status \<times> socket_status) option \<Rightarrow> bool \<Rightarrow> bool \<Rightarrow> verdict" where
  "classify_watched live row forced backup =
     (case row of
        None \<Rightarrow> V_Gone
      | Some (m, listed) \<Rightarrow>
          if m = M_Broken then (if live = S_Connected then V_BrokenLive else V_Gone)
          else if live = S_Connected \<and> (forced \<or> m = M_Pending \<or> listed = S_Connecting) then V_Stranded
          else if listed = S_Connected \<and> m = M_Idle then V_Confirmed
          else if listed = S_Connected \<and> m = M_Running \<and> backup then V_Masked
          else if listed = S_Connected \<and> m = M_Running then V_Confirmed
          else V_Handshaking)"

definition at_peer :: "member_status \<Rightarrow> socket_status \<Rightarrow> bool" where
  "at_peer m live \<longleftrightarrow> m \<noteq> M_Broken \<and> live = S_Connected"

section \<open>Time\<close>

datatype step = Keep | Recheck instant | Drop | Abandon | Repair

definition next_step :: "watched_member \<Rightarrow> verdict \<Rightarrow> instant \<Rightarrow> step \<times> watched_member" where
  "next_step w v now =
     (case v of
        V_Gone \<Rightarrow> (Drop, w)
      | V_Confirmed \<Rightarrow>
          (let w = w\<lparr> wm_stranded_since := None \<rparr> in
           (if wm_supersedes w = [] then Drop else Keep, w))
      | V_Masked \<Rightarrow>
          (let w = w\<lparr> wm_stranded_since := None \<rparr> in
           (if wm_supersedes w = [] then Recheck (now + MASKED_MEMBER_RECHECK) else Keep, w))
      | V_Handshaking \<Rightarrow>
          (let w = w\<lparr> wm_stranded_since := None \<rparr> in
           (if now < wm_resolve_by w then Keep
            else if is_terminal_status (wm_live w) then Abandon
            else Repair, w))
      | _ \<Rightarrow>
          (let since = (case wm_stranded_since w of None \<Rightarrow> now | Some t \<Rightarrow> t);
               w = w\<lparr> wm_stranded_since := Some since \<rparr> in
           (if now - since \<ge> STRANDED_MEMBER_GRACE then Repair else Keep, w)))"

section \<open>Repair plans\<close>

datatype plan = CloseNow | JoinSibling socket_id | HandToSibling socket_id | CloseThenSpawn
  | SpawnThenClose | Wait

definition repair_plan :: "nat \<Rightarrow> (socket_id \<times> bool) option \<Rightarrow> bool \<Rightarrow> bool \<Rightarrow> plan" where
  "repair_plan repairs sibling others_at_peer others_resolving =
     (case sibling of
        Some (i, watched) \<Rightarrow>
          if \<not> watched then JoinSibling i
          else if others_at_peer then JoinSibling i
          else if others_resolving then Wait
          else HandToSibling i
      | None \<Rightarrow>
          if repairs \<ge> MAX_STRANDED_REPAIRS then CloseNow
          else if others_at_peer then CloseThenSpawn
          else if others_resolving then Wait
          else SpawnThenClose)"

definition weigh_others :: "bool \<Rightarrow> bool \<Rightarrow> bool \<Rightarrow> bool \<Rightarrow> bool \<times> bool" where
  "weigh_others broken up broken_live handshaking =
     (up \<or> (broken \<and> broken_live), handshaking \<or> (\<not> broken \<and> broken_live))"

definition other_member_handshaking :: "watched_member list \<Rightarrow> socket_id list \<Rightarrow> instant \<Rightarrow> bool" where
  "other_member_handshaking members exclude now \<longleftrightarrow>
     (\<exists>e \<in> set members. wm_id e \<notin> set exclude \<and> wm_live e \<noteq> S_Connected
        \<and> \<not> is_terminal_status (wm_live e) \<and> now < wm_resolve_by e)"

definition repair_chain :: "watched_member \<Rightarrow> socket_id list" where
  "repair_chain w = wm_supersedes w @ [wm_id w]"

definition stranded_reason :: "verdict \<Rightarrow> bool \<Rightarrow> rstr" where
  "stranded_reason v forced =
     (case v of
        V_BrokenLive \<Rightarrow> lit ''is listed broken by libsrt on a connected socket''
      | V_Handshaking \<Rightarrow> lit ''is still connecting after its connect timeout''
      | _ \<Rightarrow> if forced then lit ''was marked stranded by the test hook''
             else lit ''finished its handshake but libsrt left it pending'')"

section \<open>What the decisions guarantee\<close>

text \<open>
  Claim C21. The verdict on a watched member, case by case. A member is judged stranded only on
  a connected socket, and then exactly when libsrt lists it pending or still connecting (or the
  test hook marked it); a member libsrt lists Idle or Running on a connected socket is never
  judged for replacement unless the test hook marked it; and a listed-Broken member is acted on
  only while its socket is still connected.
\<close>

theorem classify_watched_exact:
  "(classify_watched live row forced backup = V_Stranded \<longleftrightarrow> live = S_Connected \<and>
      (\<exists>m l. row = Some (m, l) \<and> m \<noteq> M_Broken \<and> (forced \<or> m = M_Pending \<or> l = S_Connecting)))
   \<and> (classify_watched live row forced backup = V_BrokenLive \<longleftrightarrow>
        live = S_Connected \<and> (\<exists>l. row = Some (M_Broken, l)))
   \<and> (classify_watched live row forced backup = V_Gone \<longleftrightarrow>
        row = None \<or> live \<noteq> S_Connected \<and> (\<exists>l. row = Some (M_Broken, l)))
   \<and> (classify_watched live row forced backup \<in> {V_Confirmed, V_Masked} \<longleftrightarrow>
        (row = Some (M_Idle, S_Connected) \<or> row = Some (M_Running, S_Connected))
        \<and> \<not> (forced \<and> live = S_Connected))
   \<and> (classify_watched live row forced backup = V_Masked \<longrightarrow> backup \<and> row = Some (M_Running, S_Connected))"
proof (cases row)
  case (Some r)
  then show ?thesis
    by (cases r; cases "fst r"; cases "snd r = S_Connected")
       (auto simp: classify_watched_def split: if_splits)
qed (simp add: classify_watched_def)

theorem classify_watched_exact_witness:
  "classify_watched S_Connected (Some (M_Running, S_Connected)) False True = V_Masked
   \<and> classify_watched S_Connected (Some (M_Running, S_Connecting)) False True = V_Stranded"
  using classify_watched_exact [of S_Connected "Some (M_Running, S_Connecting)" False True]
  by (simp add: classify_watched_def)

text \<open>A sequence of looks at one member, as verdicts with their times.\<close>

definition look :: "watched_member \<Rightarrow> verdict \<times> instant \<Rightarrow> watched_member" where
  "look w vt = snd (next_step w (fst vt) (snd vt))"

definition stranded_look :: "verdict \<times> instant \<Rightarrow> bool" where
  "stranded_look vt \<longleftrightarrow> fst vt \<in> {V_Stranded, V_BrokenLive}"

lemma next_step_frame [simp]:
  "wm_id (snd (next_step w v now)) = wm_id w"
  "wm_endpoint (snd (next_step w v now)) = wm_endpoint w"
  "wm_live (snd (next_step w v now)) = wm_live w"
  "wm_supersedes (snd (next_step w v now)) = wm_supersedes w"
  "wm_repairs (snd (next_step w v now)) = wm_repairs w"
  "wm_resolve_by (snd (next_step w v now)) = wm_resolve_by w"
  "wm_forced (snd (next_step w v now)) = wm_forced w"
  "wm_not_before (snd (next_step w v now)) = wm_not_before w"
  by (simp_all add: next_step_def Let_def split: verdict.split)

lemma next_step_stranded:
  "stranded_look (v, now) \<Longrightarrow> next_step w v now =
     (let since = (case wm_stranded_since w of None \<Rightarrow> now | Some t \<Rightarrow> t) in
      (if now - since \<ge> STRANDED_MEMBER_GRACE then Repair else Keep,
       w\<lparr> wm_stranded_since := Some since \<rparr>))"
  by (auto simp: stranded_look_def next_step_def Let_def)

lemma look_other:
  "\<not> stranded_look vt \<Longrightarrow> fst vt \<noteq> V_Gone \<Longrightarrow> wm_stranded_since (look w vt) = None"
  by (cases "fst vt") (simp_all add: stranded_look_def look_def next_step_def Let_def)

lemma look_stranded:
  "stranded_look vt \<Longrightarrow> wm_stranded_since (look w vt) =
     Some (case wm_stranded_since w of None \<Rightarrow> snd vt | Some t \<Rightarrow> t)"
  by (cases vt) (auto simp: look_def next_step_stranded Let_def split: option.split)

lemma stranded_since_looks:
  assumes "wm_stranded_since w = None" and "V_Gone \<notin> fst ` set looks"
  shows "wm_stranded_since (foldl look w looks) =
    (case takeWhile stranded_look (rev looks) of [] \<Rightarrow> None | r # rs \<Rightarrow> Some (snd (last (r # rs))))"
  using assms(2)
proof (induction looks rule: rev_induct)
  case Nil
  with assms(1) show ?case by simp
next
  case (snoc vt looks)
  then have IH: "wm_stranded_since (foldl look w looks) =
    (case takeWhile stranded_look (rev looks) of [] \<Rightarrow> None | r # rs \<Rightarrow> Some (snd (last (r # rs))))"
    and gone: "fst vt \<noteq> V_Gone" by auto
  show ?case
  proof (cases "stranded_look vt")
    case True
    then show ?thesis
      using IH by (auto simp: look_stranded split: list.splits)
  next
    case False
    then show ?thesis using gone by (simp add: look_other)
  qed
qed

text \<open>
  Claim C17. A member found stranded is replaced only once it has read stranded without
  interruption for the grace period: after any sequence of looks that left it watched, one more
  stranded look at \<open>now\<close> decides on a repair exactly when the current run of stranded looks
  began at least the grace period before \<open>now\<close>, and otherwise keeps watching.
\<close>

theorem repair_needs_uninterrupted_grace:
  assumes "wm_stranded_since w = None" and "V_Gone \<notin> fst ` set looks"
    and "v \<in> {V_Stranded, V_BrokenLive}"
  shows "fst (next_step (foldl look w looks) v now) =
    (if now - snd (last (takeWhile stranded_look ((v, now) # rev looks))) \<ge> STRANDED_MEMBER_GRACE
     then Repair else Keep)"
proof -
  have "stranded_look (v, now)" using assms(3) by (simp add: stranded_look_def)
  then show ?thesis
    using stranded_since_looks [OF assms(1,2)]
    by (auto simp: next_step_stranded Let_def split: list.splits)
qed

definition sample_member :: watched_member where
  "sample_member = watched_new 7 (endpoint_new (V4 [127, 0, 0, 1] 9000) 1) (from_secs 4) 0"

theorem repair_needs_uninterrupted_grace_witness:
  "fst (next_step (foldl look sample_member
       [(V_Stranded, 0), (V_Handshaking, from_millis 200), (V_Stranded, from_millis 300)])
     V_Stranded (from_millis 799)) = Keep
   \<and> fst (next_step (foldl look sample_member
       [(V_Stranded, 0), (V_Handshaking, from_millis 200), (V_Stranded, from_millis 300)])
     V_Stranded (from_millis 800)) = Repair"
proof -
  let ?looks = "[(V_Stranded, 0), (V_Handshaking, from_millis 200), (V_Stranded, from_millis 300)]"
  have h: "wm_stranded_since sample_member = None" "V_Gone \<notin> fst ` set ?looks"
    "V_Stranded \<in> {V_Stranded, V_BrokenLive}"
    by (simp_all add: sample_member_def watched_new_def)
  show ?thesis
    using repair_needs_uninterrupted_grace [OF h, of "from_millis 799"]
      repair_needs_uninterrupted_grace [OF h, of "from_millis 800"]
    by (simp add: stranded_look_def from_millis_def STRANDED_MEMBER_GRACE_def)
qed

text \<open>
  A handshake is waited on only until its connect deadline. Whatever was seen before,
  a look that still finds the member connecting keeps it before the deadline; at or after the
  deadline it is replaced if its socket is alive and closed for good if its socket is dead. No
  look moves the deadline.
\<close>

lemma handshake_deadline:
  "fst (next_step (foldl look w looks) V_Handshaking now) =
     (if now < wm_resolve_by w then Keep
      else if is_terminal_status (wm_live w) then Abandon else Repair)
   \<and> wm_resolve_by (foldl look w looks) = wm_resolve_by w"
proof -
  have "wm_resolve_by (foldl look w looks) = wm_resolve_by w"
    and "wm_live (foldl look w looks) = wm_live w"
    by (induction looks rule: rev_induct) (simp_all add: look_def)
  then show ?thesis by (simp add: next_step_def Let_def)
qed

lemma up_member_step:
  "fst (next_step w V_Confirmed now) = (if wm_supersedes w = [] then Drop else Keep)"
  "fst (next_step w V_Masked now) =
     (if wm_supersedes w = [] then Recheck (now + MASKED_MEMBER_RECHECK) else Keep)"
  "fst (next_step w V_Gone now) = Drop"
  by (simp_all add: next_step_def Let_def)

text \<open>Shorthand: the plan for a member judged with the flags of \<open>weigh_others\<close>.\<close>

definition weighed_plan :: "nat \<Rightarrow> (socket_id \<times> bool) option \<Rightarrow> bool \<Rightarrow> bool \<Rightarrow> bool \<Rightarrow> bool \<Rightarrow> plan" where
  "weighed_plan repairs sibling broken up broken_live handshaking =
     (case weigh_others broken up broken_live handshaking of
        (others_at_peer, others_resolving) \<Rightarrow> repair_plan repairs sibling others_at_peer others_resolving)"

text \<open>
  Claim C8. The peer must never be left without a member, nor see an overlap beside another
  member. The plan closes the stranded member before its replacement is up only when another
  member is up at the peer (for a member itself listed broken, another one listed broken on a
  live socket counts), or when a sibling that is not itself watched already carries the endpoint,
  or, the repair limit reached, it leaves the endpoint to the application. It overlaps the two
  only when nothing else is up at the peer, listed broken on a live socket, or connecting; a new
  member is spawned only below the repair limit and when no sibling carries the endpoint; and it
  waits only while nothing is up and another member's fate is still open.
\<close>

theorem repair_plan_safe:
  "(weighed_plan r sib broken up bl hs = CloseThenSpawn \<longrightarrow>
      sib = None \<and> r < MAX_STRANDED_REPAIRS \<and> (up \<or> broken \<and> bl))
   \<and> (weighed_plan r sib broken up bl hs = JoinSibling i \<longrightarrow>
      sib = Some (i, False) \<or> sib = Some (i, True) \<and> (up \<or> broken \<and> bl))
   \<and> (weighed_plan r sib broken up bl hs = CloseNow \<longleftrightarrow> sib = None \<and> MAX_STRANDED_REPAIRS \<le> r)
   \<and> (weighed_plan r sib broken up bl hs = SpawnThenClose \<longrightarrow>
      sib = None \<and> r < MAX_STRANDED_REPAIRS \<and> \<not> up \<and> \<not> bl \<and> \<not> hs)
   \<and> (weighed_plan r sib broken up bl hs = HandToSibling i \<longrightarrow>
      sib = Some (i, True) \<and> \<not> up \<and> \<not> bl \<and> \<not> hs)
   \<and> (weighed_plan r sib broken up bl hs = Wait \<longrightarrow> \<not> up \<and> (hs \<or> bl \<and> \<not> broken))"
  by (auto simp: weighed_plan_def weigh_others_def repair_plan_def split: option.splits if_splits)

theorem repair_plan_safe_witness:
  "weighed_plan 0 None False True False False = CloseThenSpawn
   \<and> weighed_plan 0 None False False False False = SpawnThenClose
   \<and> weighed_plan 0 None True False True False = CloseThenSpawn
   \<and> weighed_plan 0 None False False True False = Wait
   \<and> weighed_plan 3 None False True False False = CloseNow"
  using repair_plan_safe [of 3 None False True False False]
  by (simp add: weighed_plan_def weigh_others_def repair_plan_def MAX_STRANDED_REPAIRS_def)

end
