(* ===== verification/Access_Control.thy ===== *)
theory Access_Control
  imports Config Addr
begin

text \<open>
  \<^verbatim>\<open>srt-protocol/src/access_control.rs\<close>: what an access-control policy sees and answers, and the
  structured Stream ID with its parser and printer. A policy is a function of the handshake; the
  operator's code behind it may panic, which is the outcome \<open>Panic\<close>.
\<close>

section \<open>Policies\<close>

record handshake_info =
  hs_peer_addr :: socket_addr
  hs_stream_id :: rstr
  hs_is_encrypted :: bool
  hs_peer_socket_id :: u32
  hs_peer_version :: i32

type_synonym access_control = "handshake_info \<Rightarrow> (reject_reason + unit) rust"

definition AcceptAll :: access_control where
  "AcceptAll info = Done (Inr ())"

definition AccessControlFn :: "(handshake_info \<Rightarrow> (reject_reason + unit) rust) \<Rightarrow> access_control" where
  "AccessControlFn f info = f info"

definition SRT_MAX_STREAM_ID_LEN :: nat where
  "SRT_MAX_STREAM_ID_LEN = 512"

section \<open>Structured Stream IDs\<close>

record stream_id_info =
  resource :: "rstr option"
  stream_mode :: "rstr option"
  session_id :: "rstr option"
  content_type :: "rstr option"
  user_name :: "rstr option"
  host_name :: "rstr option"
  extra :: "(rstr \<times> rstr) list"
  raw :: rstr

definition default_stream_id_info :: stream_id_info where
  "default_stream_id_info = \<lparr> resource = None, stream_mode = None, session_id = None, content_type = None,
     user_name = None, host_name = None, extra = [], raw = [] \<rparr>"

definition store_pair :: "rstr \<times> rstr \<Rightarrow> stream_id_info \<Rightarrow> stream_id_info" where
  "store_pair kv info =
     (case kv of (key, v) \<Rightarrow>
      if key = lit ''r'' then info\<lparr> resource := Some v \<rparr>
      else if key = lit ''m'' then info\<lparr> stream_mode := Some v \<rparr>
      else if key = lit ''s'' then info\<lparr> session_id := Some v \<rparr>
      else if key = lit ''t'' then info\<lparr> content_type := Some v \<rparr>
      else if key = lit ''u'' then info\<lparr> user_name := Some v \<rparr>
      else if key = lit ''h'' then info\<lparr> host_name := Some v \<rparr>
      else info\<lparr> extra := extra info @ [(key, v)] \<rparr>)"

primrec parse_pairs :: "rstr list \<Rightarrow> stream_id_info \<Rightarrow> stream_id_info" where
  "parse_pairs [] info = info"
| "parse_pairs (p # ps) info =
     (let pair = trim p in
      if pair = [] then parse_pairs ps info
      else
        (case split_once 61 pair of
           None \<Rightarrow> parse_pairs ps info
         | Some kv \<Rightarrow> parse_pairs ps (store_pair kv info)))"

definition stream_id_parse :: "rstr \<Rightarrow> stream_id_info" where
  "stream_id_parse s =
     (let info = default_stream_id_info\<lparr> raw := s \<rparr> in
      if s = [] then info
      else
        (case strip_prefix (lit ''#!::'') s of
           Some params \<Rightarrow> parse_pairs (split_on 44 params) info
         | None \<Rightarrow> info\<lparr> resource := Some s \<rparr>))"

definition pair_str :: "rstr \<times> rstr \<Rightarrow> rstr" where
  "pair_str kv = fst kv @ 61 # snd kv"

definition opt_kv :: "string \<Rightarrow> rstr option \<Rightarrow> (rstr \<times> rstr) list" where
  "opt_kv key x = (case x of None \<Rightarrow> [] | Some v \<Rightarrow> [(lit key, v)])"

definition stream_id_kvs :: "stream_id_info \<Rightarrow> (rstr \<times> rstr) list" where
  "stream_id_kvs info = opt_kv ''r'' (resource info) @ opt_kv ''m'' (stream_mode info)
     @ opt_kv ''s'' (session_id info) @ opt_kv ''t'' (content_type info)
     @ opt_kv ''u'' (user_name info) @ opt_kv ''h'' (host_name info) @ extra info"

definition to_stream_id :: "stream_id_info \<Rightarrow> rstr" where
  "to_stream_id info =
     (let parts = map pair_str (stream_id_kvs info) in
      if parts = [] then [] else lit ''#!::'' @ join [44] parts)"

section \<open>Printing and parsing\<close>

text \<open>The pairs that survive printing: no separator where it would be read as one, and no
  white space at the ends of the pair.\<close>

definition kv_ok :: "rstr \<times> rstr \<Rightarrow> bool" where
  "kv_ok kv \<longleftrightarrow> 61 \<notin> set (fst kv) \<and> 44 \<notin> set (fst kv) \<and> 44 \<notin> set (snd kv)
     \<and> (fst kv \<noteq> [] \<longrightarrow> \<not> is_whitespace (hd (fst kv)))
     \<and> (snd kv \<noteq> [] \<longrightarrow> \<not> is_whitespace (last (snd kv)))"

definition short_keys :: "rstr set" where
  "short_keys = lit ` {''r'', ''m'', ''s'', ''t'', ''u'', ''h''}"

definition printable :: "stream_id_info \<Rightarrow> bool" where
  "printable info \<longleftrightarrow> list_all kv_ok (stream_id_kvs info)
     \<and> list_all (\<lambda>kv. fst kv \<notin> short_keys) (extra info)"

lemma pair_str_ok:
  assumes "kv_ok kv"
  shows "trimmed (pair_str kv)" "pair_str kv \<noteq> []" "split_once 61 (pair_str kv) = Some kv"
    "44 \<notin> set (pair_str kv)"
  using assms by (auto simp: kv_ok_def pair_str_def trimmed_def is_whitespace_def hd_append)

lemma parse_pairs_fold:
  "list_all kv_ok kvs \<Longrightarrow> parse_pairs (map pair_str kvs) info = fold store_pair kvs info"
  by (induction kvs arbitrary: info) (simp_all add: pair_str_ok)

lemma fold_opt_kv:
  "resource i = None \<Longrightarrow> fold store_pair (opt_kv ''r'' x) i = i\<lparr> resource := x \<rparr>"
  "stream_mode i = None \<Longrightarrow> fold store_pair (opt_kv ''m'' x) i = i\<lparr> stream_mode := x \<rparr>"
  "session_id i = None \<Longrightarrow> fold store_pair (opt_kv ''s'' x) i = i\<lparr> session_id := x \<rparr>"
  "content_type i = None \<Longrightarrow> fold store_pair (opt_kv ''t'' x) i = i\<lparr> content_type := x \<rparr>"
  "user_name i = None \<Longrightarrow> fold store_pair (opt_kv ''u'' x) i = i\<lparr> user_name := x \<rparr>"
  "host_name i = None \<Longrightarrow> fold store_pair (opt_kv ''h'' x) i = i\<lparr> host_name := x \<rparr>"
  by (cases x; simp add: opt_kv_def store_pair_def)+

lemma fold_extra:
  "list_all (\<lambda>kv. fst kv \<notin> short_keys) kvs \<Longrightarrow>
     fold store_pair kvs i = i\<lparr> extra := extra i @ kvs \<rparr>"
  by (induction kvs arbitrary: i) (auto simp: store_pair_def short_keys_def simp del: lit_Cons)

lemma fold_stream_id_kvs:
  assumes "list_all (\<lambda>kv. fst kv \<notin> short_keys) (extra info)"
  shows "fold store_pair (stream_id_kvs info) (default_stream_id_info\<lparr> raw := s \<rparr>) = info\<lparr> raw := s \<rparr>"
  using assms by (simp add: stream_id_kvs_def fold_opt_kv fold_extra default_stream_id_info_def)

lemma stream_id_parse_structured:
  "stream_id_parse (lit ''#!::'' @ s)
     = parse_pairs (split_on 44 s) (default_stream_id_info\<lparr> raw := lit ''#!::'' @ s \<rparr>)"
  unfolding stream_id_parse_def Let_def strip_prefix_append by simp

lemma stream_id_roundtrip:
  assumes "printable info"
  shows "stream_id_parse (to_stream_id info) = info\<lparr> raw := to_stream_id info \<rparr>"
proof (cases "stream_id_kvs info = []")
  case True
  with assms fold_stream_id_kvs [of info "[]"] show ?thesis
    by (simp add: printable_def to_stream_id_def stream_id_parse_def)
next
  case False
  have ok: "list_all kv_ok (stream_id_kvs info)" using assms by (simp add: printable_def)
  then have "\<forall>p \<in> set (map pair_str (stream_id_kvs info)). 44 \<notin> set p"
    by (auto simp: list_all_iff pair_str_ok)
  with False have "split_on 44 (join [44] (map pair_str (stream_id_kvs info)))
      = map pair_str (stream_id_kvs info)"
    by (intro split_on_join) simp_all
  with False ok assms show ?thesis
    by (simp add: stream_id_parse_structured to_stream_id_def parse_pairs_fold fold_stream_id_kvs
        printable_def Let_def del: lit_Cons)
qed

text \<open>Every structured Stream ID is parsed to a printable record.\<close>

lemma split_once_kv_ok: "trimmed p \<Longrightarrow> 44 \<notin> set p \<Longrightarrow> split_once 61 p = Some kv \<Longrightarrow> kv_ok kv"
  using split_once_SomeD [of 61 p "fst kv" "snd kv"]
  by (auto simp: kv_ok_def trimmed_def hd_append)

lemma opt_kv_list_all [simp]: "list_all P (opt_kv k x) \<longleftrightarrow> (\<forall>v. x = Some v \<longrightarrow> P (lit k, v))"
  by (cases x) (simp_all add: opt_kv_def)

lemma store_pair_printable: "printable info \<Longrightarrow> kv_ok kv \<Longrightarrow> printable (store_pair kv info)"
  by (cases kv) (auto simp: printable_def stream_id_kvs_def store_pair_def short_keys_def simp del: lit_Cons)

lemma parse_pairs_printable:
  "\<forall>p \<in> set ps. 44 \<notin> set p \<Longrightarrow> printable info \<Longrightarrow> printable (parse_pairs ps info)"
proof (induction ps arbitrary: info)
  case (Cons p ps)
  have sep: "44 \<notin> set (trim p)" using Cons.prems(1) set_trim by auto
  have rest: "\<forall>p \<in> set ps. 44 \<notin> set p" using Cons.prems(1) by simp
  show ?case
  proof (cases "split_once 61 (trim p)")
    case None
    with Cons.IH [OF rest Cons.prems(2)] show ?thesis by (simp add: Let_def del: split_once_none)
  next
    case (Some kv)
    then have "printable (store_pair kv info)"
      by (rule store_pair_printable [OF Cons.prems(2) split_once_kv_ok [OF trimmed_trim sep]])
    from Cons.IH [OF rest this] Cons.IH [OF rest Cons.prems(2)] Some show ?thesis
      by (simp add: Let_def)
  qed
qed simp

lemma default_printable: "printable (default_stream_id_info\<lparr> raw := s \<rparr>)"
  by (simp add: printable_def stream_id_kvs_def default_stream_id_info_def opt_kv_def)

lemma structured_printable: "printable (stream_id_parse (lit ''#!::'' @ s))"
  unfolding stream_id_parse_structured
  by (intro parse_pairs_printable default_printable) (auto dest: split_on_no_sep)

text \<open>
  Claim C39. Parsing a structured Stream ID (one with the prefix \<^verbatim>\<open>#!::\<close>), printing the result and
  parsing it again gives the same record, the raw text apart: printing is a normal form. A
  record built by other means comes back from its printed form whenever it is printable.
\<close>

theorem stream_id_normal_form:
  "(let info = stream_id_parse (lit ''#!::'' @ s) in
     stream_id_parse (to_stream_id info) = info\<lparr> raw := to_stream_id info \<rparr>)
   \<and> (printable info' \<longrightarrow> stream_id_parse (to_stream_id info') = info'\<lparr> raw := to_stream_id info' \<rparr>)"
  using stream_id_roundtrip [OF structured_printable] stream_id_roundtrip [of info'] by (simp add: Let_def)

theorem stream_id_normal_form_witness:
  "let info = default_stream_id_info\<lparr> resource := Some (lit ''cam 1''), extra := [(lit ''k'', lit ''a=b'')] \<rparr> in
   printable info \<and> to_stream_id info = lit ''#!::r=cam 1,k=a=b''
   \<and> stream_id_parse (lit ''#!::r=cam 1,k=a=b'') = info\<lparr> raw := lit ''#!::r=cam 1,k=a=b'' \<rparr>"
proof -
  let ?info = "default_stream_id_info\<lparr> resource := Some (lit ''cam 1''), extra := [(lit ''k'', lit ''a=b'')] \<rparr>"
  have p: "printable ?info"
    by (simp add: printable_def stream_id_kvs_def default_stream_id_info_def opt_kv_def kv_ok_def
        is_whitespace_def short_keys_def)
  have t: "to_stream_id ?info = lit ''#!::r=cam 1,k=a=b''"
    by (simp add: to_stream_id_def stream_id_kvs_def default_stream_id_info_def opt_kv_def pair_str_def)
  show ?thesis
    unfolding Let_def using p t stream_id_normal_form [of "[]" ?info] by simp
qed

lemma plain_to_stream_id:
  assumes "strip_prefix (lit ''#!::'') s = None"
  shows "s \<noteq> [] \<Longrightarrow> stream_id_parse s = default_stream_id_info\<lparr> raw := s, resource := Some s \<rparr>"
    and "to_stream_id (default_stream_id_info\<lparr> raw := s, resource := Some s \<rparr>)
      = lit ''#!::'' @ pair_str (lit ''r'', s)"
  using assms by (simp_all add: stream_id_parse_def to_stream_id_def stream_id_kvs_def
      default_stream_id_info_def opt_kv_def Let_def del: lit_Cons)

text \<open>
  Claim C40. A plain Stream ID (no prefix) is taken whole as the resource, but its printed form
  is structured, so it gives the same resource back only if it has no comma and does not end in
  white space; every other plain Stream ID is changed by the round trip.
\<close>

theorem plain_stream_id_roundtrip_iff:
  assumes "s \<noteq> []" and "strip_prefix (lit ''#!::'') s = None"
  shows "resource (stream_id_parse s) = Some s
    \<and> (resource (stream_id_parse (to_stream_id (stream_id_parse s))) = Some s \<longleftrightarrow>
        44 \<notin> set s \<and> \<not> is_whitespace (last s))"
proof -
  let ?i = "default_stream_id_info\<lparr> raw := s, resource := Some s \<rparr>"
  have i: "stream_id_parse s = ?i" by (rule plain_to_stream_id(1) [OF assms(2,1)])
  have ws_r: "\<not> is_whitespace 114" by (simp add: is_whitespace_def)
  have key: "kv_ok (lit ''r'', s) \<longleftrightarrow> 44 \<notin> set s \<and> \<not> is_whitespace (last s)"
    using assms(1) ws_r by (simp add: kv_ok_def)
  have pr: "printable ?i \<longleftrightarrow> kv_ok (lit ''r'', s)"
    by (simp add: printable_def stream_id_kvs_def default_stream_id_info_def opt_kv_def)
  have "kv_ok (lit ''r'', s)" if "resource (stream_id_parse (to_stream_id ?i)) = Some s"
    using that structured_printable [of "pair_str (lit ''r'', s)"]
    by (simp add: plain_to_stream_id(2) [OF assms(2)] printable_def stream_id_kvs_def del: lit_Cons)
  moreover have "resource (stream_id_parse (to_stream_id ?i)) = Some s" if "kv_ok (lit ''r'', s)"
    using stream_id_roundtrip [of ?i] that pr by simp
  moreover have "resource ?i = Some s" by simp
  ultimately show ?thesis unfolding i using key by blast
qed

theorem plain_stream_id_roundtrip_iff_witness:
  "strip_prefix (lit ''#!::'') (lit ''a,b'') = None
   \<and> resource (stream_id_parse (to_stream_id (stream_id_parse (lit ''a,b'')))) \<noteq> Some (lit ''a,b'')"
proof -
  have h: "lit ''a,b'' \<noteq> []" "strip_prefix (lit ''#!::'') (lit ''a,b'') = None" by simp_all
  have "(44::rchar) \<in> set (lit ''a,b'')" by simp
  with plain_stream_id_roundtrip_iff [OF h] h(2) show ?thesis by blast
qed

end
