(* ===== verification/Bridge_State.thy ===== *)
theory Bridge_State
  imports Watch Access_Control
begin

text \<open>
  The state of the I/O thread of \<^verbatim>\<open>srt-transport/src/epoll_bridge.rs\<close> and its environment.

  Everything the thread calls that is not part of the repository, that is, the libsrt C API, the
  Tokio channels, the clock and the iteration order of a \<^verbatim>\<open>HashMap\<close>, is a parameter: the record
  \<open>env\<close> holds one answer function per call. An answer may depend on the whole history of calls,
  so the environment may keep any hidden state and may change between any two calls. The history
  is the list \<open>log\<close> of the bridge state, newest event first; it records each call with its answer,
  and also what the thread does to its channel ends (a reply sent, a sender dropped). A bridge
  operation is a computation in the state monad over \<open>bridge\<close>.

  A channel end, a oneshot reply and an access-control allocation are named by numbers. Loops
  whose length only the environment bounds run on the fuel \<open>e_fuel\<close>; running out is the
  event \<open>EvOutOfFuel\<close>.
\<close>

section \<open>Values crossing the C boundary\<close>

type_synonym chan = nat
type_synonym reply_id = nat
type_synonym slot = nat
type_synonym bytes = "u8 list"

datatype sockopt =
  SRTO_MSS | SRTO_SNDSYN | SRTO_RCVSYN | SRTO_FC | SRTO_SNDBUF | SRTO_RCVBUF | SRTO_RENDEZVOUS
| SRTO_MAXBW | SRTO_INPUTBW | SRTO_OHEADBW | SRTO_PASSPHRASE | SRTO_PBKEYLEN | SRTO_IPTTL
| SRTO_IPTOS | SRTO_TLPKTDROP | SRTO_SNDDROPDELAY | SRTO_CONNTIMEO | SRTO_LOSSMAXTTL
| SRTO_RCVLATENCY | SRTO_PEERLATENCY | SRTO_STREAMID | SRTO_PAYLOADSIZE | SRTO_TRANSTYPE
| SRTO_KMREFRESHRATE | SRTO_KMPREANNOUNCE | SRTO_ENFORCEDENCRYPTION | SRTO_PEERIDLETIMEO
| SRTO_GROUPCONNECT | SRTO_PACKETFILTER | SRTO_RETRANSMITALGO | SRTO_CRYPTOMODE
| SRTO_MAXREXMITBW | SRTO_RCVDATA

datatype optval = OptTransType trans_type | OptI32 i32 | OptI64 i64 | OptBool bool | OptStr bytes

record group_row =
  row_id :: socket_id
  row_peeraddr :: sockaddr
  row_sockstate :: raw_sockstatus
  row_memberstate :: raw_memberstatus
  row_weight :: u16
  row_token :: i32

record target =
  tg_id :: socket_id
  tg_peeraddr :: sockaddr
  tg_srcaddr :: sockaddr
  tg_weight :: u16
  tg_token :: i32
  tg_errorcode :: i32

record epoll_event =
  ev_fd :: socket_id
  ev_in :: bool
  ev_out :: bool
  ev_err :: bool
  ev_connect :: bool

record epoll_flags =
  fl_in :: bool
  fl_err :: bool
  fl_connect :: bool
  fl_et :: bool

datatype recv_result = RecvOk bytes | RecvEmpty | RecvDisconnected

section \<open>Commands and replies\<close>

datatype io_command =
  CreateSocket srt_config reply_id
| Bind socket_id socket_addr reply_id
| Listen socket_id i32 reply_id
| Connect socket_id socket_addr reply_id
| RegisterSocket socket_id chan chan chan
| RegisterListener socket_id chan "slot option"
| GetStats socket_id reply_id
| GetState socket_id reply_id
| GetPeerAddr socket_id reply_id
| GetLocalAddr socket_id reply_id
| GetStreamId socket_id reply_id
| Close socket_id
| CreateGroup group_type srt_config reply_id
| ConnectGroup socket_id "group_endpoint list" reply_id
| AddGroupMember socket_id group_endpoint reply_id
| TestStrandMember socket_id group_endpoint reply_id
| GetGroupMemberStats socket_id reply_id
| Shutdown

datatype reply =
  ReplyUnit "srt_error + unit"
| ReplySocket "srt_error + socket_id"
| ReplyStats "srt_error + srt_stats"
| ReplyStatus socket_status
| ReplyAddr "socket_addr option"
| ReplyStr rstr
| ReplyMembers "group_member_stats list"

datatype cmd_result = CmdOk io_command | CmdEmpty | CmdDisconnected

section \<open>Events\<close>

datatype event =
  EvNow instant
| EvLastError i32
| EvCreateSocket i32
| EvCreateGroup group_type i32
| EvSetFlag socket_id sockopt optval
| EvGetFlag socket_id sockopt "i32 \<times> i32"
| EvGetStreamId socket_id "i32 \<times> bytes"
| EvBind socket_id sockaddr i32
| EvListenCallback socket_id slot i32
| EvListen socket_id i32 i32
| EvConnect socket_id sockaddr i32
| EvAccept socket_id i32
| EvGetSockState socket_id raw_sockstatus
| EvEpollAdd socket_id epoll_flags
| EvEpollRemove socket_id
| EvEpollWait nat "i32 \<times> epoll_event list"
| EvEpollRelease
| EvClose socket_id
| EvRecvMsg socket_id "i32 \<times> bytes \<times> i64"
| EvSendMsg socket_id bytes i32
| EvGroupData socket_id nat "i32 \<times> nat \<times> group_row list"
| EvConnectGroup socket_id "target list" "i32 \<times> target list"
| EvBistats socket_id "i32 \<times> perfmon"
| EvGetPeerName socket_id "i32 \<times> sockaddr"
| EvGetSockName socket_id "i32 \<times> sockaddr"
| EvNextCmd cmd_result
| EvOrder "socket_id list"
| EvSleep duration
| EvReply reply_id reply
| EvReplyDropped reply_id
| EvDeliver chan received_packet
| EvTryRecv chan recv_result
| EvTrySend chan socket_id bool
| EvIsClosed chan bool
| EvStatus chan socket_status
| EvDropRecvTx chan
| EvDropSendRx chan
| EvDropStatusTx chan
| EvDropAcceptTx chan
| EvFreeSlot slot
| EvOutOfFuel

section \<open>State\<close>

record socket_state =
  ss_recv_tx :: "chan option"
  ss_send_rx :: "chan option"
  ss_send_backlog :: "bytes list"
  ss_status_tx :: "chan option"
  ss_accept_tx :: "chan option"
  ss_access_control :: "slot option"
  ss_is_listener :: bool
  ss_is_group :: bool
  ss_backup :: bool
  ss_last_status :: socket_status
  ss_connect_reply :: "reply_id option"
  ss_watched :: "watched_member list"

record bridge =
  log :: "event list"
  sockets :: "(socket_id \<times> socket_state) list"
  stranded_repairs :: u64

type_synonym 'a io = "(bridge, 'a) state"

definition new_socket_state :: "bool \<Rightarrow> bool \<Rightarrow> bool \<Rightarrow> socket_state" where
  "new_socket_state listener grp bk =
     \<lparr> ss_recv_tx = None, ss_send_rx = None, ss_send_backlog = [], ss_status_tx = None,
       ss_accept_tx = None, ss_access_control = None, ss_is_listener = listener, ss_is_group = grp,
       ss_backup = bk, ss_last_status = S_Init, ss_connect_reply = None, ss_watched = [] \<rparr>"

section \<open>The environment\<close>

record env =
  e_now :: "event list \<Rightarrow> instant"
  e_getlasterror :: "event list \<Rightarrow> i32"
  e_create_socket :: "event list \<Rightarrow> i32"
  e_create_group :: "event list \<Rightarrow> group_type \<Rightarrow> i32"
  e_getsockflag :: "event list \<Rightarrow> socket_id \<Rightarrow> sockopt \<Rightarrow> i32 \<times> i32"
  e_getstreamid :: "event list \<Rightarrow> socket_id \<Rightarrow> i32 \<times> bytes"
  e_bind :: "event list \<Rightarrow> socket_id \<Rightarrow> sockaddr \<Rightarrow> i32"
  e_listen_callback :: "event list \<Rightarrow> socket_id \<Rightarrow> slot \<Rightarrow> i32"
  e_listen :: "event list \<Rightarrow> socket_id \<Rightarrow> i32 \<Rightarrow> i32"
  e_connect :: "event list \<Rightarrow> socket_id \<Rightarrow> sockaddr \<Rightarrow> i32"
  e_accept :: "event list \<Rightarrow> socket_id \<Rightarrow> i32"
  e_getsockstate :: "event list \<Rightarrow> socket_id \<Rightarrow> raw_sockstatus"
  e_epoll_uwait :: "event list \<Rightarrow> nat \<Rightarrow> i32 \<times> epoll_event list"
  e_recvmsg2 :: "event list \<Rightarrow> socket_id \<Rightarrow> i32 \<times> bytes \<times> i64"
  e_sendmsg2 :: "event list \<Rightarrow> socket_id \<Rightarrow> bytes \<Rightarrow> i32"
  e_group_data :: "event list \<Rightarrow> socket_id \<Rightarrow> nat \<Rightarrow> i32 \<times> nat \<times> group_row list"
  e_prepare_endpoint :: "sockaddr option \<Rightarrow> sockaddr \<Rightarrow> target"
  e_connect_group :: "event list \<Rightarrow> socket_id \<Rightarrow> target list \<Rightarrow> i32 \<times> target list"
  e_bistats :: "event list \<Rightarrow> socket_id \<Rightarrow> i32 \<times> perfmon"
  e_getpeername :: "event list \<Rightarrow> socket_id \<Rightarrow> i32 \<times> sockaddr"
  e_getsockname :: "event list \<Rightarrow> socket_id \<Rightarrow> i32 \<times> sockaddr"
  e_next_cmd :: "event list \<Rightarrow> cmd_result"
  e_order :: "event list \<Rightarrow> socket_id list \<Rightarrow> socket_id list"
  e_try_recv :: "event list \<Rightarrow> chan \<Rightarrow> recv_result"
  e_try_send :: "event list \<Rightarrow> chan \<Rightarrow> socket_id \<Rightarrow> bool"
  e_is_closed :: "event list \<Rightarrow> chan \<Rightarrow> bool"
  e_little_endian :: bool
  e_fuel :: nat

text \<open>Emitting an event, and asking the environment.\<close>

definition emit :: "event \<Rightarrow> unit io" where
  "emit ev = modify (\<lambda>b. b\<lparr> log := ev # log b \<rparr>)"

definition ask :: "(event list \<Rightarrow> 'a) \<Rightarrow> ('a \<Rightarrow> event) \<Rightarrow> 'a io" where
  "ask f ev = State (\<lambda>b. (f (log b), b\<lparr> log := ev (f (log b)) # log b \<rparr>))"

definition instant_now :: "env \<Rightarrow> instant io" where
  "instant_now E = ask (e_now E) EvNow"

definition last_srt_error :: "env \<Rightarrow> srt_error io" where
  "last_srt_error E = do {
     c \<leftarrow> ask (e_getlasterror E) EvLastError;
     return (from_code c)
   }"

definition srt_getsockstate :: "env \<Rightarrow> socket_id \<Rightarrow> raw_sockstatus io" where
  "srt_getsockstate E i = ask (\<lambda>l. e_getsockstate E l i) (EvGetSockState i)"

definition srt_getsockflag :: "env \<Rightarrow> socket_id \<Rightarrow> sockopt \<Rightarrow> (i32 \<times> i32) io" where
  "srt_getsockflag E i opt = ask (\<lambda>l. e_getsockflag E l i opt) (EvGetFlag i opt)"

definition srt_close :: "socket_id \<Rightarrow> unit io" where
  "srt_close i = emit (EvClose i)"

definition srt_recvmsg2 :: "env \<Rightarrow> socket_id \<Rightarrow> (i32 \<times> bytes \<times> i64) io" where
  "srt_recvmsg2 E i = ask (\<lambda>l. e_recvmsg2 E l i) (EvRecvMsg i)"

definition srt_sendmsg2 :: "env \<Rightarrow> socket_id \<Rightarrow> bytes \<Rightarrow> i32 io" where
  "srt_sendmsg2 E i d = ask (\<lambda>l. e_sendmsg2 E l i d) (EvSendMsg i d)"

definition srt_accept :: "env \<Rightarrow> socket_id \<Rightarrow> i32 io" where
  "srt_accept E i = ask (\<lambda>l. e_accept E l i) (EvAccept i)"

definition srt_group_data :: "env \<Rightarrow> socket_id \<Rightarrow> nat \<Rightarrow> (i32 \<times> nat \<times> group_row list) io" where
  "srt_group_data E i cap = ask (\<lambda>l. e_group_data E l i cap) (EvGroupData i cap)"

definition srt_connect_group :: "env \<Rightarrow> socket_id \<Rightarrow> target list \<Rightarrow> (i32 \<times> target list) io" where
  "srt_connect_group E i ts = ask (\<lambda>l. e_connect_group E l i ts) (EvConnectGroup i ts)"

definition try_recv :: "env \<Rightarrow> chan \<Rightarrow> recv_result io" where
  "try_recv E c = ask (\<lambda>l. e_try_recv E l c) (EvTryRecv c)"

definition is_closed :: "env \<Rightarrow> chan \<Rightarrow> bool io" where
  "is_closed E c = ask (\<lambda>l. e_is_closed E l c) (EvIsClosed c)"

definition send_reply :: "reply_id \<Rightarrow> reply \<Rightarrow> unit io" where
  "send_reply r v = emit (EvReply r v)"

section \<open>The socket map\<close>

definition lookup_sock :: "socket_id \<Rightarrow> socket_state option io" where
  "lookup_sock i = gets (\<lambda>b. map_of (sockets b) i)"

definition put_sock :: "socket_id \<Rightarrow> socket_state \<Rightarrow> unit io" where
  "put_sock i s = modify (\<lambda>b. b\<lparr> sockets := AList.update i s (sockets b) \<rparr>)"

definition remove_sock :: "socket_id \<Rightarrow> unit io" where
  "remove_sock i = modify (\<lambda>b. b\<lparr> sockets := AList.delete i (sockets b) \<rparr>)"

text \<open>The keys in the order the hash map iterates over them.\<close>

definition sock_ids :: "env \<Rightarrow> socket_id list io" where
  "sock_ids E = State (\<lambda>b.
     let ks = e_order E (log b) (map fst (sockets b)) in (ks, b\<lparr> log := EvOrder ks # log b \<rparr>))"

section \<open>Running the primitives\<close>

named_theorems io_simps \<open>running the primitive operations\<close>

lemma run_emit [simp, io_simps]: "run_state (emit ev) b = ((), b\<lparr> log := ev # log b \<rparr>)"
  by (simp add: emit_def)

lemma run_ask [simp, io_simps]:
  "run_state (ask f ev) b = (f (log b), b\<lparr> log := ev (f (log b)) # log b \<rparr>)"
  by (simp add: ask_def)

lemma run_lookup_sock [simp, io_simps]: "run_state (lookup_sock i) b = (map_of (sockets b) i, b)"
  by (simp add: lookup_sock_def)

lemma run_put_sock [simp, io_simps]:
  "run_state (put_sock i s) b = ((), b\<lparr> sockets := AList.update i s (sockets b) \<rparr>)"
  by (simp add: put_sock_def)

lemma run_remove_sock [simp, io_simps]:
  "run_state (remove_sock i) b = ((), b\<lparr> sockets := AList.delete i (sockets b) \<rparr>)"
  by (simp add: remove_sock_def)

lemma run_sock_ids [simp, io_simps]:
  "run_state (sock_ids E) b =
     (e_order E (log b) (map fst (sockets b)), b\<lparr> log := EvOrder (e_order E (log b) (map fst (sockets b))) # log b \<rparr>)"
  by (simp add: sock_ids_def Let_def)

lemmas prim_defs = instant_now_def last_srt_error_def srt_getsockstate_def srt_getsockflag_def
  srt_close_def srt_recvmsg2_def srt_sendmsg2_def srt_accept_def srt_group_data_def
  srt_connect_group_def try_recv_def is_closed_def send_reply_def

end
