(* ===== verification/Options.thy ===== *)
theory Options
  imports Bridge_State "HOL-Library.Sublist"
begin

text \<open>
  The socket options of \<^verbatim>\<open>srt-transport/src/epoll_bridge.rs\<close>: \<^verbatim>\<open>apply_config\<close> and the typed
  setters below it. \<open>config_opts\<close> is the sequence of option writes \<^verbatim>\<open>apply_config\<close> makes, in its
  order and under its conditions; \<open>apply_config\<close> performs it. The setters ignore libsrt's return
  code. A string is passed as a C string: one with a NUL character is not passed at all.
\<close>

definition set_i32_opt :: "sockopt \<Rightarrow> i32 \<Rightarrow> (sockopt \<times> optval) list" where
  "set_i32_opt opt v = [(opt, OptI32 v)]"

definition set_i64_opt :: "sockopt \<Rightarrow> i64 \<Rightarrow> (sockopt \<times> optval) list" where
  "set_i64_opt opt v = [(opt, OptI64 v)]"

definition set_bool_opt :: "sockopt \<Rightarrow> bool \<Rightarrow> (sockopt \<times> optval) list" where
  "set_bool_opt opt v = [(opt, OptBool v)]"

definition set_str_opt :: "sockopt \<Rightarrow> rstr \<Rightarrow> (sockopt \<times> optval) list" where
  "set_str_opt opt v = (if 0 \<in> set v then [] else [(opt, OptStr (utf8 v))])"

definition when_set :: "bool \<Rightarrow> (sockopt \<times> optval) list \<Rightarrow> (sockopt \<times> optval) list" where
  "when_set b opts = (if b then opts else [])"

definition config_opts :: "srt_config \<Rightarrow> (sockopt \<times> optval) list" where
  "config_opts c =
     [(SRTO_TRANSTYPE, OptTransType (trans_type c))]
     @ when_set (recv_latency c > 0) (set_i32_opt SRTO_RCVLATENCY (sint (recv_latency c)))
     @ when_set (peer_latency c > 0) (set_i32_opt SRTO_PEERLATENCY (sint (peer_latency c)))
     @ when_set (mss c \<noteq> 1500) (set_i32_opt SRTO_MSS (sint (mss c)))
     @ when_set (flight_flag_size c \<noteq> 25600) (set_i32_opt SRTO_FC (sint (flight_flag_size c)))
     @ when_set (send_buffer_size c \<noteq> 8192 * 1316) (set_i32_opt SRTO_SNDBUF (sint (send_buffer_size c)))
     @ when_set (recv_buffer_size c \<noteq> 8192 * 1316) (set_i32_opt SRTO_RCVBUF (sint (recv_buffer_size c)))
     @ (let peer_idle_ms = as_i32 (int (as_millis (peer_idle_timeout c))) in
        when_set (peer_idle_ms > 0) (set_i32_opt SRTO_PEERIDLETIMEO peer_idle_ms))
     @ (let conn_timeout_ms = as_i32 (int (as_millis (connect_timeout c))) in
        when_set (conn_timeout_ms > 0) (set_i32_opt SRTO_CONNTIMEO conn_timeout_ms))
     @ when_set (payload_size c > 0) (set_i32_opt SRTO_PAYLOADSIZE (sint (payload_size c)))
     @ when_set (passphrase c \<noteq> [])
         (set_str_opt SRTO_PASSPHRASE (passphrase c)
          @ set_i32_opt SRTO_PBKEYLEN (int (key_size_value (key_size c)))
          @ when_set (crypto_mode c = AesGcm) (set_i32_opt SRTO_CRYPTOMODE 2))
     @ set_bool_opt SRTO_ENFORCEDENCRYPTION (enforced_encryption c)
     @ when_set (max_bw c \<ge> 0) (set_i64_opt SRTO_MAXBW (max_bw c))
     @ when_set (input_bw c > 0) (set_i64_opt SRTO_INPUTBW (input_bw c))
     @ when_set (overhead_bw c \<noteq> 25) (set_i32_opt SRTO_OHEADBW (overhead_bw c))
     @ when_set (max_rexmit_bw c \<noteq> - 1) (set_i64_opt SRTO_MAXREXMITBW (max_rexmit_bw c))
     @ when_set (stream_id c \<noteq> []) (set_str_opt SRTO_STREAMID (stream_id c))
     @ when_set (packet_filter c \<noteq> []) (set_str_opt SRTO_PACKETFILTER (packet_filter c))
     @ when_set (ip_tos c \<noteq> 0) (set_i32_opt SRTO_IPTOS (ip_tos c))
     @ when_set (ip_ttl c \<noteq> 64) (set_i32_opt SRTO_IPTTL (ip_ttl c))
     @ when_set (retransmit_algo c = RA_Reduced) (set_i32_opt SRTO_RETRANSMITALGO 1)
     @ when_set (send_drop_delay c \<noteq> - 1) (set_i32_opt SRTO_SNDDROPDELAY (send_drop_delay c))
     @ when_set (loss_max_ttl c > 0) (set_i32_opt SRTO_LOSSMAXTTL (loss_max_ttl c))
     @ when_set (km_refresh_rate c \<noteq> 0x01000000) (set_i32_opt SRTO_KMREFRESHRATE (sint (km_refresh_rate c)))
     @ when_set (km_pre_announce c \<noteq> 0x1000) (set_i32_opt SRTO_KMPREANNOUNCE (sint (km_pre_announce c)))
     @ set_bool_opt SRTO_TLPKTDROP (tlpkt_drop c)
     @ when_set (rendezvous c) (set_bool_opt SRTO_RENDEZVOUS True)
     @ when_set (group_connect c) (set_bool_opt SRTO_GROUPCONNECT True)"

definition set_opts :: "socket_id \<Rightarrow> (sockopt \<times> optval) list \<Rightarrow> unit io" where
  "set_opts sock opts = for_each (\<lambda>(opt, v). emit (EvSetFlag sock opt v)) opts"

definition apply_config :: "socket_id \<Rightarrow> srt_config \<Rightarrow> unit io" where
  "apply_config sock c = set_opts sock (config_opts c)"

text \<open>\<^verbatim>\<open>SRTO_RCVSYN\<close> and \<^verbatim>\<open>SRTO_SNDSYN\<close> off, as every socket and group is set up.\<close>

definition set_nonblocking :: "socket_id \<Rightarrow> unit io" where
  "set_nonblocking sock =
     set_opts sock (set_bool_opt SRTO_RCVSYN False @ set_bool_opt SRTO_SNDSYN False)"

section \<open>Properties\<close>

lemmas set_opt_defs = when_set_def set_i32_opt_def set_i64_opt_def set_bool_opt_def set_str_opt_def

lemma run_set_opts:
  "run_state (set_opts sock opts) b =
     ((), b\<lparr> log := rev (map (\<lambda>(opt, v). EvSetFlag sock opt v) opts) @ log b \<rparr>)"
  by (induction opts arbitrary: b) (auto simp: set_opts_def)

text \<open>The options in the order \<^verbatim>\<open>apply_config\<close> considers them.\<close>

definition opt_order :: "sockopt list" where
  "opt_order =
     [SRTO_TRANSTYPE] @ [SRTO_RCVLATENCY] @ [SRTO_PEERLATENCY] @ [SRTO_MSS] @ [SRTO_FC] @ [SRTO_SNDBUF]
     @ [SRTO_RCVBUF] @ [SRTO_PEERIDLETIMEO] @ [SRTO_CONNTIMEO] @ [SRTO_PAYLOADSIZE]
     @ ([SRTO_PASSPHRASE] @ [SRTO_PBKEYLEN] @ [SRTO_CRYPTOMODE]) @ [SRTO_ENFORCEDENCRYPTION] @ [SRTO_MAXBW]
     @ [SRTO_INPUTBW] @ [SRTO_OHEADBW] @ [SRTO_MAXREXMITBW] @ [SRTO_STREAMID] @ [SRTO_PACKETFILTER]
     @ [SRTO_IPTOS] @ [SRTO_IPTTL] @ [SRTO_RETRANSMITALGO] @ [SRTO_SNDDROPDELAY] @ [SRTO_LOSSMAXTTL]
     @ [SRTO_KMREFRESHRATE] @ [SRTO_KMPREANNOUNCE] @ [SRTO_TLPKTDROP] @ [SRTO_RENDEZVOUS]
     @ [SRTO_GROUPCONNECT]"

lemma subseq_when_set: "subseq (map fst opts) os \<Longrightarrow> subseq (map fst (when_set b opts)) os"
  by (simp add: when_set_def)

lemma subseq_set_opt:
  "subseq (map fst (set_i32_opt opt v)) [opt]" "subseq (map fst (set_i64_opt opt w)) [opt]"
  "subseq (map fst (set_bool_opt opt x)) [opt]" "subseq (map fst (set_str_opt opt y)) [opt]"
  by (simp_all add: set_i32_opt_def set_i64_opt_def set_bool_opt_def set_str_opt_def)

lemma distinct_subseq: "distinct ys \<Longrightarrow> subseq xs ys \<Longrightarrow> distinct xs"
  by (metis distinct_nthsI subseq_conv_nths)

lemma config_opts_order: "subseq (map fst (config_opts c)) opt_order"
  unfolding config_opts_def opt_order_def Let_def map_append
  by (intro list_emb_append_mono subseq_when_set subseq_set_opt;
      (simp only: map_append)?; (intro list_emb_append_mono subseq_when_set subseq_set_opt)?; simp)

lemma config_opts_distinct: "distinct (map fst (config_opts c))"
  using config_opts_order by (rule distinct_subseq [rotated]) (simp add: opt_order_def)


text \<open>
  A timeout that fits a C \<^verbatim>\<open>int\<close> of milliseconds is handed to libsrt as it is, and not
  at all when it is below a millisecond. A longer one is truncated: the value libsrt gets is
  the \<^verbatim>\<open>i32\<close> with the same low 32 bits, and nothing is written when that is not positive.
\<close>

lemma timeout_opts:
  "((SRTO_CONNTIMEO, v) \<in> set (config_opts c) \<longleftrightarrow>
      v = OptI32 (as_i32 (int (as_millis (connect_timeout c)))) \<and> 0 < as_i32 (int (as_millis (connect_timeout c))))
   \<and> ((SRTO_PEERIDLETIMEO, v) \<in> set (config_opts c) \<longleftrightarrow>
      v = OptI32 (as_i32 (int (as_millis (peer_idle_timeout c)))) \<and> 0 < as_i32 (int (as_millis (peer_idle_timeout c))))
   \<and> (as_millis d < 2 ^ 31 \<longrightarrow> as_i32 (int (as_millis d)) = int (as_millis d))
   \<and> as_i32 (int (as_millis (from_millis (2 ^ 32)))) = 0"
proof -
  have "(SRTO_CONNTIMEO, v) \<in> set (config_opts c) \<longleftrightarrow>
      v = OptI32 (as_i32 (int (as_millis (connect_timeout c)))) \<and> 0 < as_i32 (int (as_millis (connect_timeout c)))"
    and "(SRTO_PEERIDLETIMEO, v) \<in> set (config_opts c) \<longleftrightarrow>
      v = OptI32 (as_i32 (int (as_millis (peer_idle_timeout c)))) \<and> 0 < as_i32 (int (as_millis (peer_idle_timeout c)))"
    by (auto simp: config_opts_def set_opt_defs Let_def)
  moreover have "as_i32 (int (as_millis d)) = int (as_millis d)" if "as_millis d < 2 ^ 31"
    using that by (intro as_i32_id) (simp add: is_i32_def)
  moreover have "as_i32 (int (as_millis (from_millis (2 ^ 32)))) = 0"
    by (simp add: as_i32_def)
  ultimately show ?thesis by blast
qed


end
