(* ===== verification/Sockets.thy ===== *)
theory Sockets
  imports Options
begin

text \<open>
  The life of an entry of the I/O thread's socket map (\<^verbatim>\<open>srt-transport/src/epoll_bridge.rs\<close>):
  status changes, closing, dropping, the zombie reaper and the final cleanup.

  Every entry owns channel ends, at most one pending connect reply and, for a listener, the
  allocation libsrt calls back through. Rust frees them when the entry is dropped; \<open>drop_state\<close>
  makes that explicit as events, in the order of the fields. The second half is a ledger: no
  operation loses such a resource or gives it up twice.
\<close>

section \<open>Operations\<close>

definition is_group_id :: "socket_id \<Rightarrow> bool" where
  "is_group_id i \<longleftrightarrow> i \<ge> 0 \<and> odd (i div 2 ^ 30)"

text \<open>\<^verbatim>\<open>if let Some(x) = o\<close> around one call.\<close>

definition if_some :: "'a option \<Rightarrow> ('a \<Rightarrow> unit io) \<Rightarrow> unit io" where
  "if_some o' f = (case o' of None \<Rightarrow> return () | Some x \<Rightarrow> f x)"

text \<open>\<^verbatim>\<open>if let Some(state) = sockets.get_mut(&id)\<close> around changes to that entry.\<close>

definition with_sock :: "socket_id \<Rightarrow> (socket_state \<Rightarrow> socket_state io) \<Rightarrow> unit io" where
  "with_sock i f = do {
     entry \<leftarrow> lookup_sock i;
     if_some entry (\<lambda>s. do {
       s' \<leftarrow> f s;
       put_sock i s'
     })
   }"

definition update_status :: "socket_state \<Rightarrow> socket_status \<Rightarrow> socket_state io" where
  "update_status s st = do {
     let previous = ss_last_status s;
     let s = s\<lparr> ss_last_status := st \<rparr>;
     _ \<leftarrow> if_some (ss_status_tx s) (\<lambda>tx. emit (EvStatus tx st));
     if is_terminal_status st then do {
       _ \<leftarrow> if_some (ss_recv_tx s) (\<lambda>tx. emit (EvDropRecvTx tx));
       let s = s\<lparr> ss_recv_tx := None \<rparr>;
       if previous = S_Connected \<or> previous = S_Connecting then do {
         _ \<leftarrow> if_some (ss_send_rx s) (\<lambda>rx. emit (EvDropSendRx rx));
         return (s\<lparr> ss_send_rx := None \<rparr>)
       } else return s
     } else return s
   }"

text \<open>Rust drops the fields in the order of their declaration.\<close>

definition drop_state :: "socket_state \<Rightarrow> unit io" where
  "drop_state s = do {
     _ \<leftarrow> if_some (ss_recv_tx s) (\<lambda>c. emit (EvDropRecvTx c));
     _ \<leftarrow> if_some (ss_send_rx s) (\<lambda>c. emit (EvDropSendRx c));
     _ \<leftarrow> if_some (ss_status_tx s) (\<lambda>c. emit (EvDropStatusTx c));
     _ \<leftarrow> if_some (ss_accept_tx s) (\<lambda>c. emit (EvDropAcceptTx c));
     _ \<leftarrow> if_some (ss_access_control s) (\<lambda>a. emit (EvFreeSlot a));
     if_some (ss_connect_reply s) (\<lambda>r. emit (EvReplyDropped r))
   }"

definition close_and_release :: "socket_id \<Rightarrow> socket_state option io" where
  "close_and_release i = do {
     entry \<leftarrow> lookup_sock i;
     let never_polled = (case entry of None \<Rightarrow> False
                         | Some s \<Rightarrow> ss_is_group s \<and> ss_last_status s = S_Init);
     _ \<leftarrow> (if never_polled then return () else emit (EvEpollRemove i));
     _ \<leftarrow> srt_close i;
     _ \<leftarrow> remove_sock i;
     return entry
   }"

text \<open>What every caller does with the entry it gets back: answer a pending connect, then drop it.\<close>

definition finish_state :: "srt_error \<Rightarrow> socket_state \<Rightarrow> unit io" where
  "finish_state err s = do {
     _ \<leftarrow> if_some (ss_connect_reply s) (\<lambda>r. send_reply r (ReplyUnit (Inl err)));
     drop_state (s\<lparr> ss_connect_reply := None \<rparr>)
   }"

definition is_zombie :: "env \<Rightarrow> socket_id \<Rightarrow> bool io" where
  "is_zombie E i = do {
     entry \<leftarrow> lookup_sock i;
     (case entry of
        None \<Rightarrow> return False
      | Some s \<Rightarrow>
          if \<not> is_terminal_status (ss_last_status s) then return False
          else if ss_is_listener s \<or> ss_is_group s then return False
          else (case ss_recv_tx s of None \<Rightarrow> return True | Some tx \<Rightarrow> is_closed E tx))
   }"

definition cleanup_zombies :: "env \<Rightarrow> unit io" where
  "cleanup_zombies E = do {
     ids \<leftarrow> sock_ids E;
     buf \<leftarrow> filter_m (is_zombie E) ids;
     for_each (\<lambda>i. do {
       entry \<leftarrow> close_and_release i;
       if_some entry (finish_state Err_ConnectionLost)
     }) buf
   }"

definition cleanup_one :: "socket_id \<Rightarrow> unit io" where
  "cleanup_one i = do {
     entry \<leftarrow> lookup_sock i;
     _ \<leftarrow> remove_sock i;
     if_some entry (\<lambda>s. do {
       _ \<leftarrow> emit (EvEpollRemove i);
       _ \<leftarrow> srt_close i;
       finish_state Err_SocketClosed s
     })
   }"

definition cleanup :: "env \<Rightarrow> unit io" where
  "cleanup E = do {
     ids \<leftarrow> sock_ids E;
     _ \<leftarrow> for_each cleanup_one ids;
     emit EvEpollRelease
   }"

section \<open>Running them\<close>

lemma run_if_some:
  "run_state (if_some x f) b = (case x of None \<Rightarrow> ((), b) | Some y \<Rightarrow> run_state (f y) b)"
  by (simp add: if_some_def split: option.split)

abbreviation evs :: "('a \<Rightarrow> event) \<Rightarrow> 'a option \<Rightarrow> event list" where
  "evs f x \<equiv> (case x of None \<Rightarrow> [] | Some y \<Rightarrow> [f y])"

lemma run_if_some_emit [simp]:
  "run_state (if_some x (\<lambda>y. emit (f y))) b = ((), b\<lparr> log := evs f x @ log b \<rparr>)"
  by (simp add: run_if_some split: option.split)

definition with_status :: "socket_state \<Rightarrow> socket_status \<Rightarrow> socket_state" where
  "with_status s st =
     (if \<not> is_terminal_status st then s\<lparr> ss_last_status := st \<rparr>
      else if ss_last_status s = S_Connected \<or> ss_last_status s = S_Connecting
      then s\<lparr> ss_last_status := st, ss_recv_tx := None, ss_send_rx := None \<rparr>
      else s\<lparr> ss_last_status := st, ss_recv_tx := None \<rparr>)"

definition status_events :: "socket_state \<Rightarrow> socket_status \<Rightarrow> event list" where
  "status_events s st =
     (if is_terminal_status st
      then (if ss_last_status s = S_Connected \<or> ss_last_status s = S_Connecting
            then evs EvDropSendRx (ss_send_rx s) else [])
           @ evs EvDropRecvTx (ss_recv_tx s)
      else [])
     @ evs (\<lambda>tx. EvStatus tx st) (ss_status_tx s)"

lemma run_update_status [simp]:
  "run_state (update_status s st) b = (with_status s st, b\<lparr> log := status_events s st @ log b \<rparr>)"
  by (simp add: update_status_def with_status_def status_events_def Let_def)

definition drop_events :: "socket_state \<Rightarrow> event list" where
  "drop_events s =
     evs EvReplyDropped (ss_connect_reply s) @ evs EvFreeSlot (ss_access_control s)
     @ evs EvDropAcceptTx (ss_accept_tx s) @ evs EvDropStatusTx (ss_status_tx s)
     @ evs EvDropSendRx (ss_send_rx s) @ evs EvDropRecvTx (ss_recv_tx s)"

lemma run_drop_state [simp]: "run_state (drop_state s) b = ((), b\<lparr> log := drop_events s @ log b \<rparr>)"
  by (simp add: drop_state_def drop_events_def)

lemma run_finish_state [simp]:
  "run_state (finish_state err s) b =
     ((), b\<lparr> log := drop_events (s\<lparr> ss_connect_reply := None \<rparr>)
                 @ evs (\<lambda>r. EvReply r (ReplyUnit (Inl err))) (ss_connect_reply s) @ log b \<rparr>)"
  by (simp add: finish_state_def send_reply_def)

definition never_polled :: "socket_state option \<Rightarrow> bool" where
  "never_polled entry =
     (case entry of None \<Rightarrow> False | Some s \<Rightarrow> ss_is_group s \<and> ss_last_status s = S_Init)"

lemma run_close_and_release [simp]:
  "run_state (close_and_release i) b =
     (map_of (sockets b) i,
      b\<lparr> log := EvClose i # (if never_polled (map_of (sockets b) i) then [] else [EvEpollRemove i]) @ log b,
         sockets := AList.delete i (sockets b) \<rparr>)"
  by (simp add: close_and_release_def srt_close_def never_polled_def Let_def)

lemma run_with_sock:
  "run_state (with_sock i f) b =
     (case map_of (sockets b) i of
        None \<Rightarrow> ((), b)
      | Some s \<Rightarrow> ((), (snd (run_state (f s) b))
                    \<lparr> sockets := AList.update i (fst (run_state (f s) b)) (sockets (snd (run_state (f s) b))) \<rparr>))"
  by (simp add: with_sock_def run_if_some case_prod_beta split: option.split)

section \<open>The ledger of resources\<close>

text \<open>
  A receipt is what remains in the log of a resource that came with a command, so that the ledger
  also says what the thread was handed.
\<close>

datatype resource =
  R_Reply reply_id | R_RecvTx chan | R_SendRx chan | R_StatusTx chan | R_AcceptTx chan | R_Slot slot
| Receipt resource

abbreviation res :: "('a \<Rightarrow> resource) \<Rightarrow> 'a option \<Rightarrow> resource multiset" where
  "res f x \<equiv> (case x of None \<Rightarrow> {#} | Some y \<Rightarrow> {#f y#})"

definition holds :: "socket_state \<Rightarrow> resource multiset" where
  "holds s = res R_RecvTx (ss_recv_tx s) + res R_SendRx (ss_send_rx s) + res R_StatusTx (ss_status_tx s)
     + res R_AcceptTx (ss_accept_tx s) + res R_Slot (ss_access_control s)
     + res R_Reply (ss_connect_reply s)"

text \<open>What a command hands to the thread: its reply, or the channel ends and the policy.\<close>

definition carries :: "io_command \<Rightarrow> resource multiset" where
  "carries cmd =
     (case cmd of
        CreateSocket _ r \<Rightarrow> {#R_Reply r#} | Bind _ _ r \<Rightarrow> {#R_Reply r#} | Listen _ _ r \<Rightarrow> {#R_Reply r#}
      | Connect _ _ r \<Rightarrow> {#R_Reply r#}
      | RegisterSocket _ tx rx st \<Rightarrow> {#R_RecvTx tx, R_SendRx rx, R_StatusTx st#}
      | RegisterListener _ tx ac \<Rightarrow> add_mset (R_AcceptTx tx) (res R_Slot ac)
      | GetStats _ r \<Rightarrow> {#R_Reply r#} | GetState _ r \<Rightarrow> {#R_Reply r#} | GetPeerAddr _ r \<Rightarrow> {#R_Reply r#}
      | GetLocalAddr _ r \<Rightarrow> {#R_Reply r#} | GetStreamId _ r \<Rightarrow> {#R_Reply r#} | Close _ \<Rightarrow> {#}
      | CreateGroup _ _ r \<Rightarrow> {#R_Reply r#} | ConnectGroup _ _ r \<Rightarrow> {#R_Reply r#}
      | AddGroupMember _ _ r \<Rightarrow> {#R_Reply r#} | TestStrandMember _ _ r \<Rightarrow> {#R_Reply r#}
      | GetGroupMemberStats _ r \<Rightarrow> {#R_Reply r#} | Shutdown \<Rightarrow> {#})"

text \<open>The events that give a resource up: a reply is sent or dropped, an end or a slot is freed; and receipts.\<close>

definition releases :: "event \<Rightarrow> resource multiset" where
  "releases ev =
     (case ev of
        EvReply r _ \<Rightarrow> {#R_Reply r#}
      | EvReplyDropped r \<Rightarrow> {#R_Reply r#}
      | EvDropRecvTx c \<Rightarrow> {#R_RecvTx c#}
      | EvDropSendRx c \<Rightarrow> {#R_SendRx c#}
      | EvDropStatusTx c \<Rightarrow> {#R_StatusTx c#}
      | EvDropAcceptTx c \<Rightarrow> {#R_AcceptTx c#}
      | EvFreeSlot a \<Rightarrow> {#R_Slot a#}
      | EvNextCmd m \<Rightarrow> (case m of CmdOk cmd \<Rightarrow> image_mset Receipt (carries cmd) | _ \<Rightarrow> {#})
      | _ \<Rightarrow> {#})"

definition released :: "event list \<Rightarrow> resource multiset" where
  "released l = sum_list (map releases l)"

definition held :: "(socket_id \<times> socket_state) list \<Rightarrow> resource multiset" where
  "held m = sum_list (map (holds \<circ> snd) m)"

definition ledger :: "bridge \<Rightarrow> resource multiset" where
  "ledger b = released (log b) + held (sockets b)"

definition distinct_keys :: "bridge \<Rightarrow> bool" where
  "distinct_keys b \<longleftrightarrow> distinct (map fst (sockets b))"

lemmas releases_simps [simp] = releases_def [of "EvReply r v" for r v, simplified]
  releases_def [of "EvReplyDropped r" for r, simplified] releases_def [of "EvDropRecvTx c" for c, simplified]
  releases_def [of "EvDropSendRx c" for c, simplified] releases_def [of "EvDropStatusTx c" for c, simplified]
  releases_def [of "EvDropAcceptTx c" for c, simplified] releases_def [of "EvFreeSlot a" for a, simplified]

lemma released_simps [simp]:
  "released [] = {#}" "released (ev # l) = releases ev + released l"
  "released (l @ l') = released l + released l'"
  by (simp_all add: released_def)

lemma released_evs:
  "released (evs f x) = (case x of None \<Rightarrow> {#} | Some y \<Rightarrow> releases (f y))"
  by (simp split: option.split)

lemma held_update:
  "held (AList.update i s m) + (case map_of m i of None \<Rightarrow> {#} | Some s' \<Rightarrow> holds s') = held m + holds s"
  by (induction m) (auto simp: held_def ac_simps)

lemma held_delete_absent: "i \<notin> set (map fst m) \<Longrightarrow> AList.delete i m = m"
  by (simp add: AList.delete_eq filter_id_conv) force

lemma held_delete:
  "distinct (map fst m) \<Longrightarrow>
   held (AList.delete i m) + (case map_of m i of None \<Rightarrow> {#} | Some s \<Rightarrow> holds s) = held m"
proof (induction m)
  case (Cons e m)
  show ?case
  proof (cases "fst e = i")
    case True
    with Cons.prems have "AList.delete i (e # m) = m"
      by (cases e) (simp add: held_delete_absent)
    with True show ?thesis by (simp add: held_def)
  next
    case False
    with Cons show ?thesis
      by (cases e) (simp add: held_def ac_simps)
  qed
qed (simp add: held_def)

text \<open>
  \<open>moves D m\<close>: the computation \<open>m\<close> adds exactly \<open>D\<close> to the ledger and keeps the map a map.
  Operations that are handed a resource add it; all others add nothing.
\<close>

definition moves :: "resource multiset \<Rightarrow> 'a io \<Rightarrow> bool" where
  "moves D m \<longleftrightarrow> (\<forall>b. distinct_keys b \<longrightarrow>
     distinct_keys (snd (run_state m b)) \<and> ledger (snd (run_state m b)) = ledger b + D)"

named_theorems moves \<open>what operations add to the ledger\<close>

lemma moves_return [moves]: "moves {#} (return x)"
  by (simp add: moves_def)

lemma moves_bind: "moves D m \<Longrightarrow> (\<And>x. moves D' (f x)) \<Longrightarrow> D'' = D + D' \<Longrightarrow> moves D'' (State_Monad.bind m f)"
  by (simp add: moves_def case_prod_beta ac_simps)

lemma moves_bind0 [moves]: "moves {#} m \<Longrightarrow> (\<And>x. moves D (f x)) \<Longrightarrow> moves D (State_Monad.bind m f)"
  using moves_bind [of "{#}" m D f D] by simp

lemma moves_if [moves]: "(c \<Longrightarrow> moves D m) \<Longrightarrow> (\<not> c \<Longrightarrow> moves D n) \<Longrightarrow> moves D (if c then m else n)"
  by simp

lemma moves_Let [moves]: "(\<And>y. y = x \<Longrightarrow> moves D (f y)) \<Longrightarrow> moves D (let y = x in f y)"
  by simp

lemma moves_option [moves]:
  "(x = None \<Longrightarrow> moves D m) \<Longrightarrow> (\<And>y. x = Some y \<Longrightarrow> moves D (f y))
    \<Longrightarrow> moves D (case x of None \<Rightarrow> m | Some y \<Rightarrow> f y)"
  by (cases x) simp_all

lemma moves_sum [moves]:
  "(\<And>y. x = Inl y \<Longrightarrow> moves D (f y)) \<Longrightarrow> (\<And>y. x = Inr y \<Longrightarrow> moves D (g y))
    \<Longrightarrow> moves D (case x of Inl y \<Rightarrow> f y | Inr y \<Rightarrow> g y)"
  by (cases x) simp_all

lemma moves_prod [moves]: "(\<And>a b. x = (a, b) \<Longrightarrow> moves D (f a b)) \<Longrightarrow> moves D (case x of (a, b) \<Rightarrow> f a b)"
  by (cases x) simp

lemma moves_for_each [moves]:
  "(\<And>x. moves {#} (f x)) \<Longrightarrow> moves {#} (for_each f xs)"
  by (induction xs) (auto intro!: moves_return moves_bind0)

lemma moves_map_m [moves]: "(\<And>x. moves {#} (f x)) \<Longrightarrow> moves {#} (map_m f xs)"
  by (induction xs) (auto intro!: moves_return moves_bind0)

lemma moves_filter_m [moves]: "(\<And>x. moves {#} (f x)) \<Longrightarrow> moves {#} (filter_m f xs)"
  by (induction xs) (auto intro!: moves_return moves_bind0)

lemma moves_find_m [moves]: "(\<And>x. moves {#} (f x)) \<Longrightarrow> moves {#} (find_m f xs)"
  by (induction xs) (auto intro!: moves_return moves_bind0)

lemma moves_any_m [moves]: "(\<And>x. moves {#} (f x)) \<Longrightarrow> moves {#} (any_m f xs)"
  unfolding any_m_def by (intro moves_return moves_bind0 moves_find_m)

lemma moves_emit [moves]: "releases ev = D \<Longrightarrow> moves D (emit ev)"
  by (auto simp: moves_def ledger_def distinct_keys_def ac_simps)

lemma moves_ask [moves]: "(\<And>x. releases (ev x) = {#}) \<Longrightarrow> moves {#} (ask f ev)"
  by (simp add: moves_def ledger_def distinct_keys_def)

lemma moves_lookup_sock [moves]: "moves {#} (lookup_sock i)"
  by (simp add: moves_def)

lemma moves_sock_ids [moves]: "moves {#} (sock_ids E)"
  by (simp add: moves_def ledger_def distinct_keys_def releases_def)

text \<open>A change to one entry that accounts for what the entry held.\<close>

definition conserves :: "resource multiset \<Rightarrow> socket_state \<Rightarrow> socket_state io \<Rightarrow> bool" where
  "conserves D s m \<longleftrightarrow> (\<forall>b. sockets (snd (run_state m b)) = sockets b \<and>
     released (log (snd (run_state m b))) + holds (fst (run_state m b)) = released (log b) + holds s + D)"

lemma released_status_events:
  "released (status_events s st) + holds (with_status s st) = holds s"
  by (simp add: status_events_def with_status_def holds_def releases_def [of "EvStatus _ _"]
      split: option.split)

lemma released_drop_events: "released (drop_events s) = holds s"
  by (simp add: drop_events_def holds_def split: option.split)

lemma conserves_update_status [moves]: "conserves {#} s (update_status s st)"
  using released_status_events [of s st] by (simp add: conserves_def ac_simps)

lemma conserves_bind:
  assumes "conserves D s m" and "\<And>s'. conserves D' s' (f s')" and "D'' = D + D'"
  shows "conserves D'' s (State_Monad.bind m f)"
  unfolding conserves_def
proof (intro allI)
  fix b
  obtain s1 b1 where 1: "run_state m b = (s1, b1)" by force
  obtain s2 b2 where 2: "run_state (f s1) b1 = (s2, b2)" by force
  have "sockets b1 = sockets b" "released (log b1) + holds s1 = released (log b) + holds s + D"
    using assms(1) 1 unfolding conserves_def by (metis fst_conv snd_conv)+
  moreover have "sockets b2 = sockets b1" "released (log b2) + holds s2 = released (log b1) + holds s1 + D'"
    using assms(2) 2 unfolding conserves_def by (metis fst_conv snd_conv)+
  ultimately show "sockets (snd (run_state (State_Monad.bind m f) b)) = sockets b \<and>
      released (log (snd (run_state (State_Monad.bind m f) b))) + holds (fst (run_state (State_Monad.bind m f) b))
        = released (log b) + holds s + D''"
    by (simp add: 1 2 assms(3) ac_simps)
qed

lemma conserves_return [moves]: "holds s' = holds s + D \<Longrightarrow> conserves D s (return s')"
  by (simp add: conserves_def)

lemma conserves_if [moves]:
  "(c \<Longrightarrow> conserves D s m) \<Longrightarrow> (\<not> c \<Longrightarrow> conserves D s n) \<Longrightarrow> conserves D s (if c then m else n)"
  by simp

lemma conserves_frame: "conserves D s m \<Longrightarrow> holds s' = holds s \<Longrightarrow> conserves D s' m"
  by (simp add: conserves_def)

lemma ledger_exchange:
  fixes l l' h h' u m :: "resource multiset"
  assumes "l' + h' = l + h + d" and "u + h = m + h'"
  shows "l' + u = l + m + d"
proof -
  have "(l' + u) + h = (l' + h') + m"
    using assms(2) by (simp add: ac_simps)
  also have "\<dots> = (l + m + d) + h"
    using assms(1) by (simp add: ac_simps)
  finally show ?thesis by simp
qed

text \<open>An entry that is absent counts as one that holds nothing.\<close>

definition entry_holds :: "bridge \<Rightarrow> socket_id \<Rightarrow> resource multiset" where
  "entry_holds b i = (case map_of (sockets b) i of None \<Rightarrow> {#} | Some s \<Rightarrow> holds s)"

lemma put_entry_ledger:
  assumes "entry_holds b i = holds s" and "conserves D s m" and "distinct_keys b"
    and "run_state m b = (s', b')"
  shows "distinct_keys (b'\<lparr> sockets := AList.update i s' (sockets b') \<rparr>)
    \<and> ledger (b'\<lparr> sockets := AList.update i s' (sockets b') \<rparr>) = ledger b + D"
proof -
  have b': "sockets b' = sockets b" "released (log b') + holds s' = released (log b) + holds s + D"
    using assms(2,4) unfolding conserves_def by (metis fst_conv snd_conv)+
  have "held (AList.update i s' (sockets b)) + holds s = held (sockets b) + holds s'"
    using held_update [of i s' "sockets b"] assms(1) by (simp add: entry_holds_def)
  then have "ledger (b'\<lparr> sockets := AList.update i s' (sockets b') \<rparr>) = ledger b + D"
    using ledger_exchange [OF b'(2)] b'(1) by (simp add: ledger_def)
  then show ?thesis
    using assms(3) b'(1) by (simp add: distinct_keys_def distinct_update)
qed

lemma put_sock_ledger:
  assumes "map_of (sockets b) i = Some s" and "conserves D s m" and "distinct_keys b"
    and "run_state m b = (s', b')"
  shows "distinct_keys (b'\<lparr> sockets := AList.update i s' (sockets b') \<rparr>)
    \<and> ledger (b'\<lparr> sockets := AList.update i s' (sockets b') \<rparr>) = ledger b + D"
  using put_entry_ledger [OF _ assms(2-4)] assms(1) by (simp add: entry_holds_def)

lemma moves_with_sock [moves]:
  assumes "\<And>s. conserves {#} s (f s)"
  shows "moves {#} (with_sock i f)"
proof -
  have "distinct_keys (snd (run_state (with_sock i f) b)) \<and> ledger (snd (run_state (with_sock i f) b)) = ledger b"
    if "distinct_keys b" for b
  proof (cases "map_of (sockets b) i")
    case (Some s)
    then show ?thesis
      using put_sock_ledger [OF Some assms that, of "fst (run_state (f s) b)" "snd (run_state (f s) b)"]
      by (simp add: run_with_sock)
  qed (simp add: run_with_sock that)
  then show ?thesis by (simp add: moves_def)
qed

lemma finish_state_released:
  "released (log (snd (run_state (finish_state err s) b))) = released (log b) + holds s"
  by (simp add: released_drop_events holds_def releases_def ac_simps split: option.split)

lemma moves_close_then:
  assumes F: "\<And>s b. sockets (snd (run_state (F s) b)) = sockets b
      \<and> released (log (snd (run_state (F s) b))) = released (log b) + holds s"
  shows "moves {#} (do { entry \<leftarrow> close_and_release i; if_some entry F })"
proof -
  let ?m = "do { entry \<leftarrow> close_and_release i; if_some entry F }"
  have "distinct_keys (snd (run_state ?m b)) \<and> ledger (snd (run_state ?m b)) = ledger b"
    if d: "distinct_keys b" for b
  proof -
    let ?b = "snd (run_state (close_and_release i) b)"
    have rel: "released (log ?b) = released (log b)"
      by (simp add: releases_def)
    have keys: "distinct (map fst (sockets ?b))"
      using d by (simp add: distinct_keys_def distinct_delete)
    have hd: "held (sockets ?b) + (case map_of (sockets b) i of None \<Rightarrow> {#} | Some s \<Rightarrow> holds s) = held (sockets b)"
      using held_delete d by (simp add: distinct_keys_def)
    show ?thesis
    proof (cases "map_of (sockets b) i")
      case None
      then have "run_state ?m b = ((), ?b)" by (simp add: if_some_def)
      then show ?thesis using None rel keys hd by (simp add: ledger_def distinct_keys_def)
    next
      case (Some s)
      then have m: "run_state ?m b = run_state (F s) ?b" by (simp add: if_some_def)
      have "released (log (snd (run_state (F s) ?b))) = released (log b) + holds s"
        and "sockets (snd (run_state (F s) ?b)) = sockets ?b"
        using F [of s ?b] rel by simp_all
      then show ?thesis
        unfolding m ledger_def distinct_keys_def using Some keys hd by (simp add: ac_simps)
    qed
  qed
  then show ?thesis by (simp add: moves_def)
qed

lemma moves_close_finish [moves]:
  "moves {#} (do { entry \<leftarrow> close_and_release i; if_some entry (finish_state err) })"
proof (rule moves_close_then)
  fix s b
  show "sockets (snd (run_state (finish_state err s) b)) = sockets b
    \<and> released (log (snd (run_state (finish_state err s) b))) = released (log b) + holds s"
    using finish_state_released [of err s b] by simp
qed

lemma moves_close_drop [moves]:
  "moves {#} (do { entry \<leftarrow> close_and_release i; if_some entry drop_state })"
  by (rule moves_close_then) (simp add: released_drop_events ac_simps)

lemma moves_is_zombie [moves]: "moves {#} (is_zombie E i)"
  unfolding is_zombie_def is_closed_def by (intro moves) (simp add: releases_def)

lemma moves_cleanup_zombies [moves]: "moves {#} (cleanup_zombies E)"
  unfolding cleanup_zombies_def by (intro moves)

section \<open>Reaping and shutting down\<close>

text \<open>\<open>adds_events m es b\<close>: running \<open>m\<close> in \<open>b\<close> adds the events \<open>es\<close> to the log.\<close>

definition adds_events :: "bridge \<Rightarrow> bridge \<Rightarrow> event list \<Rightarrow> bool" where
  "adds_events b b' es \<longleftrightarrow> log b' = es @ log b"

lemma AList_delete_filter: "AList.delete i m = filter (\<lambda>e. fst e \<noteq> i) m"
  by (auto simp: AList.delete_eq case_prod_unfold intro: filter_cong)

lemma set_AList_update: "set (AList.update i s m) \<subseteq> insert (i, s) (set m)"
  by (induction m) auto

lemma map_of_filter_keys: "map_of (filter (\<lambda>e. fst e \<notin> A) m) i = (if i \<in> A then None else map_of m i)"
  by (induction m) auto

text \<open>No reply is dropped unanswered.\<close>

definition answered :: "event list \<Rightarrow> bool" where
  "answered es \<longleftrightarrow> (\<forall>r. EvReplyDropped r \<notin> set es)"

lemma answered_simps [simp]:
  "answered []" "answered (es @ es') \<longleftrightarrow> answered es \<and> answered es'"
  "answered (ev # es) \<longleftrightarrow> (\<forall>r. ev \<noteq> EvReplyDropped r) \<and> answered es"
  by (auto simp: answered_def)

lemma answered_drop_events [simp]: "answered (drop_events (s\<lparr> ss_connect_reply := None \<rparr>))"
  by (simp add: answered_def drop_events_def split: option.split)

lemma close_each:
  fixes F :: "socket_id \<Rightarrow> unit io"
  assumes F: "\<And>i b. sockets (snd (run_state (F i) b)) = AList.delete i (sockets b)
      \<and> (\<exists>es. adds_events b (snd (run_state (F i) b)) es \<and> answered es
           \<and> (i \<in> fst ` set (sockets b) \<longrightarrow> EvClose i \<in> set es))"
  shows "sockets (snd (run_state (for_each F ids) b)) = filter (\<lambda>e. fst e \<notin> set ids) (sockets b)
    \<and> (\<exists>es. adds_events b (snd (run_state (for_each F ids) b)) es \<and> answered es
         \<and> (\<forall>i \<in> set ids \<inter> fst ` set (sockets b). EvClose i \<in> set es))"
proof (induction ids arbitrary: b)
  case Nil
  then show ?case by (simp add: adds_events_def)
next
  case (Cons i ids)
  let ?b = "snd (run_state (F i) b)"
  obtain es where es: "adds_events b ?b es" "i \<in> fst ` set (sockets b) \<longrightarrow> EvClose i \<in> set es" "answered es"
    using F by blast
  obtain es' where es': "adds_events ?b (snd (run_state (for_each F ids) ?b)) es'" "answered es'"
    "\<forall>j \<in> set ids \<inter> fst ` set (sockets ?b). EvClose j \<in> set es'"
    using Cons.IH [of ?b] by blast
  have del: "sockets ?b = filter (\<lambda>e. fst e \<noteq> i) (sockets b)"
    using F by (simp add: AList_delete_filter)
  have "sockets (snd (run_state (for_each F ids) ?b)) = filter (\<lambda>e. fst e \<notin> set ids) (sockets ?b)"
    using Cons.IH by blast
  then have "sockets (snd (run_state (for_each F (i # ids)) b)) = filter (\<lambda>e. fst e \<notin> set (i # ids)) (sockets b)"
    by (simp add: del case_prod_beta conj_commute)
  moreover have "adds_events b (snd (run_state (for_each F (i # ids)) b)) (es' @ es)"
    using es(1) es'(1) by (simp add: adds_events_def case_prod_beta)
  moreover have "\<forall>j \<in> set (i # ids) \<inter> fst ` set (sockets b). EvClose j \<in> set (es' @ es)"
    using es(2) es'(3) by (force simp: del)
  moreover have "answered (es' @ es)" using es(3) es'(2) by simp
  ultimately show ?case by blast
qed

lemma close_finish_step:
  "let b' = snd (run_state (do { entry \<leftarrow> close_and_release i; if_some entry (finish_state err) }) b) in
   sockets b' = AList.delete i (sockets b)
   \<and> (\<exists>es. adds_events b b' es \<and> answered es \<and> (i \<in> fst ` set (sockets b) \<longrightarrow> EvClose i \<in> set es))"
  by (simp add: run_if_some adds_events_def Let_def split: option.split)

definition zombie_class :: "socket_state \<Rightarrow> bool" where
  "zombie_class s \<longleftrightarrow> is_terminal_status (ss_last_status s) \<and> \<not> ss_is_listener s \<and> \<not> ss_is_group s"

lemma run_is_zombie:
  "sockets (snd (run_state (is_zombie E i) b)) = sockets b"
  "(\<exists>es. adds_events b (snd (run_state (is_zombie E i) b)) es)"
  "fst (run_state (is_zombie E i) b) \<Longrightarrow> \<exists>s. map_of (sockets b) i = Some s \<and> zombie_class s"
  "map_of (sockets b) i = Some s \<Longrightarrow> zombie_class s \<Longrightarrow> ss_recv_tx s = None \<Longrightarrow> fst (run_state (is_zombie E i) b)"
  by (auto simp: is_zombie_def is_closed_def zombie_class_def adds_events_def split: option.splits if_splits)

lemma run_filter_zombies:
  "sockets (snd (run_state (filter_m (is_zombie E) ids) b)) = sockets b
   \<and> (\<exists>es. adds_events b (snd (run_state (filter_m (is_zombie E) ids) b)) es)
   \<and> (\<forall>i \<in> set (fst (run_state (filter_m (is_zombie E) ids) b)).
        \<exists>s. map_of (sockets b) i = Some s \<and> zombie_class s)
   \<and> (\<forall>i \<in> set ids. \<forall>s. map_of (sockets b) i = Some s \<longrightarrow> zombie_class s \<longrightarrow> ss_recv_tx s = None
        \<longrightarrow> i \<in> set (fst (run_state (filter_m (is_zombie E) ids) b)))"
proof (induction ids arbitrary: b)
  case Nil
  then show ?case by (simp add: adds_events_def)
next
  case (Cons i ids)
  let ?b = "snd (run_state (is_zombie E i) b)"
  have step: "sockets ?b = sockets b" and "\<exists>es. adds_events b ?b es"
    by (rule run_is_zombie)+
  then obtain es where es: "log ?b = es @ log b" by (auto simp: adds_events_def)
  note IH = Cons.IH [of ?b]
  then obtain es' where "log (snd (run_state (filter_m (is_zombie E) ids) ?b)) = es' @ log ?b"
    by (auto simp: adds_events_def)
  with es have "\<exists>es. adds_events b (snd (run_state (filter_m (is_zombie E) (i # ids)) b)) es"
    by (simp add: adds_events_def case_prod_beta)
  then show ?case
    using IH run_is_zombie(3) [of E i b] run_is_zombie(4) [of b i _ E]
    by (auto simp: step case_prod_beta)
qed

text \<open>
  An environment for concrete runs: every libsrt call fails, the channels are empty and open, the
  map is iterated in insertion order, and every socket and member is gone.
\<close>

definition quiet_env :: env where
  "quiet_env =
     \<lparr> e_now = (\<lambda>_. 0), e_getlasterror = (\<lambda>_. 0), e_create_socket = (\<lambda>_. - 1), e_create_group = (\<lambda>_ _. - 1),
       e_getsockflag = (\<lambda>_ _ _. (- 1, 0)), e_getstreamid = (\<lambda>_ _. (- 1, [])), e_bind = (\<lambda>_ _ _. - 1),
       e_listen_callback = (\<lambda>_ _ _. - 1), e_listen = (\<lambda>_ _ _. - 1), e_connect = (\<lambda>_ _ _. - 1),
       e_accept = (\<lambda>_ _. - 1), e_getsockstate = (\<lambda>_ _. SRTS_NONEXIST),
       e_epoll_uwait = (\<lambda>_ _. (0, [])), e_recvmsg2 = (\<lambda>_ _. (- 1, [], 0)), e_sendmsg2 = (\<lambda>_ _ _. - 1),
       e_group_data = (\<lambda>_ _ _. (- 1, 0, [])),
       e_prepare_endpoint = (\<lambda>src dst. \<lparr> tg_id = - 1, tg_peeraddr = dst,
         tg_srcaddr = (case src of None \<Rightarrow> Sockaddr_other | Some a \<Rightarrow> a), tg_weight = 0, tg_token = - 1,
         tg_errorcode = 0 \<rparr>),
       e_connect_group = (\<lambda>_ _ ts. (- 1, ts)), e_bistats = (\<lambda>_ _. (- 1, undefined)),
       e_getpeername = (\<lambda>_ _. (- 1, Sockaddr_other)), e_getsockname = (\<lambda>_ _. (- 1, Sockaddr_other)),
       e_next_cmd = (\<lambda>_. CmdEmpty), e_order = (\<lambda>_ ks. ks), e_try_recv = (\<lambda>_ _. RecvEmpty),
       e_try_send = (\<lambda>_ _ _. False), e_is_closed = (\<lambda>_ _. False), e_little_endian = True, e_fuel = 0 \<rparr>"

definition start :: bridge where
  "start = \<lparr> log = [], sockets = [], stranded_repairs = 0 \<rparr>"

text \<open>
  Claim C20. The zombie reaper. It changes no entry it keeps. It removes only entries in a
  terminal state that are neither listeners nor groups, and closes each of them in libsrt; and it
  does remove every such entry whose receive end is already gone, so a dead connection with no
  reader does not stay behind.
\<close>

theorem cleanup_zombies_exact:
  assumes "distinct_keys b" and "\<And>l ks. set (e_order E l ks) = set ks"
  shows "let b' = snd (run_state (cleanup_zombies E) b) in
    \<exists>es. adds_events b b' es \<and> (\<forall>i s. map_of (sockets b) i = Some s \<longrightarrow>
      map_of (sockets b') i = Some s
        \<and> (zombie_class s \<longrightarrow> ss_recv_tx s \<noteq> None)
      \<or> map_of (sockets b') i = None \<and> zombie_class s \<and> EvClose i \<in> set es)"
proof -
  define b1 where "b1 = snd (run_state (sock_ids E) b)"
  define ids where "ids = fst (run_state (sock_ids E) b)"
  define b2 where "b2 = snd (run_state (filter_m (is_zombie E) ids) b1)"
  define buf where "buf = fst (run_state (filter_m (is_zombie E) ids) b1)"
  define b3 where "b3 = snd (run_state (cleanup_zombies E) b)"
  have ids: "set ids = fst ` set (sockets b)" using assms(2) by (simp add: ids_def)
  have b1: "sockets b1 = sockets b" "\<exists>es. adds_events b b1 es" by (simp_all add: b1_def adds_events_def)
  have b2: "sockets b2 = sockets b" "\<exists>es. adds_events b1 b2 es"
    and buf: "\<forall>i \<in> set buf. \<exists>s. map_of (sockets b) i = Some s \<and> zombie_class s"
    and all: "\<forall>i \<in> set ids. \<forall>s. map_of (sockets b) i = Some s \<longrightarrow> zombie_class s \<longrightarrow> ss_recv_tx s = None \<longrightarrow> i \<in> set buf"
    using run_filter_zombies [of E ids b1] by (simp_all add: b2_def buf_def b1(1))
  have b3': "b3 = snd (run_state (for_each (\<lambda>i. do { entry \<leftarrow> close_and_release i;
      if_some entry (finish_state Err_ConnectionLost) }) buf) b2)"
    by (simp add: b3_def cleanup_zombies_def b2_def buf_def b1_def ids_def case_prod_beta)
  obtain es where b3: "sockets b3 = filter (\<lambda>e. fst e \<notin> set buf) (sockets b)"
    "adds_events b2 b3 es" "\<forall>i \<in> set buf \<inter> fst ` set (sockets b). EvClose i \<in> set es"
    using close_each [of "\<lambda>i. do { entry \<leftarrow> close_and_release i;
      if_some entry (finish_state Err_ConnectionLost) }" buf b2] close_finish_step
    unfolding b3' b2(1) by (auto simp: Let_def)
  obtain es' where es': "adds_events b b3 es'" "set es \<subseteq> set es'"
    using b1(2) b2(2) b3(2) by (fastforce simp: adds_events_def)
  have m3: "map_of (sockets b3) i = (if i \<in> set buf then None else map_of (sockets b) i)" for i
    unfolding b3(1) by (rule map_of_filter_keys)
  have "map_of (sockets b3) i = Some s \<and> (zombie_class s \<longrightarrow> ss_recv_tx s \<noteq> None)
      \<or> map_of (sockets b3) i = None \<and> zombie_class s \<and> EvClose i \<in> set es'"
    if s: "map_of (sockets b) i = Some s" for i s
  proof -
    have i: "i \<in> fst ` set (sockets b)" using map_of_SomeD [OF s] by force
    show ?thesis
    proof (cases "i \<in> set buf")
      case True
      then show ?thesis using s i buf b3(3) es'(2) by (auto simp: m3)
    next
      case False
      then show ?thesis using s i all ids by (auto simp: m3)
    qed
  qed
  with es'(1) show ?thesis unfolding b3_def Let_def by blast
qed

theorem cleanup_zombies_exact_witness:
  "\<exists>b s. distinct_keys b \<and> (\<forall>l ks. set (e_order quiet_env l ks) = set ks) \<and> zombie_class s
     \<and> map_of (sockets b) 7 = Some s \<and> map_of (sockets (snd (run_state (cleanup_zombies quiet_env) b))) 7 = None"
proof -
  let ?s = "(new_socket_state False False False)\<lparr> ss_last_status := S_Broken \<rparr>"
  let ?b = "start\<lparr> sockets := [(7, ?s)] \<rparr>"
  have h: "distinct_keys ?b" "\<And>l ks. set (e_order quiet_env l ks) = set ks"
    by (simp_all add: distinct_keys_def start_def quiet_env_def)
  have "zombie_class ?s" "ss_recv_tx ?s = None"
    by (simp_all add: zombie_class_def new_socket_state_def)
  moreover have "map_of (sockets ?b) 7 = Some ?s" by simp
  ultimately have "map_of (sockets (snd (run_state (cleanup_zombies quiet_env) ?b))) 7 = None"
    using cleanup_zombies_exact [OF h] unfolding Let_def by (metis (no_types, lifting))
  with h \<open>zombie_class ?s\<close> \<open>map_of (sockets ?b) 7 = Some ?s\<close> show ?thesis by blast
qed

text \<open>Shutting down.\<close>

lemma cleanup_one_step:
  "sockets (snd (run_state (cleanup_one i) b)) = AList.delete i (sockets b)
   \<and> (\<exists>es. adds_events b (snd (run_state (cleanup_one i) b)) es \<and> answered es \<and> (i \<in> fst ` set (sockets b) \<longrightarrow> EvClose i \<in> set es))"
  by (auto simp: cleanup_one_def run_if_some adds_events_def srt_close_def map_of_eq_None_iff split: option.split)

lemma moves_cleanup_one: "moves {#} (cleanup_one i)"
proof -
  have "ledger (snd (run_state (cleanup_one i) b)) = ledger b" if d: "distinct_keys b" for b
  proof -
    have "released (log (snd (run_state (cleanup_one i) b)))
        = released (log b) + (case map_of (sockets b) i of None \<Rightarrow> {#} | Some s \<Rightarrow> holds s)"
      using finish_state_released
      by (simp add: cleanup_one_def run_if_some srt_close_def releases_def released_drop_events holds_def ac_simps
          split: option.split)
    then show ?thesis
      using held_delete [of "sockets b" i] d cleanup_one_step [of i b]
      by (simp add: ledger_def distinct_keys_def ac_simps)
  qed
  then show ?thesis
    using cleanup_one_step by (simp add: moves_def distinct_keys_def distinct_delete)
qed

lemma cleanup_empty:
  assumes "\<And>l ks. set (e_order E l ks) = set ks"
  shows "sockets (snd (run_state (cleanup E) b)) = []"
proof -
  define b1 where "b1 = snd (run_state (sock_ids E) b)"
  define ids where "ids = fst (run_state (sock_ids E) b)"
  have "set ids = fst ` set (sockets b1)" using assms by (simp add: ids_def b1_def)
  moreover have "sockets (snd (run_state (for_each cleanup_one ids) b1)) = filter (\<lambda>e. fst e \<notin> set ids) (sockets b1)"
    using close_each [of cleanup_one ids b1] cleanup_one_step by blast
  ultimately show ?thesis
    by (simp add: cleanup_def b1_def ids_def case_prod_beta filter_empty_conv)
qed

lemma moves_cleanup [moves]: "moves {#} (cleanup E)"
  unfolding cleanup_def by (intro moves moves_cleanup_one) (simp add: releases_def)

text \<open>
  Shutting down. Whatever the thread still tracks, cleanup leaves no entry, closes every
  tracked socket in libsrt, and gives up each resource the entries held exactly once: every
  pending connect is answered, every channel end is dropped and every access-control allocation is
  freed.
\<close>

lemma cleanup_releases_all:
  assumes "distinct_keys b" and "\<And>l ks. set (e_order E l ks) = set ks"
  shows "let b' = snd (run_state (cleanup E) b) in
    sockets b' = [] \<and> released (log b') = ledger b
    \<and> (\<exists>es. adds_events b b' es \<and> answered es \<and> (\<forall>i \<in> fst ` set (sockets b). EvClose i \<in> set es))"
proof -
  define b1 where "b1 = snd (run_state (sock_ids E) b)"
  define ids where "ids = fst (run_state (sock_ids E) b)"
  define b2 where "b2 = snd (run_state (for_each cleanup_one ids) b1)"
  have ids: "set ids = fst ` set (sockets b)" using assms(2) by (simp add: ids_def)
  have b1: "sockets b1 = sockets b" "adds_events b b1 [EvOrder ids]"
    by (simp_all add: b1_def adds_events_def ids_def)
  have b': "snd (run_state (cleanup E) b) = b2\<lparr> log := EvEpollRelease # log b2 \<rparr>"
    by (simp add: cleanup_def b2_def b1_def ids_def case_prod_beta)
  obtain es where b2: "sockets b2 = filter (\<lambda>e. fst e \<notin> set ids) (sockets b)"
    "adds_events b1 b2 es" "\<forall>i \<in> set ids \<inter> fst ` set (sockets b). EvClose i \<in> set es" "answered es"
    using close_each [of cleanup_one ids b1] cleanup_one_step unfolding b2_def b1(1) by blast
  have empty: "sockets b2 = []" using cleanup_empty [OF assms(2), of b] by (simp add: b')
  have "ledger (b2\<lparr> log := EvEpollRelease # log b2 \<rparr>) = ledger b"
    using moves_cleanup [of E] assms(1) by (simp add: moves_def b' [symmetric])
  then have "ledger b2 = ledger b" by (simp add: ledger_def releases_def)
  then have "released (log b2) = ledger b"
    by (simp add: ledger_def empty held_def)
  moreover have "adds_events b (b2\<lparr> log := EvEpollRelease # log b2 \<rparr>) (EvEpollRelease # es @ [EvOrder ids])"
    using b1(2) b2(2) by (simp add: adds_events_def)
  ultimately show ?thesis
    unfolding b' Let_def using empty b2(3,4) ids by (fastforce simp: releases_def)
qed

end
