(* ===== verification/Frames.thy ===== *)
theory Frames
  imports Sockets
begin

text \<open>
  What an operation of the I/O thread leaves alone. Most of them only call libsrt and record the
  call; \<open>calls_since\<close> and the weaker \<open>quiet_since\<close> (which admits closing sockets) say so, and imply
  that the socket map and the ledger of \<open>Sockets\<close> are unchanged. \<open>tame\<close> is the corresponding fact for a
  computation that writes one entry back.
\<close>

section \<open>Events that matter\<close>

definition close_of :: "event \<Rightarrow> socket_id multiset" where
  "close_of ev = (case ev of EvClose i \<Rightarrow> {#i#} | _ \<Rightarrow> {#})"

definition closes :: "event list \<Rightarrow> socket_id multiset" where
  "closes l = sum_list (map close_of l)"

lemma closes_simps [simp]:
  "closes [] = {#}" "closes (ev # l) = close_of ev + closes l" "closes (l @ l') = closes l + closes l'"
  "close_of (EvClose i) = {#i#}"
  by (simp_all add: closes_def close_of_def)

definition is_arm :: "event \<Rightarrow> bool" where
  "is_arm ev = (case ev of EvListenCallback _ _ _ \<Rightarrow> True | _ \<Rightarrow> False)"

definition quiet_ev :: "event \<Rightarrow> bool" where
  "quiet_ev ev \<longleftrightarrow> releases ev = {#} \<and> \<not> is_arm ev"

definition inert :: "event \<Rightarrow> bool" where
  "inert ev \<longleftrightarrow> quiet_ev ev \<and> close_of ev = {#}"

lemmas ev_defs = inert_def quiet_ev_def is_arm_def close_of_def releases_def

lemma quiet_events_released: "list_all quiet_ev es \<Longrightarrow> released es = {#}"
  by (induction es) (simp_all add: quiet_ev_def)

lemma inert_events_closes: "list_all inert es \<Longrightarrow> closes es = {#}"
  by (induction es) (simp_all add: inert_def)

section \<open>Calls\<close>

definition calls_since :: "bridge \<Rightarrow> bridge \<Rightarrow> bool" where
  "calls_since b0 b \<longleftrightarrow> sockets b = sockets b0 \<and> stranded_repairs b = stranded_repairs b0
     \<and> (\<exists>es. log b = es @ log b0 \<and> list_all inert es)"

definition quiet_since :: "bridge \<Rightarrow> bridge \<Rightarrow> bool" where
  "quiet_since b0 b \<longleftrightarrow> sockets b = sockets b0 \<and> (\<exists>es. log b = es @ log b0 \<and> list_all quiet_ev es)"

named_theorems calls \<open>operations that only call libsrt\<close>
named_theorems quiet \<open>operations that leave the map and the ledger alone\<close>

lemma calls_refl [simp]: "calls_since b b"
  by (simp add: calls_since_def)

lemma quiet_refl [simp]: "quiet_since b b"
  by (simp add: quiet_since_def)

lemma calls_log: "calls_since b0 b \<Longrightarrow> inert ev \<Longrightarrow> calls_since b0 (b\<lparr> log := ev # log b \<rparr>)"
  unfolding calls_since_def by (auto intro: exI [of _ "ev # es" for es])

lemma quiet_log: "quiet_since b0 b \<Longrightarrow> quiet_ev ev \<Longrightarrow> quiet_since b0 (b\<lparr> log := ev # log b \<rparr>)"
  unfolding quiet_since_def by (auto intro: exI [of _ "ev # es" for es])

lemma calls_ask [calls]: "(\<And>x. inert (ev x)) \<Longrightarrow> keeps (calls_since b0) (ask f ev)"
  by (rule keepsI) (auto intro: calls_log)

lemma calls_emit [calls]: "inert ev \<Longrightarrow> keeps (calls_since b0) (emit ev)"
  by (rule keepsI) (auto intro: calls_log)

lemma quiet_emit: "quiet_ev ev \<Longrightarrow> keeps (quiet_since b0) (emit ev)"
  by (rule keepsI) (auto intro: quiet_log)

lemma calls_prims [calls]:
  "keeps (calls_since b0) (instant_now E)" "keeps (calls_since b0) (last_srt_error E)"
  "keeps (calls_since b0) (srt_getsockstate E i)" "keeps (calls_since b0) (srt_getsockflag E i opt)"
  "keeps (calls_since b0) (srt_group_data E i n)" "keeps (calls_since b0) (srt_connect_group E i ts)"
  "keeps (calls_since b0) (srt_recvmsg2 E i)" "keeps (calls_since b0) (srt_sendmsg2 E i d)"
  "keeps (calls_since b0) (srt_accept E i)" "keeps (calls_since b0) (try_recv E c)"
  "keeps (calls_since b0) (is_closed E c)"
  unfolding prim_defs by (intro keep calls; simp add: ev_defs)+

lemma calls_lookup [calls]: "keeps (calls_since b0) (lookup_sock i)"
  by (rule keepsI) simp

lemma calls_sock_ids [calls]: "keeps (calls_since b0) (sock_ids E)"
  by (rule keepsI) (auto intro: calls_log simp: ev_defs)

lemma calls_set_opts [calls]: "keeps (calls_since b0) (set_opts i opts)"
  unfolding set_opts_def by (intro keep calls) (simp add: ev_defs)

lemma calls_config [calls]:
  "keeps (calls_since b0) (set_nonblocking i)" "keeps (calls_since b0) (apply_config i c)"
  unfolding set_nonblocking_def apply_config_def by (intro calls)+

lemma keep_if_some [keep]: "(\<And>y. x = Some y \<Longrightarrow> keeps I (f y)) \<Longrightarrow> keeps I (if_some x f)"
  unfolding if_some_def by (intro keep)

lemma callsD:
  assumes "\<And>b0. keeps (calls_since b0) m"
  shows "sockets (snd (run_state m b)) = sockets b" "closes (log (snd (run_state m b))) = closes (log b)"
    "released (log (snd (run_state m b))) = released (log b)"
    "stranded_repairs (snd (run_state m b)) = stranded_repairs b"
proof -
  obtain es where "log (snd (run_state m b)) = es @ log b" "list_all inert es"
    using keepsD [OF assms calls_refl, of b] by (auto simp: calls_since_def)
  moreover from this(2) have "list_all quiet_ev es" by (auto simp: list_all_iff inert_def)
  ultimately show "closes (log (snd (run_state m b))) = closes (log b)"
    "released (log (snd (run_state m b))) = released (log b)"
    by (simp_all add: inert_events_closes quiet_events_released)
  show "sockets (snd (run_state m b)) = sockets b" "stranded_repairs (snd (run_state m b)) = stranded_repairs b"
    using keepsD [OF assms calls_refl, of b] by (simp_all add: calls_since_def)
qed

lemma calls_quiet:
  assumes "\<And>b0. keeps (calls_since b0) m"
  shows "keeps (quiet_since b0) m"
proof (rule keepsI)
  fix b a b'
  assume "quiet_since b0 b" and r: "run_state m b = (a, b')"
  then obtain es where es: "sockets b = sockets b0" "log b = es @ log b0" "list_all quiet_ev es"
    by (auto simp: quiet_since_def)
  have "calls_since b b'" using keepsE [OF assms calls_refl r] .
  then obtain es' where "sockets b' = sockets b" "log b' = es' @ log b" "list_all inert es'"
    by (auto simp: calls_since_def)
  then show "quiet_since b0 b'"
    using es by (auto simp: quiet_since_def inert_def list_all_iff intro!: exI [of _ "es' @ es"])
qed

lemma quiet_close [quiet]: "keeps (quiet_since b0) (srt_close i)"
  unfolding srt_close_def by (rule quiet_emit) (simp add: ev_defs)

lemma quiet_ledger:
  assumes "\<And>b0. keeps (quiet_since b0) m"
  shows "sockets (snd (run_state m b)) = sockets b" "released (log (snd (run_state m b))) = released (log b)"
    "ledger (snd (run_state m b)) = ledger b" "distinct_keys (snd (run_state m b)) = distinct_keys b"
  using keepsD [OF assms quiet_refl, of b]
  by (auto simp: quiet_since_def ledger_def distinct_keys_def quiet_events_released)

section \<open>Computations on one entry\<close>

text \<open>A computation on the entry of \<open>i\<close>: it keeps the ledger if it writes back what holds the same.\<close>

definition tame :: "socket_id \<Rightarrow> socket_state option \<Rightarrow> 'a io \<Rightarrow> bool" where
  "tame i entry m \<longleftrightarrow> (\<forall>b. map_of (sockets b) i = entry \<and> distinct_keys b \<longrightarrow>
     distinct_keys (snd (run_state m b)) \<and> ledger (snd (run_state m b)) = ledger b)"

named_theorems tame \<open>computations on one entry\<close>

lemma tame_return [tame]: "tame i entry (return x)"
  by (simp add: tame_def)

lemma tame_bind [tame]:
  assumes "\<And>b0. keeps (quiet_since b0) m" and "\<And>x. tame i entry (f x)"
  shows "tame i entry (State_Monad.bind m f)"
  using assms(2) unfolding tame_def
  by (simp add: case_prod_beta quiet_ledger [OF assms(1)])

lemma tame_put:
  assumes "holds s' = holds s"
  shows "tame i (Some s) (State_Monad.bind (put_sock i s') (\<lambda>_. return x))"
  using put_sock_ledger [OF _ conserves_return, of _ i s s' "{#}", simplified, OF _ assms]
  by (simp add: tame_def)

lemma tame_if [tame]: "(c \<Longrightarrow> tame i e m) \<Longrightarrow> (\<not> c \<Longrightarrow> tame i e n) \<Longrightarrow> tame i e (if c then m else n)"
  by simp

lemma tame_option [tame]:
  "(x = None \<Longrightarrow> tame i e m) \<Longrightarrow> (\<And>y. x = Some y \<Longrightarrow> tame i e (f y)) \<Longrightarrow> tame i e (case x of None \<Rightarrow> m | Some y \<Rightarrow> f y)"
  by (cases x) simp_all

lemma tame_sum [tame]:
  "(\<And>y. x = Inl y \<Longrightarrow> tame i e (f y)) \<Longrightarrow> (\<And>y. x = Inr y \<Longrightarrow> tame i e (g y))
    \<Longrightarrow> tame i e (case x of Inl y \<Rightarrow> f y | Inr y \<Rightarrow> g y)"
  by (cases x) simp_all

lemma tame_Let [tame]: "(\<And>y. y = x \<Longrightarrow> tame i e (f y)) \<Longrightarrow> tame i e (let y = x in f y)"
  by simp

lemma moves_lookup [moves]: "(\<And>entry. tame i entry (f entry)) \<Longrightarrow> moves {#} (State_Monad.bind (lookup_sock i) f)"
  by (simp add: moves_def tame_def)

lemma moves_quiet: "(\<And>b0. keeps (quiet_since b0) m) \<Longrightarrow> moves {#} m"
  by (simp add: moves_def quiet_ledger)

lemma holds_watched [simp]: "holds (s\<lparr> ss_watched := ws \<rparr>) = holds s"
  by (simp add: holds_def)

end
