(* ===== verification/Members.thy ===== *)
theory Members
  imports Frames
begin

text \<open>
  Group members (\<^verbatim>\<open>srt-transport/src/epoll_bridge.rs\<close>): connecting them, listing them, and the
  periodic check that replaces a member libsrt stranded. The decisions are in the theory \<open>Watch\<close>;
  here are the calls around them, in the order the source makes them. Log messages are left out.

  \<^verbatim>\<open>Vec\<close> buffers that a call fills are passed as lists: \<open>read_group_rows\<close> takes the old contents,
  whose length is the capacity it offers libsrt.
\<close>

section \<open>Listing and connecting\<close>

definition read_group_rows :: "env \<Rightarrow> socket_id \<Rightarrow> group_row list \<Rightarrow> group_row list io" where
  "read_group_rows E grp buf = do {
     let cap = max 8 (length buf);
     (ret, count, rows) \<leftarrow> srt_group_data E grp cap;
     (ret, count, rows) \<leftarrow>
       (if ret < 0 \<and> count > cap then srt_group_data E grp count else return (ret, count, rows));
     return (if ret < 0 then [] else take count rows)
   }"

definition connect_timeout_of :: "env \<Rightarrow> socket_id \<Rightarrow> duration io" where
  "connect_timeout_of E m = do {
     (ret, ms) \<leftarrow> srt_getsockflag E m SRTO_CONNTIMEO;
     return (if ret < 0 \<or> ms \<le> 0 then DEFAULT_CONNECT_TIMEOUT else from_millis (nat ms))
   }"

definition watched_spawned :: "env \<Rightarrow> socket_id \<Rightarrow> group_endpoint \<Rightarrow> instant \<Rightarrow> watched_member io" where
  "watched_spawned E i ep now = do {
     t \<leftarrow> connect_timeout_of E i;
     return (watched_new i ep (now + t + HANDSHAKE_TTL_SLACK) now)
   }"

definition latency_of :: "env \<Rightarrow> socket_id \<Rightarrow> sockopt \<Rightarrow> nat io" where
  "latency_of E m opt = do {
     (ret, ms) \<leftarrow> srt_getsockflag E m opt;
     return (if ret < 0 then 0 else nat (max ms 0))
   }"

definition superseded_linger :: "env \<Rightarrow> socket_id \<Rightarrow> duration io" where
  "superseded_linger E m = do {
     rcv \<leftarrow> latency_of E m SRTO_RCVLATENCY;
     peer \<leftarrow> latency_of E m SRTO_PEERLATENCY;
     return (from_millis (max rcv peer) + SUPERSEDED_LINGER_SLACK)
   }"

definition prepare_target :: "env \<Rightarrow> group_endpoint \<Rightarrow> target" where
  "prepare_target E ep =
     (let dst = socket_addr_to_sockaddr (e_little_endian E) (ep_addr ep);
          src = map_option (socket_addr_to_sockaddr (e_little_endian E)) (ep_local_addr ep)
      in (e_prepare_endpoint E src dst)
           \<lparr> tg_weight := min (ep_weight ep) MAX_GROUP_MEMBER_WEIGHT, tg_token := ep_token ep \<rparr>)"

record group_connect =
  gc_refused :: "srt_error option"
  gc_members :: "(srt_error + socket_id) list"

definition group_connect_single :: "group_connect \<Rightarrow> srt_error + socket_id" where
  "group_connect_single gc =
     (case (gc_members gc, gc_refused gc) of
        (Inr m # _, _) \<Rightarrow> Inr m
      | (_, Some err) \<Rightarrow> Inl err
      | (Inl err # _, None) \<Rightarrow> Inl err
      | ([], None) \<Rightarrow> Inl Err_ConnectionLost)"

definition target_result :: "target \<Rightarrow> srt_error + socket_id" where
  "target_result t =
     (if tg_id t \<ge> 0 \<and> tg_errorcode t = 0 then Inr (tg_id t)
      else if tg_errorcode t \<noteq> 0 then Inl (from_code (tg_errorcode t))
      else Inl Err_ConnectionLost)"

text \<open>Members libsrt reports failed without an error but keeps in the group are claimed, each once.\<close>

fun claim_kept ::
  "group_row list \<Rightarrow> socket_id list \<Rightarrow> socket_id list \<Rightarrow> (target \<times> (srt_error + socket_id)) list
    \<Rightarrow> (srt_error + socket_id) list" where
  "claim_kept rows before claimed [] = []"
| "claim_kept rows before claimed ((t, m) # tms) =
     (if tg_id t \<ge> 0 \<or> tg_errorcode t \<noteq> 0 then m # claim_kept rows before claimed tms
      else case find (\<lambda>r. row_token r = tg_token t \<and> row_id r \<notin> set before \<and> row_id r \<notin> set claimed) rows of
             None \<Rightarrow> m # claim_kept rows before claimed tms
           | Some r \<Rightarrow> Inr (row_id r) # claim_kept rows before (claimed @ [row_id r]) tms)"

definition oks :: "('e + 'a) list \<Rightarrow> 'a list" where
  "oks xs = List.map_filter (\<lambda>x. case x of Inl _ \<Rightarrow> None | Inr y \<Rightarrow> Some y) xs"

definition connect_group :: "env \<Rightarrow> socket_id \<Rightarrow> group_endpoint list \<Rightarrow> group_connect io" where
  "connect_group E grp endpoints =
     (if endpoints = [] then return \<lparr> gc_refused = Some Err_InvalidParam, gc_members = [] \<rparr>
      else do {
        rows \<leftarrow> read_group_rows E grp [];
        let before = map row_id rows;
        (ret, targets) \<leftarrow> srt_connect_group E grp (map (prepare_target E) endpoints);
        refused \<leftarrow> (if ret < 0 then do {
            call_error \<leftarrow> last_srt_error E;
            return (Some (case find (\<lambda>t. tg_errorcode t \<noteq> 0) targets of
                            None \<Rightarrow> call_error | Some t \<Rightarrow> from_code (tg_errorcode t)))
          } else return None);
        let members = map target_result targets;
        members \<leftarrow> (if \<exists>t \<in> set targets. tg_id t < 0 \<and> tg_errorcode t = 0 then do {
            rows \<leftarrow> read_group_rows E grp rows;
            return (claim_kept rows before (oks members) (zip targets members))
          } else return members);
        return \<lparr> gc_refused = refused, gc_members = members \<rparr>
      })"

definition member_in_flight :: "env \<Rightarrow> group_row list \<Rightarrow> i32 \<Rightarrow> socket_id list \<Rightarrow> socket_id option io" where
  "member_in_flight E rows token exclude = do {
     r \<leftarrow> find_m (\<lambda>r. do {
            raw \<leftarrow> srt_getsockstate E (row_id r);
            return (in_flight (map_member_status (row_memberstate r)) (raw_state_to_status raw))
          }) (filter (\<lambda>r. row_token r = token \<and> row_id r \<notin> set exclude) rows);
     return (map_option row_id r)
   }"

definition live_group :: "socket_state option \<Rightarrow> socket_state option" where
  "live_group entry =
     (case entry of None \<Rightarrow> None
      | Some s \<Rightarrow> if ss_is_group s \<and> \<not> is_terminal_status (ss_last_status s) then Some s else None)"

definition add_group_member :: "env \<Rightarrow> socket_id \<Rightarrow> group_endpoint \<Rightarrow> (srt_error + unit) io" where
  "add_group_member E i endpoint = do {
     entry \<leftarrow> lookup_sock i;
     (case live_group entry of
        None \<Rightarrow> return (Inl Err_ConnectionLost)
      | Some s \<Rightarrow> do {
          raw \<leftarrow> srt_getsockstate E i;
          if raw \<noteq> SRTS_CONNECTED then return (Inl Err_ConnectionLost)
          else do {
            rows \<leftarrow> read_group_rows E i [];
            existing \<leftarrow> member_in_flight E rows (ep_token endpoint) [];
            (case existing of
               Some _ \<Rightarrow> return (Inr ())
             | None \<Rightarrow> do {
                 gc \<leftarrow> connect_group E i [endpoint];
                 (case group_connect_single gc of
                    Inl err \<Rightarrow> return (Inl err)
                  | Inr member \<Rightarrow> do {
                      now \<leftarrow> instant_now E;
                      w \<leftarrow> watched_spawned E member endpoint now;
                      _ \<leftarrow> put_sock i (s\<lparr> ss_watched := ss_watched s @ [w] \<rparr>);
                      return (Inr ())
                    })
               })
          }
        })
   }"

section \<open>Planning a repair\<close>

definition other_member_at_peer :: "env \<Rightarrow> group_row list \<Rightarrow> socket_id list \<Rightarrow> bool io" where
  "other_member_at_peer E rows exclude =
     any_m (\<lambda>r. do {
       raw \<leftarrow> srt_getsockstate E (row_id r);
       return (Watch.at_peer (map_member_status (row_memberstate r)) (raw_state_to_status raw))
     }) (filter (\<lambda>r. row_id r \<notin> set exclude) rows)"

definition other_member_broken_live ::
  "env \<Rightarrow> watched_member list \<Rightarrow> group_row list \<Rightarrow> socket_id list \<Rightarrow> bool io" where
  "other_member_broken_live E members rows exclude =
     any_m (\<lambda>e.
       if \<exists>r \<in> set rows. row_id r = wm_id e \<and> map_member_status (row_memberstate r) = M_Broken then do {
         raw \<leftarrow> srt_getsockstate E (wm_id e);
         return (raw = SRTS_CONNECTED)
       } else return False) (filter (\<lambda>e. wm_id e \<notin> set exclude) members)"

definition plan_repair ::
  "env \<Rightarrow> watched_member \<Rightarrow> bool \<Rightarrow> watched_member list \<Rightarrow> watched_member list \<Rightarrow> group_row list \<Rightarrow> instant
    \<Rightarrow> plan io" where
  "plan_repair E w broken watched spawned rows now = do {
     let token = ep_token (wm_endpoint w);
     let chain = repair_chain w;
     sibling \<leftarrow>
       (case find (\<lambda>e. ep_token (wm_endpoint e) = token) spawned of
          Some e \<Rightarrow> return (Some (wm_id e, True))
        | None \<Rightarrow> do {
            m \<leftarrow> member_in_flight E rows token chain;
            return (map_option (\<lambda>i. (i, \<exists>e \<in> set (watched @ spawned). wm_id e = i)) m)
          });
     up \<leftarrow> other_member_at_peer E rows chain;
     broken_live \<leftarrow> other_member_broken_live E (watched @ spawned) rows chain;
     let handshaking = other_member_handshaking (watched @ spawned) chain now;
     let (others_at_peer, others_resolving) = weigh_others broken up broken_live handshaking;
     return (repair_plan (wm_repairs w) sibling others_at_peer others_resolving)
   }"

definition close_members :: "socket_id list \<Rightarrow> unit io" where
  "close_members ids = for_each srt_close ids"

section \<open>Carrying it out\<close>

definition spawn_replacement ::
  "env \<Rightarrow> socket_id \<Rightarrow> watched_member \<Rightarrow> bool \<Rightarrow> watched_member list \<Rightarrow> instant \<Rightarrow> watched_member list io" where
  "spawn_replacement E grp w close_first spawned now = do {
     let chain = repair_chain w;
     _ \<leftarrow> (if close_first then close_members chain else return ());
     gc \<leftarrow> connect_group E grp [wm_endpoint w];
     (case group_connect_single gc of
        Inr new \<Rightarrow> do {
          next \<leftarrow> watched_spawned E new (wm_endpoint w) now;
          let next = next\<lparr> wm_repairs := wm_repairs w + 1 \<rparr>;
          let next = (if close_first then next else next\<lparr> wm_supersedes := chain \<rparr>);
          return (spawned @ [next])
        }
      | Inl err \<Rightarrow> do {
          _ \<leftarrow> (if close_first then return () else close_members chain);
          return spawned
        })
   }"

definition hand_over ::
  "socket_id \<Rightarrow> socket_id list \<Rightarrow> watched_member list \<Rightarrow> watched_member list" where
  "hand_over other chain ws =
     update_first (\<lambda>e. wm_id e = other) (\<lambda>e. e\<lparr> wm_supersedes := wm_supersedes e @ chain \<rparr>) ws"

text \<open>
  The result is the two lists after the repair. The source panics on \<open>Wait\<close>, which
  \<^verbatim>\<open>check_group\<close> never passes.
\<close>

definition repair_stranded ::
  "env \<Rightarrow> socket_id \<Rightarrow> watched_member \<Rightarrow> plan \<Rightarrow> watched_member list \<Rightarrow> watched_member list \<Rightarrow> instant
    \<Rightarrow> (watched_member list \<times> watched_member list) io" where
  "repair_stranded E grp w plan watched spawned now = do {
     _ \<leftarrow> (if wm_forced w then return ()
          else modify (\<lambda>b. b\<lparr> stranded_repairs := stranded_repairs b + 1 \<rparr>));
     let chain = repair_chain w;
     (case plan of
        JoinSibling _ \<Rightarrow> do {
          _ \<leftarrow> close_members chain;
          return (watched, spawned)
        }
      | HandToSibling other \<Rightarrow>
          if \<exists>e \<in> set watched. wm_id e = other then return (hand_over other chain watched, spawned)
          else if \<exists>e \<in> set spawned. wm_id e = other then return (watched, hand_over other chain spawned)
          else do {
            _ \<leftarrow> close_members chain;
            return (watched, spawned)
          }
      | CloseNow \<Rightarrow> do {
          _ \<leftarrow> close_members chain;
          return (watched, spawned)
        }
      | CloseThenSpawn \<Rightarrow> do {
          spawned \<leftarrow> spawn_replacement E grp w True spawned now;
          return (watched, spawned)
        }
      | SpawnThenClose \<Rightarrow> do {
          spawned \<leftarrow> spawn_replacement E grp w False spawned now;
          return (watched, spawned)
        }
      | Wait \<Rightarrow> return (watched, spawned))
   }"

section \<open>The periodic check\<close>

definition row_of :: "group_row list \<Rightarrow> socket_id \<Rightarrow> (member_status \<times> socket_status) option" where
  "row_of rows i =
     map_option (\<lambda>r. (map_member_status (row_memberstate r), raw_state_to_status (row_sockstate r)))
       (find (\<lambda>r. row_id r = i) rows)"

definition verdict_of :: "bool \<Rightarrow> group_row list \<Rightarrow> watched_member \<Rightarrow> verdict" where
  "verdict_of backup rows w =
     classify_watched (wm_live w) (row_of rows (wm_id w)) (wm_forced w) backup"

text \<open>A member that is up closes what it superseded once it has been up for the linger time.\<close>

definition close_superseded :: "env \<Rightarrow> watched_member \<Rightarrow> verdict \<Rightarrow> instant \<Rightarrow> watched_member io" where
  "close_superseded E w v now =
     (if (v = V_Confirmed \<or> v = V_Masked) \<and> wm_supersedes w \<noteq> [] then do {
        at \<leftarrow> (case wm_close_superseded_at w of
                 Some at \<Rightarrow> return at
               | None \<Rightarrow> do {
                   linger \<leftarrow> superseded_linger E (wm_id w);
                   return (now + linger)
                 });
        let w = w\<lparr> wm_close_superseded_at := Some at \<rparr>;
        if now \<ge> at then do {
          _ \<leftarrow> close_members (wm_supersedes w);
          return (w\<lparr> wm_supersedes := [] \<rparr>)
        } else return w
      } else return w)"

text \<open>One round of the loop of \<^verbatim>\<open>check_group\<close>, on the lists and the index.\<close>

definition check_one ::
  "env \<Rightarrow> socket_id \<Rightarrow> bool \<Rightarrow> group_row list \<Rightarrow> instant \<Rightarrow> watched_member list \<Rightarrow> watched_member list \<Rightarrow> nat
    \<Rightarrow> (watched_member list \<times> watched_member list \<times> nat) io" where
  "check_one E grp backup rows now watched spawned idx =
     (if wm_not_before (watched ! idx) > now then return (watched, spawned, Suc idx)
      else do {
        let verdict = verdict_of backup rows (watched ! idx);
        w \<leftarrow> close_superseded E (watched ! idx) verdict now;
        let (st, w) = next_step w verdict now;
        (case st of
           Keep \<Rightarrow> return (watched[idx := w], spawned, Suc idx)
         | Recheck at \<Rightarrow> return (watched[idx := w\<lparr> wm_not_before := at \<rparr>], spawned, Suc idx)
         | Drop \<Rightarrow> do {
             _ \<leftarrow> close_members (wm_supersedes w);
             return (swap_remove (watched[idx := w]) idx, spawned, idx)
           }
         | Abandon \<Rightarrow> do {
             _ \<leftarrow> close_members [wm_id w];
             _ \<leftarrow> close_members (wm_supersedes w);
             return (swap_remove (watched[idx := w]) idx, spawned, idx)
           }
         | Repair \<Rightarrow> do {
             plan \<leftarrow> plan_repair E w (verdict = V_BrokenLive) (watched[idx := w]) spawned rows now;
             if plan = Wait then return (watched[idx := w\<lparr> wm_waiting := True \<rparr>], spawned, Suc idx)
             else do {
               (watched, spawned) \<leftarrow>
                 repair_stranded E grp w plan (swap_remove (watched[idx := w]) idx) spawned now;
               return (watched, spawned, idx)
             }
           })
      })"

text \<open>Each round either moves the index on or shortens the list behind it, so the loop ends.\<close>

lemma length_hand_over [simp]: "length (hand_over other chain ws) = length ws"
  by (simp add: hand_over_def)

lemma repair_stranded_length:
  "length (fst (fst (run_state (repair_stranded E grp w plan watched spawned now) b))) = length watched"
  by (simp add: repair_stranded_def Let_def case_prod_beta split: plan.split)

lemma check_one_progress:
  assumes "idx < length watched"
    and "run_state (check_one E grp backup rows now watched spawned idx) b = ((watched', spawned', idx'), b')"
  shows "length watched' - idx' < length watched - idx"
proof -
  have "length watched - Suc idx < length watched - idx" using assms(1) by simp
  then have "let r = fst (run_state (check_one E grp backup rows now watched spawned idx) b)
        in length (fst r) - snd (snd r) < length watched - idx"
    using assms(1)
    by (simp add: check_one_def Let_def case_prod_beta repair_stranded_length split: step.split)
  with assms(2) show ?thesis by simp
qed

function check_loop ::
  "env \<Rightarrow> socket_id \<Rightarrow> bool \<Rightarrow> group_row list \<Rightarrow> instant \<Rightarrow> watched_member list \<Rightarrow> watched_member list \<Rightarrow> nat
    \<Rightarrow> (watched_member list \<times> watched_member list) io" where
  "check_loop E grp backup rows now watched spawned idx =
     (if idx < length watched
      then State_Monad.bind (check_one E grp backup rows now watched spawned idx)
             (\<lambda>r. check_loop E grp backup rows now (fst r) (fst (snd r)) (snd (snd r)))
      else return (watched, spawned))"
  by pat_completeness auto
termination
  by (relation "measure (\<lambda>(E, grp, backup, rows, now, watched, spawned, idx). length watched - idx)")
     (auto dest: check_one_progress)

declare check_loop.simps [simp del]

definition refresh_live :: "env \<Rightarrow> watched_member list \<Rightarrow> watched_member list io" where
  "refresh_live E ws = map_m (\<lambda>w. do {
     raw \<leftarrow> srt_getsockstate E (wm_id w);
     return (w\<lparr> wm_live := raw_state_to_status raw \<rparr>)
   }) ws"

text \<open>\<open>check_group\<close> also returns the row buffer, which the next group's listing reuses.\<close>

definition check_group :: "env \<Rightarrow> socket_id \<Rightarrow> group_row list \<Rightarrow> instant \<Rightarrow> group_row list io" where
  "check_group E grp buf now = do {
     entry \<leftarrow> lookup_sock grp;
     (case entry of
        None \<Rightarrow> return buf
      | Some s \<Rightarrow>
          if \<not> (\<exists>w \<in> set (ss_watched s). wm_not_before w \<le> now) then return buf
          else do {
            watched \<leftarrow> refresh_live E (ss_watched s);
            rows \<leftarrow> read_group_rows E grp buf;
            (watched, spawned) \<leftarrow> check_loop E grp (ss_backup s) rows now watched [] 0;
            let s = s\<lparr> ss_watched := watched @ spawned \<rparr>;
            s \<leftarrow> (if ss_last_status s = S_Connecting then do {
                    raw \<leftarrow> srt_getsockstate E grp;
                    if raw = SRTS_CONNECTED then update_status s S_Connected else return s
                  } else return s);
            _ \<leftarrow> put_sock grp s;
            return rows
          })
   }"

definition needs_check :: "socket_state option \<Rightarrow> bool" where
  "needs_check entry =
     (case entry of None \<Rightarrow> False
      | Some s \<Rightarrow> ss_watched s \<noteq> [] \<and> ss_last_status s \<noteq> S_Init \<and> \<not> is_terminal_status (ss_last_status s))"

fun check_groups :: "env \<Rightarrow> instant \<Rightarrow> socket_id list \<Rightarrow> group_row list \<Rightarrow> group_row list io" where
  "check_groups E now [] buf = return buf"
| "check_groups E now (grp # grps) buf = do {
     buf \<leftarrow> check_group E grp buf now;
     check_groups E now grps buf
   }"

definition check_stranded_members :: "env \<Rightarrow> group_row list \<Rightarrow> group_row list io" where
  "check_stranded_members E buf = do {
     ids \<leftarrow> sock_ids E;
     groups \<leftarrow> filter_m (\<lambda>i. do { entry \<leftarrow> lookup_sock i; return (needs_check entry) }) ids;
     if groups = [] then return buf
     else do {
       now \<leftarrow> instant_now E;
       check_groups E now groups buf
     }
   }"

definition force_stranded :: "env \<Rightarrow> socket_id \<Rightarrow> group_endpoint \<Rightarrow> (srt_error + unit) io" where
  "force_stranded E i endpoint = do {
     entry \<leftarrow> lookup_sock i;
     (case live_group entry of
        None \<Rightarrow> return (Inl Err_ConnectionLost)
      | Some s \<Rightarrow> do {
          rows \<leftarrow> read_group_rows E i [];
          let superseded = concat (map wm_supersedes (ss_watched s));
          r \<leftarrow> find_m (\<lambda>r.
                 if row_token r = ep_token endpoint \<and> row_id r \<notin> set superseded
                    \<and> map_member_status (row_memberstate r) \<in> {M_Idle, M_Running} then do {
                   raw \<leftarrow> srt_getsockstate E (row_id r);
                   return (raw = SRTS_CONNECTED)
                 } else return False) rows;
          (case r of
             None \<Rightarrow> return (Inl Err_InvalidParam)
           | Some r \<Rightarrow> do {
               now \<leftarrow> instant_now E;
               ws \<leftarrow> (if \<exists>w \<in> set (ss_watched s). wm_id w = row_id r
                     then return (update_first (\<lambda>w. wm_id w = row_id r)
                            (\<lambda>w. w\<lparr> wm_forced := True, wm_not_before := now \<rparr>) (ss_watched s))
                     else do {
                       w \<leftarrow> watched_spawned E (row_id r) endpoint now;
                       return (ss_watched s @ [w\<lparr> wm_forced := True \<rparr>])
                     });
               _ \<leftarrow> put_sock i (s\<lparr> ss_watched := ws \<rparr>);
               return (Inr ())
             })
        })
   }"

section \<open>The calls leave the map alone\<close>

lemma calls_listing [calls]:
  "keeps (calls_since b0) (read_group_rows E grp buf)"
  "keeps (calls_since b0) (connect_timeout_of E i)"
  "keeps (calls_since b0) (latency_of E i opt)"
  unfolding read_group_rows_def connect_timeout_of_def latency_of_def by (intro keep calls)+

lemma calls_members [calls]:
  "keeps (calls_since b0) (watched_spawned E i ep now)"
  "keeps (calls_since b0) (superseded_linger E i)"
  "keeps (calls_since b0) (connect_group E grp eps)"
  "keeps (calls_since b0) (member_in_flight E rows tok ex)"
  "keeps (calls_since b0) (other_member_at_peer E rows ex)"
  "keeps (calls_since b0) (other_member_broken_live E ws rows ex)"
  "keeps (calls_since b0) (refresh_live E ws)"
  unfolding watched_spawned_def superseded_linger_def connect_group_def member_in_flight_def
    other_member_at_peer_def other_member_broken_live_def refresh_live_def
  by (intro keep calls)+

lemma calls_plan_repair [calls]:
  "keeps (calls_since b0) (plan_repair E w broken ws sp rows now)"
  unfolding plan_repair_def by (intro keep calls)

lemmas calls_frame [simp] = calls [THEN callsD(1)] calls [THEN callsD(2)]

section \<open>No member is lost or closed twice\<close>

text \<open>What a list of watched members is responsible for: the members and what they supersede.\<close>

definition own1 :: "watched_member \<Rightarrow> socket_id multiset" where
  "own1 w = add_mset (wm_id w) (mset (wm_supersedes w))"

definition own :: "watched_member list \<Rightarrow> socket_id multiset" where
  "own ws = sum_list (map own1 ws)"

lemma own_simps [simp]: "own [] = {#}" "own (w # ws) = own1 w + own ws" "own (ws @ ws') = own ws + own ws'"
  by (simp_all add: own_def)







lemma run_close_members [simp]:
  "run_state (close_members ids) b = ((), b\<lparr> log := rev (map EvClose ids) @ log b \<rparr>)"
  by (induction ids arbitrary: b) (simp_all add: close_members_def srt_close_def)

lemma closes_map [simp]: "closes (map EvClose ids) = mset ids"
  by (induction ids) simp_all

lemma closes_rev [simp]: "closes (rev l) = closes l"
  by (induction l) (simp_all add: ac_simps)

lemma watched_spawned_result [simp]:
  "wm_id (fst (run_state (watched_spawned E i ep now) b)) = i"
  "wm_supersedes (fst (run_state (watched_spawned E i ep now) b)) = []"
  "wm_repairs (fst (run_state (watched_spawned E i ep now) b)) = 0"
  "wm_endpoint (fst (run_state (watched_spawned E i ep now) b)) = ep"
  by (simp_all add: watched_spawned_def watched_new_def case_prod_beta)

lemma close_superseded_result:
  assumes "run_state (close_superseded E w v now) b = (w', b')"
  shows "own1 w' + closes (log b') = own1 w + closes (log b)" "wm_id w' = wm_id w" "wm_live w' = wm_live w"
    "wm_forced w' = wm_forced w" "wm_repairs w' = wm_repairs w" "wm_endpoint w' = wm_endpoint w"
    "sockets b' = sockets b"
  using assms
  by (auto simp: close_superseded_def case_prod_beta own1_def Let_def split: if_splits option.splits)

text \<open>What a step adds to \<open>spawned\<close>: at most one member, at the end.\<close>

definition added :: "watched_member list \<Rightarrow> watched_member list \<Rightarrow> socket_id multiset" where
  "added sp sp' = mset (map wm_id sp') - mset (map wm_id sp)"

lemma ids_hand_over [simp]: "map wm_id (hand_over other chain ws) = map wm_id ws"
  by (induction ws) (simp_all add: hand_over_def)

lemma id_mset_hand_over [simp]:
  "image_mset wm_id (mset (hand_over other chain ws)) = image_mset wm_id (mset ws)"
  by (metis ids_hand_over mset_map)



text \<open>The repair code never touches the socket map.\<close>

lemma sockets_spawn_replacement [simp]:
  "sockets (snd (run_state (spawn_replacement E grp w first sp now) b)) = sockets b"
  by (simp add: spawn_replacement_def case_prod_beta Let_def split: sum.split)

lemma sockets_repair_stranded [simp]:
  "sockets (snd (run_state (repair_stranded E grp w plan ws sp now) b)) = sockets b"
  by (cases plan; simp add: repair_stranded_def case_prod_beta Let_def)

lemma sockets_close_superseded [simp]:
  "sockets (snd (run_state (close_superseded E w v now) b)) = sockets b"
  by (rule close_superseded_result(7) [OF prod.collapse [symmetric]])

lemma sockets_check_one [simp]:
  "sockets (snd (run_state (check_one E grp backup rows now ws sp idx) b)) = sockets b"
  by (simp add: check_one_def case_prod_beta Let_def split: step.split)

lemma check_loop_sockets:
  "run_state (check_loop E grp backup rows now ws sp idx) b = (r, b') \<Longrightarrow> sockets b' = sockets b"
proof (induction E grp backup rows now ws sp idx arbitrary: b rule: check_loop.induct)
  case (1 E grp backup rows now ws sp idx)
  show ?case
  proof (cases "idx < length ws")
    case True
    obtain x b1 where step: "run_state (check_one E grp backup rows now ws sp idx) b = (x, b1)"
      by (metis surj_pair)
    have "run_state (check_loop E grp backup rows now (fst x) (fst (snd x)) (snd (snd x))) b1 = (r, b')"
      using "1.prems" True step by (simp add: check_loop.simps [of E grp backup rows now ws])
    from "1.IH" [OF True step this] show ?thesis
      using sockets_check_one [of E grp backup rows now ws sp idx b] step by simp
  qed (use "1.prems" in \<open>simp add: check_loop.simps [of E grp backup rows now ws]\<close>)
qed

text \<open>The rounds do not change what a member is judged by.\<close>

definition facts :: "watched_member \<Rightarrow> socket_id \<times> socket_status \<times> bool" where
  "facts w = (wm_id w, wm_live w, wm_forced w)"

lemma facts_fields [simp]:
  "facts (snd (next_step w v now)) = facts w" "facts (w\<lparr> wm_not_before := t \<rparr>) = facts w"
  "facts (w\<lparr> wm_waiting := c \<rparr>) = facts w" "facts (w\<lparr> wm_supersedes := x \<rparr>) = facts w"
  by (simp_all add: facts_def)

lemma facts_close_superseded [simp]:
  "facts (fst (run_state (close_superseded E w v now) b)) = facts w"
  by (simp add: facts_def close_superseded_result [OF prod.collapse [symmetric]])

lemma map_facts_hand_over [simp]: "map facts (hand_over other chain ws) = map facts ws"
  by (induction ws) (simp_all add: hand_over_def)






lemma own1_next_step [simp]: "own1 (snd (next_step w v now)) = own1 w"
  by (simp add: own1_def)

lemma own1_fields [simp]:
  "own1 (w\<lparr> wm_not_before := t \<rparr>) = own1 w" "own1 (w\<lparr> wm_waiting := c \<rparr>) = own1 w"
  by (simp_all add: own1_def)

lemma result_bind: "(\<And>x b. Q (fst (run_state (f x) b))) \<Longrightarrow> Q (fst (run_state (State_Monad.bind m f) b))"
  by (cases "run_state m b") simp

definition spawns :: "plan \<Rightarrow> bool" where
  "spawns plan \<longleftrightarrow> plan = CloseThenSpawn \<or> plan = SpawnThenClose"

lemma repair_plan_spawns: "spawns (repair_plan n sib up busy) \<Longrightarrow> n < MAX_STRANDED_REPAIRS"
  by (cases sib) (auto simp: repair_plan_def spawns_def split: if_splits)

lemma plan_spawns:
  "spawns (fst (run_state (plan_repair E w broken ws sp rows now) b)) \<longrightarrow> wm_repairs w < MAX_STRANDED_REPAIRS"
  unfolding plan_repair_def Let_def case_prod_beta
  by (rule result_bind [where Q = "\<lambda>p. spawns p \<longrightarrow> wm_repairs w < MAX_STRANDED_REPAIRS"])+
     (simp add: repair_plan_spawns)

text \<open>The outcomes of one look at a member; \<open>w\<close> is the member as judged, \<open>b1\<close> the state after the verdict.\<close>

definition judged :: "env \<Rightarrow> bool \<Rightarrow> group_row list \<Rightarrow> instant \<Rightarrow> watched_member \<Rightarrow> bridge \<Rightarrow> step \<Rightarrow> watched_member \<Rightarrow> bridge \<Rightarrow> bool" where
  "judged E backup rows now w0 b st w b1 \<longleftrightarrow>
     (\<exists>w1. run_state (close_superseded E w0 (verdict_of backup rows w0) now) b = (w1, b1)
        \<and> next_step w1 (verdict_of backup rows w0) now = (st, w))"

lemma judged_member:
  assumes "judged E backup rows now w0 b st w b1"
  shows "own1 w + closes (log b1) = own1 w0 + closes (log b)" "wm_id w = wm_id w0"
    "wm_endpoint w = wm_endpoint w0" "wm_repairs w = wm_repairs w0"
proof -
  obtain w1 where cs: "run_state (close_superseded E w0 (verdict_of backup rows w0) now) b = (w1, b1)"
    and w: "w = snd (next_step w1 (verdict_of backup rows w0) now)"
    using assms by (auto simp: judged_def)
  show "own1 w + closes (log b1) = own1 w0 + closes (log b)" "wm_id w = wm_id w0"
    "wm_endpoint w = wm_endpoint w0" "wm_repairs w = wm_repairs w0"
    using close_superseded_result [OF cs] by (simp_all add: w)
qed


lemma check_one_cases:
  assumes run: "run_state (check_one E grp backup rows now ws sp idx) b = ((ws', sp', idx'), b')"
  obtains (early) "ws' = ws" "sp' = sp" "b' = b"
    | (kept) st w b1 x where "judged E backup rows now (ws ! idx) b st w b1" "ws' = ws[idx := x]" "sp' = sp"
        "closes (log b') = closes (log b1)" "x = w \<or> (\<exists>t. x = w\<lparr> wm_not_before := t \<rparr>) \<or> x = w\<lparr> wm_waiting := True \<rparr>"
    | (dropped) w b1 where "judged E backup rows now (ws ! idx) b Drop w b1" "ws' = swap_remove (ws[idx := w]) idx" "sp' = sp"
        "closes (log b') = closes (log b1) + mset (wm_supersedes w)"
    | (abandoned) w b1 where "judged E backup rows now (ws ! idx) b Abandon w b1" "ws' = swap_remove (ws[idx := w]) idx" "sp' = sp"
        "closes (log b') = closes (log b1) + own1 w"
    | (repaired) w b1 plan b2 where "judged E backup rows now (ws ! idx) b Repair w b1"
        "spawns plan \<longrightarrow> wm_repairs w < MAX_STRANDED_REPAIRS" "plan \<noteq> Wait" "closes (log b2) = closes (log b1)"
        "run_state (repair_stranded E grp w plan (swap_remove (ws[idx := w]) idx) sp now) b2 = ((ws', sp'), b')"
proof (cases "wm_not_before (ws ! idx) > now")
  case True
  with run early show thesis by (simp add: check_one_def)
next
  case False
  define v where "v = verdict_of backup rows (ws ! idx)"
  obtain w1 b1 where cs: "run_state (close_superseded E (ws ! idx) v now) b = (w1, b1)" by force
  obtain st w where ns: "next_step w1 v now = (st, w)" by force
  have j: "judged E backup rows now (ws ! idx) b st w b1" using cs ns by (simp add: judged_def v_def)
  note eval = check_one_def False cs ns v_def [symmetric]
  show thesis
  proof (cases st)
    case Repair
    obtain plan b2 where p: "run_state (plan_repair E w (v = V_BrokenLive) (ws[idx := w]) sp rows now) b1 = (plan, b2)" by force
    have "closes (log (snd (run_state (plan_repair E w (v = V_BrokenLive) (ws[idx := w]) sp rows now) b1))) = closes (log b1)"
      by simp
    then have b2: "closes (log b2) = closes (log b1)" "spawns plan \<longrightarrow> wm_repairs w < MAX_STRANDED_REPAIRS"
      using plan_spawns [of E w "v = V_BrokenLive" "ws[idx := w]" sp rows now b1] by (simp_all add: p)
    show thesis
    proof (cases "plan = Wait")
      case True
      show thesis by (rule kept [OF j]) (use run Repair p True b2 in \<open>auto simp: eval\<close>)
    next
      case wait: False
      show thesis
        by (rule repaired [OF j [unfolded Repair] b2(2) wait b2(1)]) (use run Repair p wait in \<open>auto simp: eval case_prod_beta prod_eq_iff\<close>)
    qed
  next
    case Drop
    show thesis by (rule dropped [OF j [unfolded Drop]]) (use run Drop in \<open>auto simp: eval case_prod_beta\<close>)
  next
    case Abandon
    show thesis by (rule abandoned [OF j [unfolded Abandon]]) (use run Abandon in \<open>auto simp: eval case_prod_beta own1_def ac_simps\<close>)
  next
    case (Recheck t)
    show thesis by (rule kept [OF j, of "w\<lparr> wm_not_before := t \<rparr>"]) (use run Recheck in \<open>auto simp: eval\<close>)
  qed (rule kept [OF j]; use run in \<open>auto simp: eval\<close>)
qed









lemma added_Nil [simp]: "added [] sp = mset (map wm_id sp)"
  by (simp add: added_def)

text \<open>What is left of the check once the loop is done: the entry is written back.\<close>

definition settle :: "env \<Rightarrow> socket_id \<Rightarrow> socket_state \<Rightarrow> socket_state io" where
  "settle E grp s = (if ss_last_status s = S_Connecting then do {
       raw \<leftarrow> srt_getsockstate E grp;
       if raw = SRTS_CONNECTED then update_status s S_Connected else return s
     } else return s)"

lemma settle_result:
  "ss_watched (fst (run_state (settle E grp s) b)) = ss_watched s"
  "closes (log (snd (run_state (settle E grp s) b))) = closes (log b)"
  "sockets (snd (run_state (settle E grp s) b)) = sockets b"
  by (simp_all add: settle_def case_prod_beta with_status_def status_events_def srt_getsockstate_def
      close_of_def split: option.split)

definition due :: "socket_state \<Rightarrow> instant \<Rightarrow> bool" where
  "due s now \<longleftrightarrow> (\<exists>w \<in> set (ss_watched s). wm_not_before w \<le> now)"

lemma check_group_run:
  assumes s: "map_of (sockets b) grp = Some s" and due: "due s now"
  obtains ws b1 rows b2 ws' sp b3 s' b4 where
    "run_state (refresh_live E (ss_watched s)) b = (ws, b1)"
    "run_state (read_group_rows E grp buf) b1 = (rows, b2)"
    "run_state (check_loop E grp (ss_backup s) rows now ws [] 0) b2 = ((ws', sp), b3)"
    "run_state (settle E grp (s\<lparr> ss_watched := ws' @ sp \<rparr>)) b3 = (s', b4)"
    "run_state (check_group E grp buf now) b = (rows, b4\<lparr> sockets := AList.update grp s' (sockets b4) \<rparr>)"
proof -
  obtain ws b1 where 1: "run_state (refresh_live E (ss_watched s)) b = (ws, b1)" by force
  obtain rows b2 where 2: "run_state (read_group_rows E grp buf) b1 = (rows, b2)" by force
  obtain ws' sp b3 where 3: "run_state (check_loop E grp (ss_backup s) rows now ws [] 0) b2 = ((ws', sp), b3)"
    by (metis surj_pair)
  obtain s' b4 where 4: "run_state (settle E grp (s\<lparr> ss_watched := ws' @ sp \<rparr>)) b3 = (s', b4)" by force
  have "run_state (check_group E grp buf now) b = (rows, b4\<lparr> sockets := AList.update grp s' (sockets b4) \<rparr>)"
    using s due 4 by (simp add: check_group_def due_def 1 2 3 settle_def Let_def)
  with 1 2 3 4 show ?thesis by (rule that)
qed

lemma check_group_idle:
  "map_of (sockets b) grp = Some s \<Longrightarrow> \<not> due s now \<Longrightarrow> run_state (check_group E grp buf now) b = (buf, b)"
  "map_of (sockets b) grp = None \<Longrightarrow> run_state (check_group E grp buf now) b = (buf, b)"
  by (simp_all add: check_group_def due_def)




section \<open>Invariants of watched members\<close>

text \<open>
  A contract between the check and what is claimed of each watched member: the claim depends only
  on the member's endpoint and repair count, and passes from a member to the replacement the check
  may spawn for it. What keeps the contract holds of every watched member after any check.
\<close>

locale watched_inv =
  fixes P :: "group_endpoint \<Rightarrow> nat \<Rightarrow> bool"
  assumes spawn: "P ep n \<Longrightarrow> n < MAX_STRANDED_REPAIRS \<Longrightarrow> P ep (Suc n)"
begin

definition good :: "watched_member \<Rightarrow> bool" where
  "good w \<longleftrightarrow> P (wm_endpoint w) (wm_repairs w)"

lemma good_frame: "good w \<Longrightarrow> wm_endpoint w' = wm_endpoint w \<Longrightarrow> wm_repairs w' = wm_repairs w \<Longrightarrow> good w'"
  by (simp add: good_def)

lemma good_hand_over: "\<forall>w \<in> set ws. good w \<Longrightarrow> \<forall>w \<in> set (hand_over other chain ws). good w"
  by (induction ws) (auto simp: hand_over_def good_def)

lemma good_spawn_replacement:
  assumes "good w" and "wm_repairs w < MAX_STRANDED_REPAIRS" and "\<forall>w \<in> set sp. good w"
  shows "\<forall>w \<in> set (fst (run_state (spawn_replacement E grp w first sp now) b)). good w"
  using assms spawn
  by (auto simp: spawn_replacement_def case_prod_beta Let_def good_def split: sum.split)

lemma good_repair_stranded:
  assumes "good w" and "spawns plan \<Longrightarrow> wm_repairs w < MAX_STRANDED_REPAIRS"
    and "\<forall>w \<in> set ws. good w" and "\<forall>w \<in> set sp. good w"
  shows "\<forall>w \<in> set (fst (fst (run_state (repair_stranded E grp w plan ws sp now) b))). good w"
    and "\<forall>w \<in> set (snd (fst (run_state (repair_stranded E grp w plan ws sp now) b))). good w"
  using assms(3,4) good_hand_over [OF assms(3)] good_hand_over [OF assms(4)]
    good_spawn_replacement [OF assms(1) assms(2) assms(4)]
  by (cases plan; simp add: repair_stranded_def spawns_def case_prod_beta Let_def)+

lemma good_check_one:
  assumes i: "idx < length ws" and ws: "\<forall>w \<in> set ws. good w" and sp: "\<forall>w \<in> set sp. good w"
    and run: "run_state (check_one E grp backup rows now ws sp idx) b = ((ws', sp', idx'), b')"
  shows "(\<forall>w \<in> set ws'. good w) \<and> (\<forall>w \<in> set sp'. good w)"
proof -
  have upd: "\<forall>w \<in> set (ws[idx := x]). good w" if "good x" for x
    using ws that set_update_subset_insert by fastforce
  have rem: "\<forall>w \<in> set (swap_remove (ws[idx := x]) idx). good w" if "good x" for x
    using upd [OF that] set_swap_remove_subset by fastforce
  have w: "good w" if "judged E backup rows now (ws ! idx) b st w b1" for st w b1
    using ws i judged_member(3,4) [OF that] by (simp add: good_def)
  from run show ?thesis
  proof (cases rule: check_one_cases)
    case (kept st w b1 x)
    have "good x" using w [OF kept(1)] kept(5) by (auto simp: good_def)
    then show ?thesis using kept upd sp by simp
  next
    case (repaired w b1 plan b2)
    then show ?thesis
      using good_repair_stranded [OF w [OF repaired(1)] _ rem [OF w [OF repaired(1)]] sp, of plan E grp now b2] by simp
  qed (use ws sp rem w in blast)+
qed

lemma good_check_loop:
  "run_state (check_loop E grp backup rows now ws sp idx) b = ((ws', sp'), b') \<Longrightarrow>
   \<forall>w \<in> set ws. good w \<Longrightarrow> \<forall>w \<in> set sp. good w \<Longrightarrow> (\<forall>w \<in> set ws'. good w) \<and> (\<forall>w \<in> set sp'. good w)"
proof (induction E grp backup rows now ws sp idx arbitrary: b rule: check_loop.induct)
  case (1 E grp backup rows now ws sp idx)
  show ?case
  proof (cases "idx < length ws")
    case True
    obtain ws1 sp1 idx1 b1 where step: "run_state (check_one E grp backup rows now ws sp idx) b = ((ws1, sp1, idx1), b1)"
      by (metis surj_pair)
    have rest: "run_state (check_loop E grp backup rows now ws1 sp1 idx1) b1 = ((ws', sp'), b')"
      using "1.prems"(1) True step by (simp add: check_loop.simps [of E grp backup rows now ws])
    show ?thesis
      using "1.IH" [OF True step, unfolded fst_conv snd_conv, OF rest]
        good_check_one [OF True "1.prems"(2,3) step] by blast
  qed (use "1.prems" in \<open>auto simp: check_loop.simps [of E grp backup rows now ws]\<close>)
qed

definition all_good :: "bridge \<Rightarrow> bool" where
  "all_good b \<longleftrightarrow> (\<forall>(i, s) \<in> set (sockets b). \<forall>w \<in> set (ss_watched s). good w)"

lemma good_refresh_live:
  "\<forall>w \<in> set ws. good w \<Longrightarrow> \<forall>w \<in> set (fst (run_state (refresh_live E ws) b)). good w"
  by (induction ws arbitrary: b) (auto simp: refresh_live_def case_prod_beta good_def)

lemma all_good_update:
  "all_good b \<Longrightarrow> sockets b' = AList.update i s (sockets b) \<Longrightarrow> \<forall>w \<in> set (ss_watched s). good w \<Longrightarrow> all_good b'"
  unfolding all_good_def using set_AList_update [of i s "sockets b"] by fastforce

lemma all_good_lookup: "all_good b \<Longrightarrow> map_of (sockets b) i = Some s \<Longrightarrow> w \<in> set (ss_watched s) \<Longrightarrow> good w"
  unfolding all_good_def by (auto dest: map_of_SomeD)

lemma all_good_frame: "sockets b' = sockets b \<Longrightarrow> all_good b' = all_good b"
  by (simp add: all_good_def)

lemma all_good_calls: "(\<And>b0. keeps (calls_since b0) m) \<Longrightarrow> keeps all_good m"
  by (rule keepsI) (metis all_good_frame callsD(1) snd_conv)

lemmas good_calls [keep] = calls [THEN all_good_calls]

lemma good_check_group [keep]: "keeps all_good (check_group E grp buf now)"
proof (rule keepsI)
  fix b r b'
  assume b: "all_good b" and run: "run_state (check_group E grp buf now) b = (r, b')"
  show "all_good b'"
  proof (cases "map_of (sockets b) grp")
    case None
    with b run show ?thesis by (simp add: check_group_idle)
  next
    case (Some s)
    show ?thesis
    proof (cases "due s now")
      case False
      with Some b run show ?thesis by (simp add: check_group_idle)
    next
      case True
      obtain ws b1 rows b2 ws' sp b3 s' b4 where g:
        "run_state (refresh_live E (ss_watched s)) b = (ws, b1)"
        "run_state (read_group_rows E grp buf) b1 = (rows, b2)"
        "run_state (check_loop E grp (ss_backup s) rows now ws [] 0) b2 = ((ws', sp), b3)"
        "run_state (settle E grp (s\<lparr> ss_watched := ws' @ sp \<rparr>)) b3 = (s', b4)"
        "run_state (check_group E grp buf now) b = (rows, b4\<lparr> sockets := AList.update grp s' (sockets b4) \<rparr>)"
        by (rule check_group_run [OF Some True])
      have "\<forall>w \<in> set ws. good w"
        using good_refresh_live [of "ss_watched s" E b] all_good_lookup [OF b Some] g(1) by simp
      then have "\<forall>w \<in> set (ws' @ sp). good w"
        using good_check_loop [OF g(3)] by auto
      moreover have "ss_watched s' = ws' @ sp" "sockets b4 = sockets b3"
        using settle_result [of E grp "s\<lparr> ss_watched := ws' @ sp \<rparr>" b3] g(4) by simp_all
      moreover have "sockets b2 = sockets b"
        using callsD(1) [OF calls_members(7), of E "ss_watched s" b] callsD(1) [OF calls_listing(1), of E grp buf b1]
        by (simp add: g(1,2))
      moreover have "sockets b3 = sockets b2"
        using check_loop_sockets [OF g(3)] .
      ultimately show ?thesis
        using g(5) run by (intro all_good_update [OF b, of b' grp s']) auto
    qed
  qed
qed

lemma good_check_groups [keep]: "keeps all_good (check_groups E now grps buf)"
  by (induction grps arbitrary: buf) (auto intro!: keep_return keep_bind good_check_group)

lemma good_check_stranded_members [keep]: "keeps all_good (check_stranded_members E buf)"
  unfolding check_stranded_members_def by (intro keep)

lemma all_good_put: "\<forall>w \<in> set (ss_watched s). good w \<Longrightarrow> keeps all_good (put_sock i s)"
  by (rule keepsI) (auto intro: all_good_update)

lemma good_add_group_member [keep]:
  assumes "P ep 0"
  shows "keeps all_good (add_group_member E i ep)"
proof -
  have "keeps all_good (put_sock i (s\<lparr> ss_watched := ss_watched s @ [w] \<rparr>))"
    if "all_good b" "live_group (map_of (sockets b) i) = Some s" "wm_endpoint w = ep" "wm_repairs w = 0" for b s w
    using that assms all_good_lookup [OF that(1)]
    by (intro all_good_put) (auto simp: good_def live_group_def split: option.splits if_splits)
  then show ?thesis
    unfolding add_group_member_def
    by (intro keep_bind_result [of _ "lookup_sock i"] keep_bind_result [of _ "watched_spawned _ _ _ _"]
        keep) auto
qed

lemma good_force_stranded [keep]:
  assumes "P ep 0"
  shows "keeps all_good (force_stranded E i ep)"
proof -
  have upd: "\<forall>w \<in> set (update_first p (\<lambda>w. w\<lparr> wm_forced := True, wm_not_before := t \<rparr>) ws). good w"
    if "\<forall>w \<in> set ws. good w" for p t ws
    using that by (induction ws) (auto simp: good_def)
  have entry: "\<forall>w \<in> set (ss_watched s). good w" if "all_good b" "live_group (map_of (sockets b) i) = Some s" for b s
    using that all_good_lookup [OF that(1)] by (auto simp: live_group_def split: option.splits if_splits)
  have "keeps all_good (put_sock i (s\<lparr> ss_watched := fst (run_state
      (if c then return (update_first p (\<lambda>w. w\<lparr> wm_forced := True, wm_not_before := t \<rparr>) (ss_watched s))
       else do { w \<leftarrow> watched_spawned E m ep t; return (ss_watched s @ [w\<lparr> wm_forced := True \<rparr>]) }) b1) \<rparr>))"
    if "all_good b" "live_group (map_of (sockets b) i) = Some s" for b s c p t m b1
    using entry [OF that] upd [OF entry [OF that]] assms
    by (intro all_good_put) (auto simp: case_prod_beta good_def)
  then show ?thesis
    unfolding force_stranded_def
    by (intro keep_bind_result [of _ "lookup_sock i"] keep_bind_result [of _ "if _ then _ else _"] keep) auto
qed

end

interpretation bounded: watched_inv "\<lambda>_ n. n \<le> MAX_STRANDED_REPAIRS"
  by unfold_locales simp





section \<open>Which members a group connect reports\<close>

lemma oks_simps [simp]: "oks [] = []" "oks (Inl e # xs) = oks xs" "oks (Inr y # xs) = y # oks xs"
  by (simp_all add: oks_def List.map_filter_simps)




definition claims :: "target list \<Rightarrow> (target \<times> (srt_error + socket_id)) list" where
  "claims ts = zip ts (map target_result ts)"

lemma claims_simps [simp]: "claims [] = []" "claims (t # ts) = (t, target_result t) # claims ts"
  by (simp_all add: claims_def)







section \<open>Members and the ledger\<close>

lemmas quiet_calls [quiet] = calls [THEN calls_quiet]

lemma quiet_close_members [quiet]: "keeps (quiet_since b0) (close_members ids)"
  unfolding close_members_def by (intro keep quiet)

lemma quiet_count [quiet]: "keeps (quiet_since b0) (modify (\<lambda>b. b\<lparr> stranded_repairs := f b \<rparr>))"
  by (rule keepsI) (auto simp: quiet_since_def)

lemma keep_step [keep]:
  "(st = Keep \<Longrightarrow> keeps I k) \<Longrightarrow> (\<And>t. st = Recheck t \<Longrightarrow> keeps I (r t)) \<Longrightarrow> (st = Drop \<Longrightarrow> keeps I d)
   \<Longrightarrow> (st = Abandon \<Longrightarrow> keeps I a) \<Longrightarrow> (st = Repair \<Longrightarrow> keeps I p)
   \<Longrightarrow> keeps I (case st of Keep \<Rightarrow> k | Recheck t \<Rightarrow> r t | Drop \<Rightarrow> d | Abandon \<Rightarrow> a | Repair \<Rightarrow> p)"
  by (cases st) simp_all

lemma keep_plan [keep]:
  "keeps I c \<Longrightarrow> (\<And>i. keeps I (j i)) \<Longrightarrow> (\<And>i. keeps I (h i)) \<Longrightarrow> keeps I cs \<Longrightarrow> keeps I sc \<Longrightarrow> keeps I w
   \<Longrightarrow> keeps I (case plan of CloseNow \<Rightarrow> c | JoinSibling i \<Rightarrow> j i | HandToSibling i \<Rightarrow> h i
                  | CloseThenSpawn \<Rightarrow> cs | SpawnThenClose \<Rightarrow> sc | Wait \<Rightarrow> w)"
  by (cases plan) simp_all

lemma quiet_check_one [quiet]: "keeps (quiet_since b0) (check_one E grp backup rows now ws sp idx)"
  unfolding check_one_def close_superseded_def repair_stranded_def spawn_replacement_def
  by (intro keep quiet)

lemma quiet_check_loop [quiet]: "keeps (quiet_since b0) (check_loop E grp backup rows now ws sp idx)"
proof (induction E grp backup rows now ws sp idx rule: check_loop.induct)
  case (1 E grp backup rows now ws sp idx)
  show ?case
  proof (cases "idx < length ws")
    case True
    have "keeps (quiet_since b0) (State_Monad.bind (check_one E grp backup rows now ws sp idx)
        (\<lambda>r. check_loop E grp backup rows now (fst r) (fst (snd r)) (snd (snd r))))"
    proof (rule keep_bind_result [OF quiet_check_one])
      fix x b
      assume "fst (run_state (check_one E grp backup rows now ws sp idx) b) = x"
      then have "run_state (check_one E grp backup rows now ws sp idx) b
          = (x, snd (run_state (check_one E grp backup rows now ws sp idx) b))" by auto
      from "1.IH" [OF True this]
      show "keeps (quiet_since b0) (check_loop E grp backup rows now (fst x) (fst (snd x)) (snd (snd x)))" .
    qed
    with True show ?thesis by (simp add: check_loop.simps [of E grp backup rows now ws])
  qed (simp add: check_loop.simps [of E grp backup rows now ws] keep_return)
qed

lemma tame_put_live:
  "live_group entry = Some s \<Longrightarrow> holds s' = holds s \<Longrightarrow> tame i entry (State_Monad.bind (put_sock i s') (\<lambda>_. return x))"
  by (auto simp: live_group_def intro: tame_put split: option.splits if_splits)

lemma conserves_settle: "conserves {#} s (settle E grp s)"
  using conserves_update_status [of s S_Connected]
  by (auto simp: settle_def conserves_def case_prod_beta srt_getsockstate_def releases_def)

lemma moves_add_group_member [moves]: "moves {#} (add_group_member E i ep)"
  unfolding add_group_member_def
  by (intro moves_lookup tame_put_live tame quiet) simp_all

lemma moves_force_stranded [moves]: "moves {#} (force_stranded E i ep)"
  unfolding force_stranded_def
  by (intro moves_lookup tame_put_live tame keep quiet) simp_all

lemma moves_check_group [moves]: "moves {#} (check_group E grp buf now)"
proof -
  have "distinct_keys b' \<and> ledger b' = ledger b"
    if d: "distinct_keys b" and b': "b' = snd (run_state (check_group E grp buf now) b)" for b b'
  proof (cases "\<exists>s. map_of (sockets b) grp = Some s \<and> due s now")
    case False
    then have "run_state (check_group E grp buf now) b = (buf, b)"
      using check_group_idle by (metis option.exhaust)
    with d b' show ?thesis by simp
  next
    case True
    then obtain s where s: "map_of (sockets b) grp = Some s" "due s now" by blast
    obtain ws b1 rows b2 ws' sp b3 s' b4 where g:
      "run_state (refresh_live E (ss_watched s)) b = (ws, b1)"
      "run_state (read_group_rows E grp buf) b1 = (rows, b2)"
      "run_state (check_loop E grp (ss_backup s) rows now ws [] 0) b2 = ((ws', sp), b3)"
      "run_state (settle E grp (s\<lparr> ss_watched := ws' @ sp \<rparr>)) b3 = (s', b4)"
      "run_state (check_group E grp buf now) b = (rows, b4\<lparr> sockets := AList.update grp s' (sockets b4) \<rparr>)"
      by (rule check_group_run [OF s])
    have b3: "sockets b3 = sockets b" "ledger b3 = ledger b"
      using quiet_ledger [OF calls_quiet [OF calls_members(7)], of E "ss_watched s" b]
        quiet_ledger [OF calls_quiet [OF calls_listing(1)], of E grp buf b1]
        quiet_ledger [OF quiet_check_loop, of E grp "ss_backup s" rows now ws "[]" 0 b2]
      by (simp_all add: g(1,2,3))
    have "conserves {#} s (settle E grp (s\<lparr> ss_watched := ws' @ sp \<rparr>))"
      by (rule conserves_frame [OF conserves_settle]) simp
    from put_sock_ledger [OF _ this _ g(4)] b3 s(1) d
    show ?thesis by (simp add: b' g(5) distinct_keys_def)
  qed
  then show ?thesis by (simp add: moves_def)
qed

lemma moves_check_groups [moves]: "moves {#} (check_groups E now grps buf)"
  by (induction grps arbitrary: buf) (auto intro!: moves)

lemma moves_check_stranded_members [moves]: "moves {#} (check_stranded_members E buf)"
  unfolding check_stranded_members_def by (intro moves moves_quiet quiet)

end
