(* ===== verification/Utf8.thy ===== *)
theory Utf8
  imports Rust_Str
begin

text \<open>
  Decoding bytes to a string the way the bridge does for what libsrt hands it
  (\<^verbatim>\<open>String::from_utf8_lossy\<close> and \<^verbatim>\<open>CStr::to_string_lossy\<close> of the standard library): a maximal prefix of
  an ill-formed sequence becomes one replacement character, U+FFFD. The round trip with the
  encoder of \<open>Rust_Str\<close> holds for every Rust string, that is, for sequences of scalar values.
\<close>

definition is_scalar :: "rchar \<Rightarrow> bool" where
  "is_scalar c \<longleftrightarrow> c < 0xD800 \<or> 0xE000 \<le> c \<and> c < 0x110000"

definition replacement :: rchar where
  "replacement = 0xFFFD"

definition in_range :: "nat \<Rightarrow> nat \<Rightarrow> nat \<Rightarrow> bool" where
  "in_range lo hi b \<longleftrightarrow> lo \<le> b \<and> b \<le> hi"

text \<open>The byte at an index, 0 past the end.\<close>

definition safe_get :: "nat list \<Rightarrow> nat \<Rightarrow> nat" where
  "safe_get bs k = (if k < length bs then bs ! k else 0)"

text \<open>The range of the second byte after a lead byte of three or four.\<close>

definition second_ok :: "nat \<Rightarrow> nat \<Rightarrow> bool" where
  "second_ok b b1 =
     (if b = 0xE0 then in_range 0xA0 0xBF b1
      else if b = 0xED then in_range 0x80 0x9F b1
      else if b = 0xF0 then in_range 0x90 0xBF b1
      else if b = 0xF4 then in_range 0x80 0x8F b1
      else in_range 0x80 0xBF b1)"

text \<open>One character and how many further bytes it takes, from a lead byte and what follows.\<close>

definition decode1 :: "nat \<Rightarrow> nat list \<Rightarrow> rchar \<times> nat" where
  "decode1 b bs =
     (let b1 = safe_get bs 0; b2 = safe_get bs 1; b3 = safe_get bs 2;
          cont = in_range 0x80 0xBF
      in if b < 0x80 then (b, 0)
         else if in_range 0xC2 0xDF b then
           if cont b1 then ((b - 0xC0) * 64 + (b1 - 0x80), 1) else (replacement, 0)
         else if in_range 0xE0 0xEF b then
           if \<not> second_ok b b1 then (replacement, 0)
           else if \<not> cont b2 then (replacement, 1)
           else ((b - 0xE0) * 4096 + (b1 - 0x80) * 64 + (b2 - 0x80), 2)
         else if in_range 0xF0 0xF4 b then
           if \<not> second_ok b b1 then (replacement, 0)
           else if \<not> cont b2 then (replacement, 1)
           else if \<not> cont b3 then (replacement, 2)
           else ((b - 0xF0) * 262144 + (b1 - 0x80) * 4096 + (b2 - 0x80) * 64 + (b3 - 0x80), 3)
         else (replacement, 0))"

function decode_lossy :: "nat list \<Rightarrow> rstr" where
  "decode_lossy [] = []"
| "decode_lossy (b # bs) = fst (decode1 b bs) # decode_lossy (drop (snd (decode1 b bs)) bs)"
  by pat_completeness auto
termination
  by (relation "measure length") auto

definition utf8_lossy :: "u8 list \<Rightarrow> rstr" where
  "utf8_lossy bs = decode_lossy (map unat bs)"

section \<open>Round trip\<close>

lemma unat_byte [simp]: "x < 256 \<Longrightarrow> unat (word_of_nat x :: u8) = x"
  by (simp add: unat_of_nat)

lemma safe_get_Cons [simp]: "safe_get (b # bs) 0 = b" "safe_get (b # bs) (Suc k) = safe_get bs k"
  by (simp_all add: safe_get_def)

lemma decode_two:
  assumes "128 \<le> c" "c < 2048"
  shows "decode1 (192 + c div 64) ((128 + c mod 64) # bs) = (c, 1)"
proof -
  have "in_range 0xC2 0xDF (192 + c div 64)" "in_range 0x80 0xBF (128 + c mod 64)"
    using assms by (simp_all add: in_range_def) linarith+
  then show ?thesis by (simp add: decode1_def Let_def)
qed

lemma digits3: "(c :: nat) div 4096 * 4096 + c div 64 mod 64 * 64 + c mod 64 = c"
proof -
  have "c div 64 div 64 = c div 4096" by (simp flip: div_mult2_eq)
  then show ?thesis
    using div_mult_mod_eq [of "c div 64" 64] div_mult_mod_eq [of c 64] by linarith
qed

lemma digits4: "(c :: nat) div 262144 * 262144 + c div 4096 mod 64 * 4096 + c div 64 mod 64 * 64 + c mod 64 = c"
proof -
  have "c div 4096 div 64 = c div 262144" by (simp flip: div_mult2_eq)
  then show ?thesis
    using digits3 [of c] div_mult_mod_eq [of "c div 4096" 64] by linarith
qed

lemma decode_three:
  assumes "2048 \<le> c" "c < 65536" "is_scalar c"
  shows "decode1 (224 + c div 4096) ((128 + c div 64 mod 64) # (128 + c mod 64) # bs) = (c, 2)"
proof -
  have lead: "in_range 0xE0 0xEF (224 + c div 4096)"
    using assms by (simp add: in_range_def)
  have "32 \<le> c div 64 mod 64" if "c div 4096 = 0"
    using that assms(1) digits3 [of c] mod_less_divisor [of 64 c] by linarith
  moreover have "c div 64 mod 64 < 32" if "c div 4096 = 13"
  proof (rule ccontr)
    assume "\<not> c div 64 mod 64 < 32"
    then have "0xD800 \<le> c" "c < 0xE000"
      using that digits3 [of c] mod_less_divisor [of 64 c] mod_less_divisor [of 64 "c div 64"] by linarith+
    with assms(3) show False by (simp add: is_scalar_def)
  qed
  ultimately have "second_ok (224 + c div 4096) (128 + c div 64 mod 64)"
    using lead by (auto simp: second_ok_def in_range_def)
  moreover have "in_range 0x80 0xBF (128 + c mod 64)" by (simp add: in_range_def)
  moreover have "224 + c div 4096 \<noteq> 0 \<and> \<not> 224 + c div 4096 < 128 \<and> \<not> in_range 0xC2 0xDF (224 + c div 4096)"
    by (simp add: in_range_def)
  ultimately show ?thesis
    using lead digits3 [of c] by (simp add: decode1_def Let_def numeral_2_eq_2)
qed

lemma decode_four:
  assumes "65536 \<le> c" "is_scalar c"
  shows "decode1 (240 + c div 262144)
    ((128 + c div 4096 mod 64) # (128 + c div 64 mod 64) # (128 + c mod 64) # bs) = (c, 3)"
proof -
  have lead: "in_range 0xF0 0xF4 (240 + c div 262144)"
    using assms by (simp add: in_range_def is_scalar_def)
  have "16 \<le> c div 4096 mod 64" if "c div 262144 = 0"
    using that assms(1) digits4 [of c] mod_less_divisor [of 64 c] mod_less_divisor [of 64 "c div 64"] by linarith
  moreover have "c div 4096 mod 64 < 16" if "c div 262144 = 4"
    using that assms(2) digits4 [of c] unfolding is_scalar_def by linarith
  ultimately have "second_ok (240 + c div 262144) (128 + c div 4096 mod 64)"
    using lead by (auto simp: second_ok_def in_range_def)
  moreover have "in_range 0x80 0xBF (128 + c div 64 mod 64)" "in_range 0x80 0xBF (128 + c mod 64)"
    by (simp_all add: in_range_def)
  moreover have "\<not> in_range 0xC2 0xDF (240 + c div 262144) \<and> \<not> in_range 0xE0 0xEF (240 + c div 262144)"
    by (simp add: in_range_def)
  ultimately show ?thesis
    using lead digits4 [of c] by (simp add: decode1_def Let_def numeral_2_eq_2)
qed

lemma unat_utf8_char:
  assumes "is_scalar c"
  shows "map unat (utf8_char c) =
    (if c < 128 then [c]
     else if c < 2048 then [192 + c div 64, 128 + c mod 64]
     else if c < 65536 then [224 + c div 4096, 128 + c div 64 mod 64, 128 + c mod 64]
     else [240 + c div 262144, 128 + c div 4096 mod 64, 128 + c div 64 mod 64, 128 + c mod 64])"
proof -
  have "c < 2048 \<Longrightarrow> 192 + c div 64 < 256" "c < 65536 \<Longrightarrow> 224 + c div 4096 < 256" "240 + c div 262144 < 256"
    "128 + c mod 64 < 256" "128 + c div 64 mod 64 < 256" "128 + c div 4096 mod 64 < 256"
    using assms unfolding is_scalar_def by linarith+
  then show ?thesis by (simp add: utf8_char_def unat_byte del: of_nat_add of_nat_numeral)
qed

lemma decode_one: "c < 128 \<Longrightarrow> decode1 c bs = (c, 0)"
  by (simp add: decode1_def Let_def)

lemma decode_utf8_char:
  "is_scalar c \<Longrightarrow> decode_lossy (map unat (utf8_char c) @ bs) = c # decode_lossy bs"
  by (simp add: unat_utf8_char decode_one decode_two decode_three decode_four numeral_2_eq_2 numeral_3_eq_3)

lemma utf8_lossy_inverse: "list_all is_scalar s \<Longrightarrow> utf8_lossy (utf8 s) = s"
  by (induction s) (simp_all add: utf8_lossy_def utf8_def decode_utf8_char)

end
