(* ===== verification/Bridge.thy ===== *)
theory Bridge
  imports Members Utf8
begin

text \<open>
  The commands and the epoll events of the I/O thread (\<^verbatim>\<open>srt-transport/src/epoll_bridge.rs\<close>):
  receiving, sending, accepting, the access-control hook, the readings answered to the Tokio side,
  and \<open>process_command\<close> and \<open>process_epoll_events\<close>, which dispatch to them.
\<close>

section \<open>Receiving\<close>

text \<open>One turn asks whether there is something to read, reads one message and delivers it.\<close>

primrec recv_loop :: "env \<Rightarrow> nat \<Rightarrow> socket_id \<Rightarrow> unit io" where
  "recv_loop E 0 i = emit EvOutOfFuel"
| "recv_loop E (Suc n) i = do {
     ready \<leftarrow> (if is_group_id i then return True
               else do {
                 (ok, rcv_data) \<leftarrow> srt_getsockflag E i SRTO_RCVDATA;
                 return (\<not> (ok < 0 \<or> rcv_data \<le> 0))
               });
     if \<not> ready then return ()
     else do {
       (ret, buf, srctime) \<leftarrow> srt_recvmsg2 E i;
       if ret \<le> 0 then return ()
       else do {
         entry \<leftarrow> lookup_sock i;
         _ \<leftarrow> if_some entry (\<lambda>s. if_some (ss_recv_tx s)
               (\<lambda>tx. emit (EvDeliver tx (with_srctime (take (nat ret) buf) srctime))));
         recv_loop E n i
       }
     }
   }"

definition handle_recv :: "env \<Rightarrow> socket_id \<Rightarrow> unit io" where
  "handle_recv E i = do {
     stop \<leftarrow> (if is_group_id i then do {
                raw \<leftarrow> srt_getsockstate E i;
                return (raw \<noteq> SRTS_CONNECTED)
              } else return False);
     if stop then return () else recv_loop E (e_fuel E) i
   }"

section \<open>Sending\<close>

text \<open>The backlog left over, and whether the backlog was sent and the channel is to be drained.\<close>

primrec drain_backlog :: "env \<Rightarrow> socket_id \<Rightarrow> bytes list \<Rightarrow> (bytes list \<times> bool) io" where
  "drain_backlog E i [] = return ([], True)"
| "drain_backlog E i (d # ds) = do {
     ret \<leftarrow> srt_sendmsg2 E i d;
     if ret < 0 then do {
       err \<leftarrow> last_srt_error E;
       return (if err = Err_AsyncSend then d # ds else ds, False)
     } else drain_backlog E i ds
   }"

primrec drain_channel :: "env \<Rightarrow> nat \<Rightarrow> socket_id \<Rightarrow> chan \<Rightarrow> bytes list \<Rightarrow> bytes list io" where
  "drain_channel E 0 i rx backlog = do {
     _ \<leftarrow> emit EvOutOfFuel;
     return backlog
   }"
| "drain_channel E (Suc n) i rx backlog = do {
     m \<leftarrow> try_recv E rx;
     (case m of
        RecvOk d \<Rightarrow> do {
          ret \<leftarrow> srt_sendmsg2 E i d;
          if ret < 0 then do {
            err \<leftarrow> last_srt_error E;
            return (if err = Err_AsyncSend then backlog @ [d] else backlog)
          } else drain_channel E n i rx backlog
        }
      | RecvEmpty \<Rightarrow> return backlog
      | RecvDisconnected \<Rightarrow> return backlog)
   }"

definition send_all :: "env \<Rightarrow> socket_id \<Rightarrow> socket_state \<Rightarrow> socket_state io" where
  "send_all E i s = do {
     (backlog, go) \<leftarrow> drain_backlog E i (ss_send_backlog s);
     backlog \<leftarrow> (if go then (case ss_send_rx s of
                                None \<Rightarrow> return backlog
                              | Some rx \<Rightarrow> drain_channel E (e_fuel E) i rx backlog)
                 else return backlog);
     return (s\<lparr> ss_send_backlog := backlog \<rparr>)
   }"

definition handle_send :: "env \<Rightarrow> socket_id \<Rightarrow> unit io" where
  "handle_send E i = with_sock i (send_all E i)"

section \<open>Accepting\<close>

definition add_to_epoll :: "socket_id \<Rightarrow> epoll_flags \<Rightarrow> unit io" where
  "add_to_epoll i fl = emit (EvEpollAdd i fl)"

definition handle_accept :: "env \<Rightarrow> socket_id \<Rightarrow> unit io" where
  "handle_accept E listener = do {
     accepted \<leftarrow> srt_accept E listener;
     if accepted < 0 then return ()
     else do {
       entry \<leftarrow> lookup_sock listener;
       handed \<leftarrow> (case Option.bind entry ss_accept_tx of
                    None \<Rightarrow> return False
                  | Some tx \<Rightarrow> ask (\<lambda>l. e_try_send E l tx accepted) (EvTrySend tx accepted));
       if \<not> handed then srt_close accepted
       else do {
         _ \<leftarrow> set_nonblocking accepted;
         add_to_epoll accepted \<lparr> fl_in = True, fl_err = True, fl_connect = False, fl_et = True \<rparr>
       }
     }
   }"

definition register_listen_callback :: "env \<Rightarrow> socket_id \<Rightarrow> (srt_error + unit) io" where
  "register_listen_callback E listener = do {
     entry \<leftarrow> lookup_sock listener;
     (case Option.bind entry ss_access_control of
        None \<Rightarrow> return (Inr ())
      | Some slot \<Rightarrow> do {
          ret \<leftarrow> ask (\<lambda>l. e_listen_callback E l listener slot) (EvListenCallback listener slot);
          if ret < 0 then do {
            err \<leftarrow> last_srt_error E;
            return (Inl err)
          } else return (Inr ())
        })
   }"

text \<open>
  What libsrt calls on a handshake: \<open>None\<close> stands for a null pointer. A panic of the policy is
  caught. The result is the C return code, 0 to accept.
\<close>

definition listen_callback_trampoline ::
  "bool \<Rightarrow> access_control option \<Rightarrow> i32 \<Rightarrow> sockaddr option \<Rightarrow> bytes option \<Rightarrow> i32" where
  "listen_callback_trampoline le opaque hs_version peeraddr streamid =
     (case opaque of
        None \<Rightarrow> 0
      | Some ac \<Rightarrow>
          (let info = \<lparr> hs_peer_addr = (case sockaddr_to_socket_addr le peeraddr of
                                          None \<Rightarrow> V4 [0, 0, 0, 0] 0 | Some a \<Rightarrow> a),
                        hs_stream_id = (case streamid of None \<Rightarrow> [] | Some bs \<Rightarrow> utf8_lossy bs),
                        hs_is_encrypted = False, hs_peer_socket_id = 0, hs_peer_version = hs_version \<rparr>
           in case ac info of
                Done (Inr _) \<Rightarrow> 0
              | Done (Inl _) \<Rightarrow> - 1
              | Panic \<Rightarrow> - 1))"

section \<open>Readings\<close>

definition bind_socket :: "env \<Rightarrow> socket_id \<Rightarrow> socket_addr \<Rightarrow> (srt_error + unit) io" where
  "bind_socket E i a = do {
     let sa = socket_addr_to_sockaddr (e_little_endian E) a;
     ret \<leftarrow> ask (\<lambda>l. e_bind E l i sa) (EvBind i sa);
     if ret < 0 then do {
       err \<leftarrow> last_srt_error E;
       return (Inl err)
     } else return (Inr ())
   }"

definition get_socket_stats :: "env \<Rightarrow> socket_id \<Rightarrow> (srt_error + srt_stats) io" where
  "get_socket_stats E i = do {
     (ret, perf) \<leftarrow> ask (\<lambda>l. e_bistats E l i) (EvBistats i);
     if ret < 0 then do {
       err \<leftarrow> last_srt_error E;
       return (Inl err)
     } else return (Inr (convert_perfmon_to_stats perf))
   }"

definition member_stats :: "env \<Rightarrow> group_row \<Rightarrow> group_member_stats io" where
  "member_stats E r = do {
     stats \<leftarrow> get_socket_stats E (row_id r);
     return \<lparr> gm_id = row_id r,
              gm_peer_addr = sockaddr_storage_to_socket_addr (e_little_endian E) (row_peeraddr r),
              gm_socket_status = raw_state_to_status (row_sockstate r),
              gm_member_status = map_member_status (row_memberstate r),
              gm_weight = row_weight r, gm_token = row_token r,
              gm_stats = (case stats of Inl _ \<Rightarrow> default_stats | Inr st \<Rightarrow> st) \<rparr>
   }"

definition get_group_member_stats :: "env \<Rightarrow> socket_id \<Rightarrow> group_member_stats list io" where
  "get_group_member_stats E i = do {
     (ret, count, _) \<leftarrow> srt_group_data E i 0;
     if ret < 0 \<and> count = 0 then return []
     else if count = 0 then return []
     else do {
       (ret, count, rows) \<leftarrow> srt_group_data E i count;
       if ret < 0 then return []
       else map_m (member_stats E) (take count rows)
     }
   }"

definition get_peer_addr :: "env \<Rightarrow> socket_id \<Rightarrow> socket_addr option io" where
  "get_peer_addr E i = do {
     (ret, sa) \<leftarrow> ask (\<lambda>l. e_getpeername E l i) (EvGetPeerName i);
     return (if ret < 0 then None else sockaddr_storage_to_socket_addr (e_little_endian E) sa)
   }"

definition get_local_addr :: "env \<Rightarrow> socket_id \<Rightarrow> socket_addr option io" where
  "get_local_addr E i = do {
     (ret, sa) \<leftarrow> ask (\<lambda>l. e_getsockname E l i) (EvGetSockName i);
     return (if ret < 0 then None else sockaddr_storage_to_socket_addr (e_little_endian E) sa)
   }"

text \<open>\<^verbatim>\<open>trim_end_matches\<close> with a character.\<close>

definition trim_end_matches :: "rchar \<Rightarrow> rstr \<Rightarrow> rstr" where
  "trim_end_matches c s = rev (dropWhile (\<lambda>x. x = c) (rev s))"

definition get_stream_id :: "env \<Rightarrow> socket_id \<Rightarrow> rstr io" where
  "get_stream_id E i = do {
     (ret, buf) \<leftarrow> ask (\<lambda>l. e_getstreamid E l i) (EvGetStreamId i);
     return (if ret < 0 \<or> buf = [] then [] else trim_end_matches 0 (utf8_lossy buf))
   }"

section \<open>Commands\<close>

text \<open>\<^verbatim>\<open>IoCommand::CreateSocket\<close>\<close>

definition create_socket :: "env \<Rightarrow> srt_config \<Rightarrow> reply_id \<Rightarrow> unit io" where
  "create_socket E config reply = do {
     sock \<leftarrow> ask (e_create_socket E) EvCreateSocket;
     if sock < 0 then do {
       err \<leftarrow> last_srt_error E;
       send_reply reply (ReplySocket (Inl err))
     } else do {
       _ \<leftarrow> set_nonblocking sock;
       _ \<leftarrow> apply_config sock config;
       send_reply reply (ReplySocket (Inr sock))
     }
   }"

text \<open>\<^verbatim>\<open>IoCommand::Listen\<close>\<close>

definition release :: "socket_id \<Rightarrow> unit io" where
  "release i = do {
     entry \<leftarrow> close_and_release i;
     if_some entry drop_state
   }"

definition listen :: "env \<Rightarrow> socket_id \<Rightarrow> i32 \<Rightarrow> reply_id \<Rightarrow> unit io" where
  "listen E i backlog reply = do {
     armed \<leftarrow> register_listen_callback E i;
     (case armed of
        Inl err \<Rightarrow> do {
          _ \<leftarrow> release i;
          send_reply reply (ReplyUnit (Inl err))
        }
      | Inr _ \<Rightarrow> do {
          ret \<leftarrow> ask (\<lambda>l. e_listen E l i backlog) (EvListen i backlog);
          if ret < 0 then do {
            err \<leftarrow> last_srt_error E;
            _ \<leftarrow> release i;
            send_reply reply (ReplyUnit (Inl err))
          } else do {
            _ \<leftarrow> add_to_epoll i \<lparr> fl_in = True, fl_err = True, fl_connect = False, fl_et = False \<rparr>;
            _ \<leftarrow> with_sock i (\<lambda>s. update_status (s\<lparr> ss_is_listener := True \<rparr>) S_Listening);
            send_reply reply (ReplyUnit (Inr ()))
          }
        })
   }"

text \<open>\<^verbatim>\<open>IoCommand::Connect\<close>. A reply that is neither sent nor stored is dropped.\<close>

definition set_connect_reply :: "socket_state \<Rightarrow> reply_id \<Rightarrow> socket_state io" where
  "set_connect_reply s reply = do {
     _ \<leftarrow> if_some (ss_connect_reply s) (\<lambda>r. emit (EvReplyDropped r));
     return (s\<lparr> ss_connect_reply := Some reply \<rparr>)
   }"

definition await_connect :: "socket_id \<Rightarrow> reply_id \<Rightarrow> unit io" where
  "await_connect i reply = do {
     entry \<leftarrow> lookup_sock i;
     (case entry of
        None \<Rightarrow> emit (EvReplyDropped reply)
      | Some s \<Rightarrow> do {
          s \<leftarrow> (do { s \<leftarrow> set_connect_reply s reply; update_status s S_Connecting });
          put_sock i s
        })
   }"

definition connect_started :: "env \<Rightarrow> socket_id \<Rightarrow> reply_id \<Rightarrow> unit io" where
  "connect_started E i reply = do {
     sock_state \<leftarrow> srt_getsockstate E i;
     if sock_state = SRTS_CONNECTED then do {
       _ \<leftarrow> add_to_epoll i \<lparr> fl_in = True, fl_err = True, fl_connect = False, fl_et = True \<rparr>;
       _ \<leftarrow> with_sock i (\<lambda>s. update_status s S_Connected);
       send_reply reply (ReplyUnit (Inr ()))
     } else if sock_state = SRTS_CONNECTING \<or> sock_state = SRTS_OPENED \<or> sock_state = SRTS_INIT then do {
       _ \<leftarrow> add_to_epoll i \<lparr> fl_in = True, fl_err = True, fl_connect = True, fl_et = True \<rparr>;
       await_connect i reply
     } else do {
       err \<leftarrow> last_srt_error E;
       send_reply reply (ReplyUnit (Inl err))
     }
   }"

definition connect :: "env \<Rightarrow> socket_id \<Rightarrow> socket_addr \<Rightarrow> reply_id \<Rightarrow> unit io" where
  "connect E i a reply = do {
     let sa = socket_addr_to_sockaddr (e_little_endian E) a;
     ret \<leftarrow> ask (\<lambda>l. e_connect E l i sa) (EvConnect i sa);
     if ret < 0 then do {
       err \<leftarrow> last_srt_error E;
       if err \<noteq> Err_AsyncFail then send_reply reply (ReplyUnit (Inl err))
       else connect_started E i reply
     } else connect_started E i reply
   }"

text \<open>\<^verbatim>\<open>IoCommand::RegisterSocket\<close> and \<^verbatim>\<open>IoCommand::RegisterListener\<close>. An assignment drops the old value.\<close>

definition with_entry :: "socket_id \<Rightarrow> socket_state \<Rightarrow> (socket_state \<Rightarrow> socket_state io) \<Rightarrow> unit io" where
  "with_entry i s0 f = do {
     entry \<leftarrow> lookup_sock i;
     s \<leftarrow> f (case entry of None \<Rightarrow> s0 | Some s \<Rightarrow> s);
     put_sock i s
   }"

definition set_channels :: "socket_state \<Rightarrow> chan \<Rightarrow> chan \<Rightarrow> chan \<Rightarrow> socket_state io" where
  "set_channels s recv_tx send_rx status_tx = do {
     _ \<leftarrow> if_some (ss_recv_tx s) (\<lambda>c. emit (EvDropRecvTx c));
     _ \<leftarrow> if_some (ss_send_rx s) (\<lambda>c. emit (EvDropSendRx c));
     _ \<leftarrow> if_some (ss_status_tx s) (\<lambda>c. emit (EvDropStatusTx c));
     return (s\<lparr> ss_recv_tx := Some recv_tx, ss_send_rx := Some send_rx, ss_status_tx := Some status_tx \<rparr>)
   }"

definition initial_status :: "env \<Rightarrow> socket_id \<Rightarrow> socket_state \<Rightarrow> socket_state io" where
  "initial_status E i s =
     (if ss_is_group s then return s
      else do {
        raw \<leftarrow> srt_getsockstate E i;
        if raw_state_to_status raw \<noteq> ss_last_status s
        then update_status s (raw_state_to_status raw) else return s
      })"

definition register_socket :: "env \<Rightarrow> socket_id \<Rightarrow> chan \<Rightarrow> chan \<Rightarrow> chan \<Rightarrow> unit io" where
  "register_socket E i recv_tx send_rx status_tx =
     with_entry i (new_socket_state False False False) (\<lambda>s. do {
       s \<leftarrow> set_channels s recv_tx send_rx status_tx;
       initial_status E i s
     })"

definition set_listener :: "socket_state \<Rightarrow> chan \<Rightarrow> slot option \<Rightarrow> socket_state io" where
  "set_listener s accept_tx access_control = do {
     _ \<leftarrow> if_some (ss_accept_tx s) (\<lambda>c. emit (EvDropAcceptTx c));
     let s = s\<lparr> ss_accept_tx := Some accept_tx \<rparr>;
     (case access_control of
        None \<Rightarrow> return s
      | Some ac \<Rightarrow> do {
          _ \<leftarrow> if_some (ss_access_control s) (\<lambda>a. emit (EvFreeSlot a));
          return (s\<lparr> ss_access_control := Some ac \<rparr>)
        })
   }"

definition register_listener :: "socket_id \<Rightarrow> chan \<Rightarrow> slot option \<Rightarrow> unit io" where
  "register_listener i accept_tx access_control =
     with_entry i (new_socket_state True False False) (\<lambda>s. set_listener s accept_tx access_control)"

text \<open>\<^verbatim>\<open>IoCommand::CreateGroup\<close> and \<^verbatim>\<open>IoCommand::ConnectGroup\<close>\<close>

definition create_group :: "env \<Rightarrow> group_type \<Rightarrow> srt_config \<Rightarrow> reply_id \<Rightarrow> unit io" where
  "create_group E mode config reply = do {
     grp \<leftarrow> ask (\<lambda>l. e_create_group E l mode) (EvCreateGroup mode);
     if grp < 0 then do {
       err \<leftarrow> last_srt_error E;
       send_reply reply (ReplySocket (Inl err))
     } else do {
       _ \<leftarrow> set_nonblocking grp;
       _ \<leftarrow> apply_config grp config;
       old \<leftarrow> lookup_sock grp;
       _ \<leftarrow> put_sock grp (new_socket_state False True (mode = SRT_GTYPE_BACKUP));
       _ \<leftarrow> if_some old drop_state;
       send_reply reply (ReplySocket (Inr grp))
     }
   }"

definition watch_members ::
  "env \<Rightarrow> instant \<Rightarrow> (group_endpoint \<times> (srt_error + socket_id)) list \<Rightarrow> watched_member list io" where
  "watch_members E now pairs =
     map_m (\<lambda>(ep, m). watched_spawned E m ep now)
       (List.map_filter (\<lambda>(ep, r). case r of Inl _ \<Rightarrow> None | Inr m \<Rightarrow> Some (ep, m)) pairs)"

definition connect_group_cmd :: "env \<Rightarrow> socket_id \<Rightarrow> group_endpoint list \<Rightarrow> reply_id \<Rightarrow> unit io" where
  "connect_group_cmd E i endpoints reply = do {
     gc \<leftarrow> connect_group E i endpoints;
     (case gc_refused gc of
        Some err \<Rightarrow> send_reply reply (ReplyUnit (Inl err))
      | None \<Rightarrow> do {
          _ \<leftarrow> add_to_epoll i \<lparr> fl_in = True, fl_err = True, fl_connect = False, fl_et = True \<rparr>;
          _ \<leftarrow> with_sock i (\<lambda>s. do {
            s \<leftarrow> update_status s S_Connected;
            if ss_is_group s then do {
              now \<leftarrow> instant_now E;
              ws \<leftarrow> watch_members E now (zip endpoints (gc_members gc));
              return (s\<lparr> ss_watched := ss_watched s @ ws \<rparr>)
            } else return s
          });
          send_reply reply (ReplyUnit (Inr ()))
        })
   }"

text \<open>The result tells whether the thread goes on.\<close>

definition process_command :: "env \<Rightarrow> io_command \<Rightarrow> bool io" where
  "process_command E cmd =
     (case cmd of
        CreateSocket config reply \<Rightarrow> do { _ \<leftarrow> create_socket E config reply; return True }
      | Bind i a reply \<Rightarrow> do {
          r \<leftarrow> bind_socket E i a;
          _ \<leftarrow> send_reply reply (ReplyUnit r);
          return True
        }
      | Listen i backlog reply \<Rightarrow> do { _ \<leftarrow> listen E i backlog reply; return True }
      | Connect i a reply \<Rightarrow> do { _ \<leftarrow> connect E i a reply; return True }
      | RegisterSocket i recv_tx send_rx status_tx \<Rightarrow> do {
          _ \<leftarrow> register_socket E i recv_tx send_rx status_tx;
          return True
        }
      | RegisterListener i accept_tx ac \<Rightarrow> do { _ \<leftarrow> register_listener i accept_tx ac; return True }
      | GetStats i reply \<Rightarrow> do {
          r \<leftarrow> get_socket_stats E i;
          _ \<leftarrow> send_reply reply (ReplyStats r);
          return True
        }
      | GetState i reply \<Rightarrow> do {
          raw \<leftarrow> srt_getsockstate E i;
          _ \<leftarrow> send_reply reply (ReplyStatus (raw_state_to_status raw));
          return True
        }
      | GetPeerAddr i reply \<Rightarrow> do {
          a \<leftarrow> get_peer_addr E i;
          _ \<leftarrow> send_reply reply (ReplyAddr a);
          return True
        }
      | GetLocalAddr i reply \<Rightarrow> do {
          a \<leftarrow> get_local_addr E i;
          _ \<leftarrow> send_reply reply (ReplyAddr a);
          return True
        }
      | GetStreamId i reply \<Rightarrow> do {
          sid \<leftarrow> get_stream_id E i;
          _ \<leftarrow> send_reply reply (ReplyStr sid);
          return True
        }
      | Close i \<Rightarrow> do {
          entry \<leftarrow> close_and_release i;
          _ \<leftarrow> if_some entry (finish_state Err_SocketClosed);
          return True
        }
      | CreateGroup mode config reply \<Rightarrow> do { _ \<leftarrow> create_group E mode config reply; return True }
      | ConnectGroup i endpoints reply \<Rightarrow> do { _ \<leftarrow> connect_group_cmd E i endpoints reply; return True }
      | AddGroupMember i endpoint reply \<Rightarrow> do {
          r \<leftarrow> add_group_member E i endpoint;
          _ \<leftarrow> send_reply reply (ReplyUnit r);
          return True
        }
      | TestStrandMember i endpoint reply \<Rightarrow> do {
          r \<leftarrow> force_stranded E i endpoint;
          _ \<leftarrow> send_reply reply (ReplyUnit r);
          return True
        }
      | GetGroupMemberStats i reply \<Rightarrow> do {
          ms \<leftarrow> get_group_member_stats E i;
          _ \<leftarrow> send_reply reply (ReplyMembers ms);
          return True
        }
      | Shutdown \<Rightarrow> return False)"

section \<open>Epoll events\<close>

definition group_err_is_real :: "env \<Rightarrow> socket_id \<Rightarrow> bool io" where
  "group_err_is_real E grp = do {
     raw \<leftarrow> srt_getsockstate E grp;
     return (is_terminal_status (raw_state_to_status raw))
   }"

definition connect_completed :: "env \<Rightarrow> socket_id \<Rightarrow> unit io" where
  "connect_completed E i = with_sock i (\<lambda>s.
     case ss_connect_reply s of
       None \<Rightarrow> return s
     | Some reply \<Rightarrow> do {
         let s = s\<lparr> ss_connect_reply := None \<rparr>;
         sock_state \<leftarrow> srt_getsockstate E i;
         if sock_state = SRTS_CONNECTED then do {
           _ \<leftarrow> send_reply reply (ReplyUnit (Inr ()));
           update_status s S_Connected
         } else do {
           err \<leftarrow> last_srt_error E;
           _ \<leftarrow> send_reply reply (ReplyUnit (Inl err));
           update_status s S_Broken
         }
       })"

definition epoll_error :: "env \<Rightarrow> socket_id \<Rightarrow> unit io" where
  "epoll_error E i = with_sock i (\<lambda>s. do {
     spurious \<leftarrow> (if ss_is_group s then do {
                    real \<leftarrow> group_err_is_real E i;
                    return (\<not> real)
                  } else return False);
     if spurious then return s else update_status s S_Broken
   })"

definition process_epoll_event :: "env \<Rightarrow> epoll_event \<Rightarrow> unit io" where
  "process_epoll_event E ev = do {
     let i = ev_fd ev;
     entry \<leftarrow> lookup_sock i;
     if (case entry of None \<Rightarrow> False | Some s \<Rightarrow> ss_is_listener s) \<and> ev_in ev
     then handle_accept E i
     else do {
       _ \<leftarrow> (if ev_connect ev then connect_completed E i else return ());
       _ \<leftarrow> (if ev_in ev then handle_recv E i else return ());
       _ \<leftarrow> (if ev_out ev then handle_send E i else return ());
       if ev_err ev then epoll_error E i else return ()
     }
   }"

definition process_epoll_events :: "env \<Rightarrow> epoll_event list \<Rightarrow> unit io" where
  "process_epoll_events E events = for_each (process_epoll_event E) events"

section \<open>The ledger\<close>

lemma calls_add_to_epoll [calls]: "keeps (calls_since b0) (add_to_epoll i fl)"
  unfolding add_to_epoll_def by (intro calls) (simp add: ev_defs)

lemma calls_readings [calls]:
  "keeps (calls_since b0) (bind_socket E i a)" "keeps (calls_since b0) (get_socket_stats E i)"
  "keeps (calls_since b0) (get_peer_addr E i)" "keeps (calls_since b0) (get_local_addr E i)"
  "keeps (calls_since b0) (get_stream_id E i)" "keeps (calls_since b0) (group_err_is_real E i)"
  unfolding bind_socket_def get_socket_stats_def get_peer_addr_def get_local_addr_def get_stream_id_def
    group_err_is_real_def
  by (intro keep calls; simp add: ev_defs)+

lemma calls_group_stats [calls]:
  "keeps (calls_since b0) (member_stats E r)" "keeps (calls_since b0) (get_group_member_stats E i)"
  unfolding get_group_member_stats_def member_stats_def by (intro keep calls)+

lemma calls_watch_members [calls]: "keeps (calls_since b0) (watch_members E now ps)"
  unfolding watch_members_def by (intro keep calls)

lemma calls_recv_loop [calls]: "keeps (calls_since b0) (recv_loop E n i)"
  by (induction n) (auto intro!: keep calls simp: ev_defs)

lemma calls_handle_recv [calls]: "keeps (calls_since b0) (handle_recv E i)"
  unfolding handle_recv_def by (intro keep calls)

lemma calls_drain_backlog [calls]: "keeps (calls_since b0) (drain_backlog E i ds)"
  by (induction ds) (auto intro!: keep calls)

lemma keep_try_recv [keep]:
  "(\<And>d. m = RecvOk d \<Longrightarrow> keeps I (f d)) \<Longrightarrow> keeps I e \<Longrightarrow> keeps I g
   \<Longrightarrow> keeps I (case m of RecvOk d \<Rightarrow> f d | RecvEmpty \<Rightarrow> e | RecvDisconnected \<Rightarrow> g)"
  by (cases m) simp_all

lemma calls_drain_channel [calls]: "keeps (calls_since b0) (drain_channel E n i rx bl)"
  by (induction n arbitrary: bl) (auto intro!: keep calls simp: ev_defs)

lemma conserves_calls [moves]:
  assumes "\<And>b0. keeps (quiet_since b0) m" and "\<And>x. conserves D s (f x)"
  shows "conserves D s (State_Monad.bind m f)"
  using assms(2) unfolding conserves_def by (simp add: case_prod_beta quiet_ledger [OF assms(1)])

lemma conserves_emit:
  assumes "holds s + D = holds s' + releases ev + D'" and "conserves D' s' m"
  shows "conserves D s (State_Monad.bind (emit ev) (\<lambda>_. m))"
  unfolding conserves_def
proof (intro allI)
  fix b :: bridge
  have "released (log b) + holds s + D = released (log b) + (holds s' + releases ev + D')"
    using assms(1) by (simp add: ac_simps)
  then show "sockets (snd (run_state (State_Monad.bind (emit ev) (\<lambda>_. m)) b)) = sockets b \<and>
      released (log (snd (run_state (State_Monad.bind (emit ev) (\<lambda>_. m)) b)))
        + holds (fst (run_state (State_Monad.bind (emit ev) (\<lambda>_. m)) b)) = released (log b) + holds s + D"
    using assms(2) [unfolded conserves_def, rule_format, of "b\<lparr> log := ev # log b \<rparr>"] by (simp add: ac_simps)
qed

lemma conserves_prod [moves]: "(\<And>a b. x = (a, b) \<Longrightarrow> conserves D s (f a b)) \<Longrightarrow> conserves D s (case x of (a, b) \<Rightarrow> f a b)"
  by (cases x) simp

lemma holds_fields [simp]:
  "holds (s\<lparr> ss_send_backlog := x1 \<rparr>) = holds s" "holds (s\<lparr> ss_is_listener := x2 \<rparr>) = holds s"
  "holds (new_socket_state l g k) = {#}"
  by (simp_all add: holds_def new_socket_state_def)

lemma holds_reply: "ss_connect_reply s = Some r \<Longrightarrow> holds s = holds (s\<lparr> ss_connect_reply := None \<rparr>) + {#R_Reply r#}"
  by (simp add: holds_def)

lemmas quiet_all = calls [THEN calls_quiet]

lemma conserves_send_all: "conserves {#} s (send_all E i s)"
  unfolding send_all_def by (intro moves keep quiet_all) simp

lemma moves_handle_send [moves]: "moves {#} (handle_send E i)"
  unfolding handle_send_def by (intro moves conserves_send_all)

lemma moves_calls [moves]: "(\<And>b0. keeps (calls_since b0) m) \<Longrightarrow> moves {#} m"
  by (rule moves_quiet [OF calls_quiet])

lemma conserves_connect_completed:
  "conserves {#} s (case ss_connect_reply s of
       None \<Rightarrow> return s
     | Some reply \<Rightarrow> do {
         let s = s\<lparr> ss_connect_reply := None \<rparr>;
         sock_state \<leftarrow> srt_getsockstate E i;
         if sock_state = SRTS_CONNECTED then do {
           _ \<leftarrow> send_reply reply (ReplyUnit (Inr ()));
           update_status s S_Connected
         } else do {
           err \<leftarrow> last_srt_error E;
           _ \<leftarrow> send_reply reply (ReplyUnit (Inl err));
           update_status s S_Broken
         }
       })"
proof (cases "ss_connect_reply s")
  case (Some r)
  then have "conserves {#} s (State_Monad.bind (emit (EvReply r v)) (\<lambda>_. update_status (s\<lparr> ss_connect_reply := None \<rparr>) st))" for v st
    by (intro conserves_emit [OF _ conserves_update_status]) (simp add: holds_reply)
  note reply = this
  show ?thesis
    unfolding Some option.case Let_def send_reply_def
    by (intro conserves_calls [OF calls_quiet [OF calls_prims(3)]] conserves_if reply
        conserves_calls [OF calls_quiet [OF calls_prims(2)]])
qed (simp add: conserves_return)

lemma moves_connect_completed [moves]: "moves {#} (connect_completed E i)"
  unfolding connect_completed_def by (intro moves_with_sock conserves_connect_completed)

lemma moves_epoll_error [moves]: "moves {#} (epoll_error E i)"
  unfolding epoll_error_def by (intro moves keep quiet_all) simp

lemma moves_close [moves]: "moves {#} (srt_close i)"
  unfolding srt_close_def by (rule moves_emit) (simp add: releases_def)

lemma moves_handle_accept [moves]: "moves {#} (handle_accept E i)"
  unfolding handle_accept_def
  by (intro moves_bind0 moves_if moves_option moves_close moves_calls keep calls)
     (simp_all add: ev_defs)

lemma moves_process_epoll_event [moves]: "moves {#} (process_epoll_event E ev)"
  unfolding process_epoll_event_def Let_def
  by (intro moves_bind0 moves_if moves_return moves_handle_accept moves_connect_completed moves_handle_send
      moves_epoll_error moves_lookup_sock moves_calls calls)

lemma moves_process_epoll_events [moves]: "moves {#} (process_epoll_events E events)"
  unfolding process_epoll_events_def by (intro moves)

lemma moves_send_reply: "moves {#R_Reply r#} (send_reply r v)"
  unfolding send_reply_def by (rule moves_emit) simp

lemma moves_reply_return: "moves {#R_Reply r#} (do { _ \<leftarrow> send_reply r v; return x })"
  by (rule moves_bind [OF moves_send_reply moves_return]) simp

lemma moves_then_return: "moves D m \<Longrightarrow> moves D (do { _ \<leftarrow> m; return x })"
  by (erule moves_bind [OF _ moves_return]) simp

lemma moves_with_entry:
  assumes f: "\<And>s. conserves D s (f s)" and s0: "holds s0 = {#}"
  shows "moves D (with_entry i s0 f)"
proof -
  have "distinct_keys (snd (run_state (with_entry i s0 f) b)) \<and> ledger (snd (run_state (with_entry i s0 f) b)) = ledger b + D"
    if d: "distinct_keys b" for b
  proof -
    let ?s = "case map_of (sockets b) i of None \<Rightarrow> s0 | Some s \<Rightarrow> s"
    have "entry_holds b i = holds ?s" by (simp add: entry_holds_def s0 split: option.split)
    from put_entry_ledger [OF this f d, of "fst (run_state (f ?s) b)" "snd (run_state (f ?s) b)"]
    show ?thesis by (simp add: with_entry_def case_prod_beta)
  qed
  then show ?thesis by (simp add: moves_def)
qed

lemma conserves_set_channels:
  "conserves {#R_RecvTx tx, R_SendRx rx, R_StatusTx st#} s (set_channels s tx rx st)"
  by (simp add: conserves_def set_channels_def holds_def split: option.split)

lemma conserves_initial_status: "conserves {#} s (initial_status E i s)"
  unfolding initial_status_def by (intro moves quiet_all) simp_all

lemma conserves_set_listener: "conserves (add_mset (R_AcceptTx tx) (res R_Slot ac)) s (set_listener s tx ac)"
  by (simp add: conserves_def set_listener_def holds_def Let_def split: option.split)

lemma conserves_set_connect_reply: "conserves {#R_Reply r#} s (set_connect_reply s r)"
  by (simp add: conserves_def set_connect_reply_def holds_def split: option.split)

lemma moves_register_socket: "moves {#R_RecvTx tx, R_SendRx rx, R_StatusTx st#} (register_socket E i tx rx st)"
  unfolding register_socket_def
  by (rule moves_with_entry [OF conserves_bind [OF conserves_set_channels conserves_initial_status]]) simp_all

lemma moves_register_listener: "moves (add_mset (R_AcceptTx tx) (res R_Slot ac)) (register_listener i tx ac)"
  unfolding register_listener_def by (rule moves_with_entry [OF conserves_set_listener]) simp

lemma moves_await_connect: "moves {#R_Reply r#} (await_connect i r)"
proof -
  have c: "conserves {#R_Reply r#} s (do { s \<leftarrow> set_connect_reply s r; update_status s S_Connecting })" for s
    by (rule conserves_bind [OF conserves_set_connect_reply conserves_update_status]) simp
  have "distinct_keys (snd (run_state (await_connect i r) b))
      \<and> ledger (snd (run_state (await_connect i r) b)) = ledger b + {#R_Reply r#}" if d: "distinct_keys b" for b
  proof (cases "map_of (sockets b) i")
    case None
    with d show ?thesis
      by (simp add: await_connect_def ledger_def distinct_keys_def)
  next
    case (Some s)
    let ?m = "do { s \<leftarrow> set_connect_reply s r; update_status s S_Connecting }"
    from put_sock_ledger [OF Some c d, of "fst (run_state ?m b)" "snd (run_state ?m b)"] Some
    show ?thesis unfolding await_connect_def by (simp add: case_prod_beta)
  qed
  then show ?thesis by (simp add: moves_def)
qed

lemma moves_connect: "moves {#R_Reply r#} (connect E i a r)"
  unfolding connect_def connect_started_def Let_def
  by (intro moves_bind0 moves_if moves_send_reply moves_await_connect moves_calls calls moves_with_sock
      conserves_update_status) (simp_all add: ev_defs)

lemma moves_register_listen_callback: "moves {#} (register_listen_callback E i)"
  unfolding register_listen_callback_def
  by (intro moves_bind0 moves_lookup_sock moves_option moves_return moves_if moves_ask moves_calls [OF calls_prims(2)])
     (simp add: releases_def)

lemma moves_listen: "moves {#R_Reply r#} (listen E i n r)"
  unfolding listen_def release_def
  by (intro moves_bind0 [OF moves_register_listen_callback] moves_bind0 moves_if moves_sum moves_send_reply
      moves_close_drop moves_calls calls moves_with_sock conserves_frame [OF conserves_update_status]) (simp_all add: ev_defs)

lemma moves_create_socket: "moves {#R_Reply r#} (create_socket E c r)"
  unfolding create_socket_def
  by (intro moves_bind0 moves_if moves_send_reply moves_calls calls) (simp_all add: ev_defs)

lemma moves_replace_entry:
  assumes "holds s0 = {#}"
  shows "moves {#} (do { old \<leftarrow> lookup_sock i; _ \<leftarrow> put_sock i s0; if_some old drop_state })"
proof -
  have "ledger b' = ledger b"
    if "b' = snd (run_state (do { old \<leftarrow> lookup_sock i; _ \<leftarrow> put_sock i s0; if_some old drop_state }) b)" for b b'
  proof (cases "map_of (sockets b) i")
    case None
    then show ?thesis
      using that held_update [of i s0 "sockets b"] assms by (simp add: run_if_some ledger_def)
  next
    case (Some s)
    then show ?thesis
      using that held_update [of i s0 "sockets b"] assms
      by (simp add: run_if_some ledger_def released_drop_events ac_simps)
  qed
  then show ?thesis
    by (simp add: moves_def distinct_keys_def run_if_some distinct_update split: option.split)
qed

lemma moves_create_group: "moves {#R_Reply r#} (create_group E mode c r)"
proof -
  have "moves {#R_Reply r#} (do {
      _ \<leftarrow> do { old \<leftarrow> lookup_sock g; _ \<leftarrow> put_sock g (new_socket_state False True k); if_some old drop_state };
      send_reply r v })" for g k v
    by (intro moves_bind0 [OF moves_replace_entry] moves_send_reply) simp
  then have body: "moves {#R_Reply r#} (do {
      old \<leftarrow> lookup_sock g; _ \<leftarrow> put_sock g (new_socket_state False True k); _ \<leftarrow> if_some old drop_state;
      send_reply r v })" for g k v
    by (simp add: moves_def case_prod_beta)
  show ?thesis
    unfolding create_group_def
    by (intro moves_bind0 [OF moves_calls [OF calls_config(1)]] moves_bind0 [OF moves_calls [OF calls_config(2)]]
        moves_bind0 [OF moves_calls [OF calls_prims(2)]] moves_bind0 [OF moves_ask] moves_if body moves_send_reply)
       (simp add: releases_def)
qed

lemma moves_connect_group_cmd: "moves {#R_Reply r#} (connect_group_cmd E i eps r)"
proof -
  have "conserves {#} s (do {
      s \<leftarrow> update_status s S_Connected;
      if ss_is_group s then do {
        now \<leftarrow> instant_now E;
        ws \<leftarrow> watch_members E now ps;
        return (s\<lparr> ss_watched := ss_watched s @ ws \<rparr>)
      } else return s })" for s ps
    by (rule conserves_bind [OF conserves_update_status, where D' = "{#}"])
       (intro conserves_if conserves_calls quiet_all conserves_return; simp; fail | simp)+
  then show ?thesis
    unfolding connect_group_cmd_def
    by (intro moves_bind0 moves_option moves_send_reply moves_with_sock moves_calls calls) simp_all
qed

lemmas moves_commands = moves_create_socket moves_listen moves_connect moves_register_socket
  moves_register_listener moves_create_group moves_connect_group_cmd moves_reply_return

lemma moves_answer:
  "(\<And>b0. keeps (calls_since b0) m) \<Longrightarrow> moves {#R_Reply r#} (do { x \<leftarrow> m; _ \<leftarrow> send_reply r (f x); return y })"
  by (intro moves_bind0 [OF moves_calls] moves_reply_return)

lemma moves_process_command: "moves (carries cmd) (process_command E cmd)"
proof (cases cmd)
  case (Close i)
  have "moves {#} (do { _ \<leftarrow> (do { entry \<leftarrow> close_and_release i; if_some entry (finish_state Err_SocketClosed) }); return True })"
    by (rule moves_then_return [OF moves_close_finish])
  with Close show ?thesis by (simp add: process_command_def carries_def moves_def case_prod_beta)
next
  case (AddGroupMember i ep r)
  then show ?thesis
    by (simp add: process_command_def carries_def moves_bind0 [OF moves_add_group_member moves_reply_return])
next
  case (TestStrandMember i ep r)
  then show ?thesis
    by (simp add: process_command_def carries_def moves_bind0 [OF moves_force_stranded moves_reply_return])
qed (simp_all add: process_command_def carries_def moves_return moves_then_return moves_commands moves_answer calls)

end
