(* ===== verification/Io_Loop.thy ===== *)
theory Io_Loop
  imports Bridge
begin

text \<open>
  The main loop of the I/O thread, \<^verbatim>\<open>io_thread_main\<close> of \<^verbatim>\<open>srt-transport/src/epoll_bridge.rs\<close>: parking
  when there is no socket, draining the command channel, the idle and the active path with their
  timers, and the throttled state poll. The thread's local variables are the record
  \<open>loop_state\<close>; a turn of the loop returns the next one, or \<open>None\<close> when the thread returns. The
  number of turns is fuel, and so is the number of commands drained in one turn.
\<close>

section \<open>The loop\<close>

record loop_state =
  ls_state_poll_counter :: u32
  ls_consecutive_epoll_errors :: u32
  ls_last_group_sweep :: instant
  ls_last_stranded_check :: instant
  ls_group_rows :: "group_row list"

definition STATE_POLL_INTERVAL :: u32 where "STATE_POLL_INTERVAL = 100"

definition next_cmd :: "env \<Rightarrow> cmd_result io" where
  "next_cmd E = ask (e_next_cmd E) EvNextCmd"

text \<open>Whether the thread goes on; when it does not, it has cleaned up.\<close>

definition handle_cmd :: "env \<Rightarrow> io_command \<Rightarrow> bool io" where
  "handle_cmd E cmd = do {
     go \<leftarrow> process_command E cmd;
     if go then return True
     else do {
       _ \<leftarrow> cleanup E;
       return False
     }
   }"

primrec drain_commands :: "env \<Rightarrow> nat \<Rightarrow> bool io" where
  "drain_commands E 0 = do { _ \<leftarrow> emit EvOutOfFuel; return True }"
| "drain_commands E (Suc n) = do {
     m \<leftarrow> next_cmd E;
     (case m of
        CmdOk cmd \<Rightarrow> do {
          go \<leftarrow> handle_cmd E cmd;
          if go then drain_commands E n else return False
        }
      | CmdEmpty \<Rightarrow> return True
      | CmdDisconnected \<Rightarrow> do {
          _ \<leftarrow> cleanup E;
          return False
        })
   }"

definition epoll_uwait :: "env \<Rightarrow> nat \<Rightarrow> (i32 \<times> epoll_event list) io" where
  "epoll_uwait E timeout_ms = ask (\<lambda>l. e_epoll_uwait E l timeout_ms) (EvEpollWait timeout_ms)"

definition any_status :: "socket_status \<Rightarrow> bool io" where
  "any_status st = gets (\<lambda>b. \<exists>e \<in> set (sockets b). ss_last_status (snd e) = st)"

definition idle_path :: "env \<Rightarrow> unit io" where
  "idle_path E = do {
     (n, events) \<leftarrow> epoll_uwait E 0;
     _ \<leftarrow> (if n > 0 then process_epoll_events E (take (nat n) events) else return ());
     _ \<leftarrow> cleanup_zombies E;
     emit (EvSleep (from_millis 100))
   }"

definition drain_sends :: "env \<Rightarrow> unit io" where
  "drain_sends E = do {
     ids \<leftarrow> sock_ids E;
     for_each (\<lambda>i. do {
       entry \<leftarrow> lookup_sock i;
       if_some entry (\<lambda>s.
         if ss_send_rx s \<noteq> None \<and> ss_last_status s = S_Connected then handle_send E i else return ())
     }) ids
   }"

definition wants_sweep :: "env \<Rightarrow> socket_id \<Rightarrow> bool io" where
  "wants_sweep E i = do {
     entry \<leftarrow> lookup_sock i;
     (case entry of
        None \<Rightarrow> return False
      | Some s \<Rightarrow>
          if is_group_id i \<and> ss_last_status s = S_Connected
          then (case ss_recv_tx s of
                  None \<Rightarrow> return False
                | Some tx \<Rightarrow> do { closed \<leftarrow> is_closed E tx; return (\<not> closed) })
          else return False)
   }"

definition group_sweep :: "env \<Rightarrow> loop_state \<Rightarrow> loop_state io" where
  "group_sweep E ls = do {
     now \<leftarrow> instant_now E;
     if now - ls_last_group_sweep ls \<ge> GROUP_RECV_SWEEP then do {
       now \<leftarrow> instant_now E;
       ids \<leftarrow> sock_ids E;
       buf \<leftarrow> filter_m (wants_sweep E) ids;
       _ \<leftarrow> for_each (handle_recv E) buf;
       return (ls\<lparr> ls_last_group_sweep := now \<rparr>)
     } else return ls
   }"

definition stranded_check :: "env \<Rightarrow> loop_state \<Rightarrow> loop_state io" where
  "stranded_check E ls = do {
     now \<leftarrow> instant_now E;
     if now - ls_last_stranded_check ls \<ge> STRANDED_CHECK then do {
       now \<leftarrow> instant_now E;
       rows \<leftarrow> check_stranded_members E (ls_group_rows ls);
       return (ls\<lparr> ls_last_stranded_check := now, ls_group_rows := rows \<rparr>)
     } else return ls
   }"

definition poll_one :: "env \<Rightarrow> socket_id \<Rightarrow> unit io" where
  "poll_one E i = do {
     raw \<leftarrow> srt_getsockstate E i;
     let status = raw_state_to_status raw;
     with_sock i (\<lambda>s.
       if ss_is_group s \<and> ss_last_status s = S_Init then return s
       else if status \<noteq> ss_last_status s then do {
         s \<leftarrow> update_status s status;
         if status = S_Broken \<or> status = S_Closed then
           (case ss_connect_reply s of
              None \<Rightarrow> return s
            | Some reply \<Rightarrow> do {
                err \<leftarrow> last_srt_error E;
                _ \<leftarrow> send_reply reply (ReplyUnit (Inl err));
                return (s\<lparr> ss_connect_reply := None \<rparr>)
              })
         else return s
       } else return s)
   }"

definition state_poll :: "env \<Rightarrow> loop_state \<Rightarrow> loop_state io" where
  "state_poll E ls = do {
     let c = ls_state_poll_counter ls + 1;
     if c \<ge> STATE_POLL_INTERVAL then do {
       ids \<leftarrow> sock_ids E;
       _ \<leftarrow> for_each (poll_one E) ids;
       _ \<leftarrow> cleanup_zombies E;
       return (ls\<lparr> ls_state_poll_counter := 0 \<rparr>)
     } else return (ls\<lparr> ls_state_poll_counter := c \<rparr>)
   }"

definition active_path :: "env \<Rightarrow> bool \<Rightarrow> loop_state \<Rightarrow> loop_state io" where
  "active_path E has_connected ls = do {
     (n, events) \<leftarrow> epoll_uwait E (if has_connected then 10 else 100);
     if n < 0 then do {
       let errs = ls_consecutive_epoll_errors ls + 1;
       _ \<leftarrow> emit (EvSleep (from_millis (2 ^ min (unat errs) 7)));
       return (ls\<lparr> ls_consecutive_epoll_errors := errs \<rparr>)
     } else do {
       let ls = ls\<lparr> ls_consecutive_epoll_errors := 0 \<rparr>;
       _ \<leftarrow> (if n > 0 then process_epoll_events E (take (nat n) events) else return ());
       _ \<leftarrow> (if has_connected then drain_sends E else return ());
       ls \<leftarrow> (if has_connected then group_sweep E ls else return ls);
       ls \<leftarrow> stranded_check E ls;
       state_poll E ls
     }
   }"

definition io_turn :: "env \<Rightarrow> loop_state \<Rightarrow> loop_state option io" where
  "io_turn E ls = do {
     parked \<leftarrow> gets (\<lambda>b. sockets b = []);
     if parked then do {
       m \<leftarrow> next_cmd E;
       (case m of
          CmdOk cmd \<Rightarrow> do {
            go \<leftarrow> handle_cmd E cmd;
            return (if go then Some ls else None)
          }
        | CmdEmpty \<Rightarrow> return (Some ls)
        | CmdDisconnected \<Rightarrow> do {
            _ \<leftarrow> cleanup E;
            return None
          })
     } else do {
       go \<leftarrow> drain_commands E (e_fuel E);
       if \<not> go then return None
       else do {
         has_connected \<leftarrow> any_status S_Connected;
         connecting \<leftarrow> any_status S_Connecting;
         let has_connecting = (\<not> has_connected \<and> connecting);
         if \<not> has_connected \<and> \<not> has_connecting then do {
           _ \<leftarrow> idle_path E;
           return (Some ls)
         } else do {
           ls \<leftarrow> active_path E has_connected ls;
           return (Some ls)
         }
       }
     }
   }"

text \<open>The result tells whether the thread has returned within the turns given.\<close>

primrec io_loop :: "env \<Rightarrow> nat \<Rightarrow> loop_state \<Rightarrow> bool io" where
  "io_loop E 0 ls = return False"
| "io_loop E (Suc n) ls = do {
     r \<leftarrow> io_turn E ls;
     (case r of None \<Rightarrow> return True | Some ls \<Rightarrow> io_loop E n ls)
   }"

definition io_thread_main :: "env \<Rightarrow> nat \<Rightarrow> bool io" where
  "io_thread_main E n = do {
     sweep \<leftarrow> instant_now E;
     check \<leftarrow> instant_now E;
     io_loop E n \<lparr> ls_state_poll_counter = 0, ls_consecutive_epoll_errors = 0, ls_last_group_sweep = sweep,
                   ls_last_stranded_check = check, ls_group_rows = [] \<rparr>
   }"

end
