(* ===== verification/Thread.thy ===== *)
theory Thread
  imports Io_Loop
begin

text \<open>
  Invariants of the whole I/O thread. The locale \<open>thread_inv\<close> is the contract between the main loop
  and a property of the bridge state: what each operation the loop runs must keep. Whatever meets
  it holds at every turn of the thread, for every environment. The ledger, the repair limits and
  the safety of the access-control hook are its instances.
\<close>

section \<open>The contract\<close>

locale thread_inv =
  fixes E :: env and I :: "bridge \<Rightarrow> bool" and J :: "io_command \<Rightarrow> bridge \<Rightarrow> bool"
  assumes take_cmd: "I b \<Longrightarrow> e_next_cmd E (log b) = CmdOk cmd \<Longrightarrow> J cmd (b\<lparr> log := EvNextCmd (CmdOk cmd) # log b \<rparr>)"
    and cmd: "valid (J cmd) (process_command E cmd) (\<lambda>_. I)"
    and calls: "I b \<Longrightarrow> calls_since b b' \<Longrightarrow> I b'"
    and accept: "keeps I (handle_accept E i)"
    and completed: "keeps I (connect_completed E i)"
    and send: "keeps I (handle_send E i)"
    and error: "keeps I (epoll_error E i)"
    and zombies: "keeps I (cleanup_zombies E)"
    and clean: "keeps I (cleanup E)"
    and stranded: "keeps I (check_stranded_members E buf)"
    and poll: "keeps I (poll_one E i)"
begin

lemma keep_calls: "(\<And>b0. keeps (calls_since b0) m) \<Longrightarrow> keeps I m"
  by (rule keepsI) (metis Prelude.keepsE calls calls_refl)

lemmas inv_ops [keep] = accept completed send error zombies clean stranded poll

lemma inv_events [keep]: "keeps I (process_epoll_events E es)"
  unfolding process_epoll_events_def process_epoll_event_def
  by (intro keep_for_each keep_Let keep_bind keep_if keep_return inv_ops keep_calls calls_lookup calls_handle_recv)

lemma inv_next_cmd:
  "valid I (next_cmd E) (\<lambda>m b. case m of CmdOk cmd \<Rightarrow> J cmd b | _ \<Rightarrow> I b)"
proof -
  have "I (b\<lparr> log := EvNextCmd m # log b \<rparr>)" if "I b" "\<forall>cmd. m \<noteq> CmdOk cmd" for b m
  proof -
    have "inert (EvNextCmd m)" using that(2) by (cases m) (simp_all add: ev_defs)
    then show ?thesis using calls [OF that(1) calls_log [OF calls_refl]] by blast
  qed
  then show ?thesis
    using take_cmd by (auto simp: valid_def next_cmd_def split: cmd_result.split)
qed

lemma inv_handle_cmd: "valid (J cmd) (handle_cmd E cmd) (\<lambda>_. I)"
  unfolding handle_cmd_def
proof (rule valid_bind [OF cmd])
  fix go
  have "keeps I (if go then return True else do { _ \<leftarrow> cleanup E; return False })" by (intro keep)
  then show "valid I (if go then return True else do { _ \<leftarrow> cleanup E; return False }) (\<lambda>_. I)"
    by (simp add: keeps_def)
qed

lemma inv_after_cmd:
  assumes "\<And>cmd. valid (J cmd) (f (CmdOk cmd)) (\<lambda>_. I)" and "keeps I (f CmdEmpty)" and "keeps I (f CmdDisconnected)"
  shows "keeps I (State_Monad.bind (next_cmd E) f)"
  unfolding keeps_def
proof (rule valid_bind [OF inv_next_cmd])
  fix m
  show "valid (\<lambda>b. case m of CmdOk cmd \<Rightarrow> J cmd b | _ \<Rightarrow> I b) (f m) (\<lambda>_. I)"
    using assms by (cases m) (simp_all add: keeps_def)
qed

lemma valid_then_keeps: "valid P m (\<lambda>_. I) \<Longrightarrow> (\<And>x. keeps I (f x)) \<Longrightarrow> valid P (State_Monad.bind m f) (\<lambda>_. I)"
  unfolding keeps_def by (rule valid_bind)

lemma inv_drain_commands [keep]: "keeps I (drain_commands E n)"
proof (induction n)
  case 0
  show ?case by (simp, intro keep keep_calls calls_emit) (simp add: ev_defs)
next
  case (Suc n)
  show ?case
    unfolding drain_commands.simps
  proof (rule inv_after_cmd, goal_cases)
    case (1 cmd)
    have "keeps I (if go then drain_commands E n else return False)" for go
      using Suc by (simp add: keep_return)
    then show ?case by (simp add: valid_then_keeps [OF inv_handle_cmd])
  qed (simp_all, (intro keep)+)
qed

lemma inv_any_status [keep]: "keeps I (any_status st)"
  unfolding any_status_def by (intro keep)

lemma calls_epoll_uwait: "keeps (calls_since b0) (epoll_uwait E t)"
  unfolding epoll_uwait_def by (intro calls_ask) (simp add: ev_defs)

lemma inv_sleep [keep]: "keeps I (emit (EvSleep d))"
  by (intro keep_calls calls_emit) (simp add: ev_defs)

lemma inv_idle_path [keep]: "keeps I (idle_path E)"
  unfolding idle_path_def
  by (intro keep_bind keep_prod keep_if keep_return inv_events inv_ops inv_sleep keep_calls [OF calls_epoll_uwait])

lemma inv_drain_sends [keep]: "keeps I (drain_sends E)"
  unfolding drain_sends_def if_some_def
  by (intro keep_bind keep_for_each keep_option keep_if keep_return inv_ops keep_calls [OF calls_sock_ids]
      keep_calls [OF calls_lookup])

lemma inv_group_sweep [keep]: "keeps I (group_sweep E ls)"
  unfolding group_sweep_def wants_sweep_def
  by (intro keep_calls keep_bind keep_if keep_return keep_filter_m keep_for_each keep_option
      calls_handle_recv calls_prims calls_lookup calls_sock_ids)

lemma inv_stranded_check [keep]: "keeps I (stranded_check E ls)"
  unfolding stranded_check_def
  by (intro keep_bind keep_if keep_return inv_ops keep_calls [OF calls_prims(1)])

lemma inv_state_poll [keep]: "keeps I (state_poll E ls)"
  unfolding state_poll_def
  by (intro keep_Let keep_bind keep_if keep_return keep_for_each inv_ops keep_calls [OF calls_sock_ids])

lemma inv_active_path [keep]: "keeps I (active_path E c ls)"
  unfolding active_path_def
  by (intro keep_Let keep_bind keep_prod keep_if keep_return inv_events inv_sleep inv_drain_sends inv_group_sweep
      inv_stranded_check inv_state_poll keep_calls [OF calls_epoll_uwait])

lemma inv_io_turn [keep]: "keeps I (io_turn E ls)"
proof -
  have "keeps I (State_Monad.bind (next_cmd E) (\<lambda>m. case m of
       CmdOk cmd \<Rightarrow> do { go \<leftarrow> handle_cmd E cmd; return (if go then Some ls else None) }
     | CmdEmpty \<Rightarrow> return (Some ls)
     | CmdDisconnected \<Rightarrow> do { _ \<leftarrow> cleanup E; return None }))"
    by (rule inv_after_cmd) (simp_all add: valid_then_keeps [OF inv_handle_cmd] keep_return, intro keep)
  note parked = this
  show ?thesis
    unfolding io_turn_def
    by (rule keep_bind [OF keep_gets], rule keep_if [OF parked])
       (intro keep_Let keep_bind keep_if keep_return inv_any_status inv_drain_commands inv_idle_path inv_active_path)
qed

lemma inv_io_loop [keep]: "keeps I (io_loop E n ls)"
  by (induction n arbitrary: ls) (auto intro!: keep_return keep_bind keep_option inv_io_turn)

lemma inv_thread: "keeps I (io_thread_main E n)"
  unfolding io_thread_main_def by (intro keep_bind inv_io_loop keep_calls [OF calls_prims(1)])

end

section \<open>The ledger of the thread\<close>

definition plain :: "resource multiset \<Rightarrow> bool" where
  "plain X \<longleftrightarrow> (\<forall>x. Receipt x \<notin># X)"

definition balanced :: "bridge \<Rightarrow> bool" where
  "balanced b \<longleftrightarrow> distinct_keys b \<and> (\<exists>X. plain X \<and> ledger b = X + image_mset Receipt X)"

definition owed :: "io_command \<Rightarrow> bridge \<Rightarrow> bool" where
  "owed cmd b \<longleftrightarrow> distinct_keys b \<and>
     (\<exists>X. plain X \<and> ledger b = X + image_mset Receipt X + image_mset Receipt (carries cmd))"

lemma plain_carries [simp]: "plain (carries cmd)"
  by (cases cmd) (auto simp: plain_def carries_def split: option.split)

lemma moves_balanced: "moves {#} m \<Longrightarrow> keeps balanced m"
  by (rule keepsI) (fastforce simp: moves_def balanced_def)

lemma conserves_option [moves]:
  "(x = None \<Longrightarrow> conserves D s m) \<Longrightarrow> (\<And>y. x = Some y \<Longrightarrow> conserves D s (f y))
   \<Longrightarrow> conserves D s (case x of None \<Rightarrow> m | Some y \<Rightarrow> f y)"
  by (cases x) simp_all

lemma moves_poll_one: "moves {#} (poll_one E i)"
proof -
  have reply: "conserves {#} s (case ss_connect_reply s of
        None \<Rightarrow> return s
      | Some reply \<Rightarrow> do {
          err \<leftarrow> last_srt_error E;
          _ \<leftarrow> send_reply reply (ReplyUnit (Inl err));
          return (s\<lparr> ss_connect_reply := None \<rparr>)
        })" for s
    unfolding send_reply_def
    by (intro conserves_option conserves_return conserves_calls [OF calls_quiet [OF calls_prims(2)]]
        conserves_emit [where s' = "s\<lparr> ss_connect_reply := None \<rparr>" and D' = "{#}"]) (simp_all add: holds_reply)
  have "conserves {#} s (do {
      s \<leftarrow> update_status s st;
      if c then (case ss_connect_reply s of
        None \<Rightarrow> return s
      | Some reply \<Rightarrow> do {
          err \<leftarrow> last_srt_error E;
          _ \<leftarrow> send_reply reply (ReplyUnit (Inl err));
          return (s\<lparr> ss_connect_reply := None \<rparr>)
        }) else return s })" for s st c
    by (rule conserves_bind [OF conserves_update_status, where D' = "{#}"])
       (intro conserves_if reply conserves_return, simp_all)
  note change = this
  show ?thesis
    unfolding poll_one_def Let_def
    by (intro moves_bind0 [OF moves_calls [OF calls_prims(3)]] moves_with_sock conserves_if conserves_return change)
       simp_all
qed

interpretation accounts: thread_inv E balanced owed for E
proof (unfold_locales, goal_cases)
  case (1 b cmd)
  then show ?case
    by (auto simp: balanced_def owed_def distinct_keys_def ledger_def releases_def ac_simps)
next
  case (2 cmd)
  have "balanced b'" if o: "owed cmd b" and b': "b' = snd (run_state (process_command E cmd) b)" for b b'
  proof -
    obtain X where X: "distinct_keys b" "plain X" "ledger b = X + image_mset Receipt X + image_mset Receipt (carries cmd)"
      using o by (auto simp: owed_def)
    then have "distinct_keys b'" "ledger b' = ledger b + carries cmd"
      using moves_process_command [of cmd E] b' by (simp_all add: moves_def)
    moreover have "plain (X + carries cmd)" using X(2) plain_carries [of cmd] by (simp add: plain_def)
    ultimately show ?thesis
      unfolding balanced_def using X(3) by (intro conjI exI [of _ "X + carries cmd"]) (simp_all add: ac_simps)
  qed
  then show ?case by (simp add: valid_def)
next
  case (3 b b')
  then obtain es where "log b' = es @ log b" "list_all inert es" "sockets b' = sockets b"
    by (auto simp: calls_since_def)
  then have "ledger b' = ledger b" "distinct_keys b' = distinct_keys b"
    using quiet_events_released [of es] by (auto simp: ledger_def distinct_keys_def list_all_iff inert_def)
  with 3(1) show ?case by (simp add: balanced_def)
qed (intro moves_balanced moves_handle_accept moves_connect_completed moves_handle_send moves_epoll_error
      moves_cleanup_zombies moves_cleanup moves_check_stranded_members moves_poll_one)+

text \<open>What the log shows was handed over by commands, and given up since.\<close>

definition handed_over :: "event list \<Rightarrow> resource multiset" where
  "handed_over l = sum_list (map (\<lambda>ev. case ev of EvNextCmd m \<Rightarrow> (case m of CmdOk cmd \<Rightarrow> carries cmd | _ \<Rightarrow> {#}) | _ \<Rightarrow> {#}) l)"

definition is_receipt :: "resource \<Rightarrow> bool" where
  "is_receipt x \<longleftrightarrow> (\<exists>y. x = Receipt y)"

definition given_up :: "event list \<Rightarrow> resource multiset" where
  "given_up l = filter_mset (\<lambda>x. \<not> is_receipt x) (released l)"

lemma filter_plain [simp]:
  "plain X \<Longrightarrow> filter_mset (\<lambda>x. \<not> is_receipt x) X = X"
  "plain X \<Longrightarrow> filter_mset is_receipt X = {#}"
  "filter_mset (\<lambda>x. \<not> is_receipt x) (image_mset Receipt X) = {#}"
  "filter_mset is_receipt (image_mset Receipt X) = image_mset Receipt X"
  by (induction X) (auto simp: plain_def is_receipt_def)

lemma receipts: "filter_mset is_receipt (released l) = image_mset Receipt (handed_over l)"
proof (induction l)
  case (Cons ev l)
  have "filter_mset is_receipt (releases ev) =
      image_mset Receipt (case ev of EvNextCmd m \<Rightarrow> (case m of CmdOk cmd \<Rightarrow> carries cmd | _ \<Rightarrow> {#}) | _ \<Rightarrow> {#})"
    by (cases ev) (simp_all add: releases_def is_receipt_def [of "R_Reply _"] is_receipt_def [of "R_RecvTx _"]
        is_receipt_def [of "R_SendRx _"] is_receipt_def [of "R_StatusTx _"] is_receipt_def [of "R_AcceptTx _"]
        is_receipt_def [of "R_Slot _"] split: cmd_result.split)
  with Cons show ?case by (simp add: handed_over_def)
qed (simp add: handed_over_def)

lemma held_plain: "plain (held m)"
proof -
  have "plain (holds s)" for s by (auto simp: plain_def holds_def split: option.splits)
  then show ?thesis by (induction m) (auto simp: held_def plain_def)
qed

lemma balanced_accounts:
  assumes "balanced b"
  shows "given_up (log b) + held (sockets b) = handed_over (log b)"
proof -
  obtain X where X: "plain X" "released (log b) + held (sockets b) = X + image_mset Receipt X"
    using assms by (auto simp: balanced_def ledger_def)
  from arg_cong [OF X(2), of "filter_mset (\<lambda>x. \<not> is_receipt x)"]
  have "given_up (log b) + held (sockets b) = X"
    using X(1) held_plain by (simp add: given_up_def)
  moreover from arg_cong [OF X(2), of "filter_mset is_receipt"]
  have "image_mset Receipt (handed_over (log b)) = image_mset Receipt X"
    using X(1) held_plain by (simp add: receipts)
  then have "handed_over (log b) = X"
    by (auto dest!: multiset.inj_map_strong [rotated] )
  ultimately show ?thesis by simp
qed

lemma cleanup_returns:
  assumes "\<And>l ks. set (e_order E l ks) = set ks"
  shows "valid (\<lambda>_. True) (handle_cmd E cmd) (\<lambda>go b. \<not> go \<longrightarrow> sockets b = [])"
    and "valid (\<lambda>_. True) (drain_commands E n) (\<lambda>go b. \<not> go \<longrightarrow> sockets b = [])"
proof -
  note empty = cleanup_empty [OF assms]
  show handle: "valid (\<lambda>_. True) (handle_cmd E cmd) (\<lambda>go b. \<not> go \<longrightarrow> sockets b = [])" for cmd
    using empty by (auto simp: valid_def handle_cmd_def case_prod_beta)
  show "valid (\<lambda>_. True) (drain_commands E n) (\<lambda>go b. \<not> go \<longrightarrow> sockets b = [])"
  proof (induction n)
    case (Suc n)
    then show ?case
      using empty handle by (simp add: valid_def next_cmd_def case_prod_beta split: cmd_result.split)
  qed (simp add: valid_def)
qed

lemma thread_returns_empty:
  assumes "\<And>l ks. set (e_order E l ks) = set ks"
  shows "valid (\<lambda>_. True) (io_thread_main E n) (\<lambda>done b. done \<longrightarrow> sockets b = [])"
proof -
  have "fst (run_state (io_turn E ls) b) = None \<Longrightarrow> sockets (snd (run_state (io_turn E ls) b)) = []" for ls b
    using cleanup_empty [OF assms] cleanup_returns [OF assms]
    by (auto simp: io_turn_def valid_def next_cmd_def case_prod_beta Let_def any_status_def
        split: if_splits cmd_result.splits)
  then have "fst (run_state (io_loop E n ls) b) \<longrightarrow> sockets (snd (run_state (io_loop E n ls) b)) = []" for ls b
    by (induction n arbitrary: ls b) (simp_all add: case_prod_beta split: option.split)
  then show ?thesis by (simp add: valid_def io_thread_main_def case_prod_beta)
qed

text \<open>
  Claim C1. The thread never loses what it is handed. At every point of a run of the I/O thread, in
  any environment, the replies, channel ends and policies that came with the commands it took are,
  counted with multiplicity, exactly those it has given up (answered, dropped or freed) plus those
  its socket table holds. When the thread has returned, all have been given up: no caller is left
  waiting, and nothing was answered or freed twice.
\<close>

theorem thread_accounts_for_everything:
  "let (done, b) = run_state (io_thread_main E n) start in
   distinct_keys b \<and> given_up (log b) + held (sockets b) = handed_over (log b)
   \<and> (done \<and> (\<forall>l ks. set (e_order E l ks) = set ks) \<longrightarrow> given_up (log b) = handed_over (log b))"
proof -
  have "balanced start"
    by (auto simp: balanced_def start_def distinct_keys_def ledger_def held_def plain_def)
  then have b: "balanced (snd (run_state (io_thread_main E n) start))"
    using keepsD [OF accounts.inv_thread] by blast
  have "held (sockets (snd (run_state (io_thread_main E n) start))) = {#}"
    if "fst (run_state (io_thread_main E n) start)" "\<forall>l ks. set (e_order E l ks) = set ks"
    using thread_returns_empty [of E n] that by (simp add: valid_def held_def)
  moreover have "distinct_keys (snd (run_state (io_thread_main E n) start))" using b by (simp add: balanced_def)
  ultimately show ?thesis
    using balanced_accounts [OF b] by (auto simp: case_prod_beta)
qed

definition commands_env :: "io_command list \<Rightarrow> env" where
  "commands_env cmds = quiet_env\<lparr> e_next_cmd := (\<lambda>l.
     let k = length (filter (\<lambda>ev. case ev of EvNextCmd _ \<Rightarrow> True | _ \<Rightarrow> False) l)
     in if k < length cmds then CmdOk (cmds ! k) else CmdDisconnected) \<rparr>"

theorem thread_accounts_for_everything_witness:
  "let E = commands_env [GetState 7 3]; (done, b) = run_state (io_thread_main E 2) start in
   done \<and> (\<forall>l ks. set (e_order E l ks) = set ks) \<and> given_up (log b) = handed_over (log b)"
proof -
  let ?E = "commands_env [GetState 7 3]"
  have "fst (run_state (io_thread_main ?E 2) start)"
    by (simp add: io_thread_main_def numeral_2_eq_2 io_turn_def next_cmd_def handle_cmd_def process_command_def
        commands_env_def quiet_env_def start_def prim_defs case_prod_beta Let_def)
  moreover have "\<forall>l ks. set (e_order ?E l ks) = set ks" by (simp add: commands_env_def quiet_env_def)
  ultimately show ?thesis
    using thread_accounts_for_everything [of ?E 2] by (simp add: case_prod_beta Let_def)
qed

end
