(* ===== verification/Hooks.thy ===== *)
theory Hooks
  imports Thread
begin

text \<open>
  The access-control hook. While libsrt holds the address of a policy's allocation (from a successful
  \<^verbatim>\<open>srt_listen_callback\<close> until the listener is closed) it may call through it at any moment, on a
  thread of its own, so the allocation must not be freed before. The theory shows that for the whole
  I/O thread, as an instance of \<open>thread_inv\<close>.

  Most operations leave every entry's policy alone: \<open>spared\<close>, with a small calculus. The others
  (closing an entry, arming the hook, registering a listener, creating a group) are treated one by one.
\<close>

section \<open>When libsrt may call\<close>

text \<open>The pairs of socket and allocation for which libsrt may call, read off the log (newest first).\<close>

primrec armed :: "event list \<Rightarrow> (socket_id \<times> slot) set" where
  "armed [] = {}"
| "armed (ev # l) =
     (case ev of
        EvListenCallback i a ret \<Rightarrow> if ret < 0 then armed l else insert (i, a) (armed l)
      | EvClose i \<Rightarrow> {p \<in> armed l. fst p \<noteq> i}
      | _ \<Rightarrow> armed l)"

text \<open>The listeners registered with a policy.\<close>

definition registers :: "event \<Rightarrow> (socket_id \<times> slot) set" where
  "registers ev =
     (case ev of
        EvNextCmd m \<Rightarrow> (case m of
          CmdOk cmd \<Rightarrow> (case cmd of RegisterListener i _ (Some a) \<Rightarrow> {(i, a)} | _ \<Rightarrow> {}) | _ \<Rightarrow> {})
      | _ \<Rightarrow> {})"

definition registered :: "event list \<Rightarrow> (socket_id \<times> slot) set" where
  "registered l = (\<Union>ev \<in> set l. registers ev)"

definition freed :: "event list \<Rightarrow> slot set" where
  "freed l = {a. EvFreeSlot a \<in> set l}"

text \<open>No allocation is freed while libsrt may call through it, nor handed to libsrt once freed.\<close>

primrec hook_safe :: "event list \<Rightarrow> bool" where
  "hook_safe [] = True"
| "hook_safe (ev # l) = (hook_safe l \<and>
     (case ev of
        EvFreeSlot a \<Rightarrow> a \<notin> snd ` armed l
      | EvListenCallback i a _ \<Rightarrow> a \<notin> freed l
      | _ \<Rightarrow> True))"

definition slot_of :: "bridge \<Rightarrow> socket_id \<Rightarrow> slot option" where
  "slot_of b i = Option.bind (map_of (sockets b) i) ss_access_control"

definition benign :: "event \<Rightarrow> bool" where
  "benign ev \<longleftrightarrow> registers ev = {} \<and>
     (case ev of EvFreeSlot _ \<Rightarrow> False | EvListenCallback _ _ _ \<Rightarrow> False | _ \<Rightarrow> True)"

lemma armed_mono: "list_all benign es \<Longrightarrow> armed (es @ l) \<subseteq> armed l"
  by (induction es) (auto simp: benign_def split: event.splits)

lemma benign_log:
  assumes "list_all benign es"
  shows "registered (es @ l) = registered l" "freed (es @ l) = freed l" "hook_safe (es @ l) = hook_safe l"
proof -
  show "registered (es @ l) = registered l"
    using assms by (auto simp: registered_def benign_def list_all_iff)
  show "freed (es @ l) = freed l" using assms by (auto simp: freed_def benign_def list_all_iff)
  show "hook_safe (es @ l) = hook_safe l"
    using assms by (induction es) (auto simp: benign_def split: event.splits)
qed

section \<open>Operations that spare the policies\<close>

definition spared :: "bridge \<Rightarrow> bridge \<Rightarrow> bool" where
  "spared b0 b \<longleftrightarrow> slot_of b = slot_of b0 \<and> (\<exists>es. log b = es @ log b0 \<and> list_all benign es)"

definition benign_since :: "bridge \<Rightarrow> bridge \<Rightarrow> bool" where
  "benign_since b0 b \<longleftrightarrow> sockets b = sockets b0 \<and> (\<exists>es. log b = es @ log b0 \<and> list_all benign es)"

named_theorems spares \<open>operations that spare the policies\<close>

lemma spared_refl [simp]: "spared b b" by (simp add: spared_def)
lemma benign_refl [simp]: "benign_since b b" by (simp add: benign_since_def)

lemma spared_trans: "spared b0 b1 \<Longrightarrow> spared b1 b2 \<Longrightarrow> spared b0 b2"
  unfolding spared_def by auto

lemma benign_trans: "benign_since b0 b1 \<Longrightarrow> benign_since b1 b2 \<Longrightarrow> benign_since b0 b2"
  unfolding benign_since_def by auto

lemma benign_spared: "benign_since b0 b \<Longrightarrow> spared b0 b"
  by (auto simp: benign_since_def spared_def slot_of_def)

lemma quiet_benign_ev: "quiet_ev ev \<Longrightarrow> benign ev"
  by (auto simp: quiet_ev_def benign_def releases_def is_arm_def registers_def carries_def
      split: event.splits cmd_result.splits io_command.splits option.splits)

lemma quiet_benign: "(\<And>b0. keeps (quiet_since b0) m) \<Longrightarrow> keeps (benign_since b0) m"
proof (rule keepsI)
  fix b a b'
  assume m: "\<And>b0. keeps (quiet_since b0) m" and 0: "benign_since b0 b" and r: "run_state m b = (a, b')"
  have "quiet_since b b'" using Prelude.keepsE [OF m quiet_refl r] .
  then have "benign_since b b'" by (auto simp: quiet_since_def benign_since_def list_all_iff quiet_benign_ev)
  with 0 show "benign_since b0 b'" by (rule benign_trans)
qed

lemmas calls_benign = calls_quiet [THEN quiet_benign]

lemma keeps_spared: "(\<And>b0. keeps (benign_since b0) m) \<Longrightarrow> keeps (spared b0) m"
  by (rule keepsI) (metis Prelude.keepsE benign_refl benign_spared spared_trans)

lemma benign_emit: "benign ev \<Longrightarrow> keeps (benign_since b0) (emit ev)"
  by (rule keepsI) (auto simp: benign_since_def intro!: exI [of _ "ev # es" for es])

lemma benign_update_status: "keeps (benign_since b0) (update_status s st)"
proof (rule keepsI)
  fix b a b'
  assume 0: "benign_since b0 b" and r: "run_state (update_status s st) b = (a, b')"
  have "list_all benign (status_events s st)"
    by (simp add: status_events_def benign_def registers_def split: option.split)
  with r have "benign_since b b'" by (auto simp: benign_since_def)
  with 0 show "benign_since b0 b'" by (rule benign_trans)
qed

lemma benign_reply: "keeps (benign_since b0) (send_reply r v)"
  unfolding send_reply_def by (rule benign_emit) (simp add: benign_def registers_def)

text \<open>Rewriting one entry, with a computation that keeps its policy.\<close>

lemma slot_of_put:
  fixes b :: bridge
  shows "slot_of (b\<lparr> sockets := AList.update i s (sockets b) \<rparr>) = (slot_of b)(i := ss_access_control s)"
  by (auto simp: slot_of_def update_conv')

lemma spares_with_sock:
  assumes "\<And>s b0. keeps (benign_since b0) (f s)"
    and "\<And>s b. ss_access_control (fst (run_state (f s) b)) = ss_access_control s"
  shows "keeps (spared b0) (with_sock i f)"
proof (rule keepsI)
  fix b a b'
  assume 0: "spared b0 b" and r: "run_state (with_sock i f) b = (a, b')"
  have "spared b b'"
  proof (cases "map_of (sockets b) i")
    case None
    with r show ?thesis by (simp add: run_with_sock)
  next
    case (Some s)
    obtain s1 b1 where 1: "run_state (f s) b = (s1, b1)" by force
    have "benign_since b b1" using Prelude.keepsE [OF assms(1) benign_refl 1] .
    moreover have "ss_access_control s1 = ss_access_control s" using assms(2) [of s b] 1 by simp
    ultimately show ?thesis
      using r 1 Some slot_of_put [where b = b1 and i = i and s = s1]
      by (auto simp: spared_def benign_since_def slot_of_def run_with_sock fun_eq_iff)
  qed
  with 0 show "spared b0 b'" by (rule spared_trans)
qed

lemma spares_with_entry:
  assumes "\<And>s b0. keeps (benign_since b0) (f s)"
    and "\<And>s b. ss_access_control (fst (run_state (f s) b)) = ss_access_control s" and "ss_access_control s0 = None"
  shows "keeps (spared b0) (with_entry i s0 f)"
proof (rule keepsI)
  fix b a b'
  assume 0: "spared b0 b" and r: "run_state (with_entry i s0 f) b = (a, b')"
  let ?s = "case map_of (sockets b) i of None \<Rightarrow> s0 | Some s \<Rightarrow> s"
  obtain s1 b1 where 1: "run_state (f ?s) b = (s1, b1)" by force
  have "benign_since b b1" using Prelude.keepsE [OF assms(1) benign_refl 1] .
  moreover have "ss_access_control s1 = slot_of b i"
    using assms(2) [of ?s b] 1 assms(3) by (simp add: slot_of_def split: option.split)
  ultimately have "spared b b'"
    using r 1 slot_of_put [where b = b1 and i = i and s = s1]
    by (auto simp: spared_def benign_since_def with_entry_def slot_of_def fun_eq_iff)
  with 0 show "spared b0 b'" by (rule spared_trans)
qed

text \<open>A computation that looks an entry up and may write it back at the end.\<close>

definition spares_at :: "socket_id \<Rightarrow> socket_state option \<Rightarrow> 'a io \<Rightarrow> bool" where
  "spares_at i entry m \<longleftrightarrow> (\<forall>b. map_of (sockets b) i = entry \<longrightarrow> spared b (snd (run_state m b)))"

lemma spares_at_return [spares]: "spares_at i e (return x)"
  by (simp add: spares_at_def)

lemma spares_at_bind [spares]:
  assumes "\<And>b0. keeps (benign_since b0) m" and "\<And>x. spares_at i e (f x)"
  shows "spares_at i e (State_Monad.bind m f)"
  unfolding spares_at_def
proof (intro allI impI)
  fix b :: bridge
  assume e: "map_of (sockets b) i = e"
  obtain x b1 where 1: "run_state m b = (x, b1)" by force
  have "benign_since b b1" using Prelude.keepsE [OF assms(1) benign_refl 1] .
  moreover from this have "spared b1 (snd (run_state (f x) b1))"
    using assms(2) [of x] e by (simp add: spares_at_def benign_since_def)
  ultimately show "spared b (snd (run_state (State_Monad.bind m f) b))"
    using 1 by (simp add: spared_trans [OF benign_spared])
qed

lemma spares_at_put [spares]:
  assumes "ss_access_control s' = ss_access_control s"
  shows "spares_at i (Some s) (State_Monad.bind (put_sock i s') (\<lambda>_. return x))"
  using assms slot_of_put [where i = i and s = s'] by (auto simp: spares_at_def spared_def slot_of_def fun_eq_iff)

lemma spares_at_if [spares]: "(c \<Longrightarrow> spares_at i e m) \<Longrightarrow> (\<not> c \<Longrightarrow> spares_at i e n) \<Longrightarrow> spares_at i e (if c then m else n)"
  by simp

lemma spares_at_option [spares]:
  "(x = None \<Longrightarrow> spares_at i e m) \<Longrightarrow> (\<And>y. x = Some y \<Longrightarrow> spares_at i e (f y))
   \<Longrightarrow> spares_at i e (case x of None \<Rightarrow> m | Some y \<Rightarrow> f y)"
  by (cases x) simp_all

lemma spares_at_sum [spares]:
  "(\<And>y. x = Inl y \<Longrightarrow> spares_at i e (f y)) \<Longrightarrow> (\<And>y. x = Inr y \<Longrightarrow> spares_at i e (g y))
    \<Longrightarrow> spares_at i e (case x of Inl y \<Rightarrow> f y | Inr y \<Rightarrow> g y)"
  by (cases x) simp_all

lemma spares_at_Let [spares]: "(\<And>y. y = x \<Longrightarrow> spares_at i e (f y)) \<Longrightarrow> spares_at i e (let y = x in f y)"
  by simp

lemma spares_at_prod [spares]: "(\<And>a b. x = (a, b) \<Longrightarrow> spares_at i e (f a b)) \<Longrightarrow> spares_at i e (case x of (a, b) \<Rightarrow> f a b)"
  by (cases x) simp

lemma spares_lookup:
  assumes "\<And>entry. spares_at i entry (f entry)"
  shows "keeps (spared b0) (State_Monad.bind (lookup_sock i) f)"
  by (rule keepsI) (use assms spared_trans in \<open>fastforce simp: spares_at_def\<close>)

section \<open>The operations of the loop\<close>

lemma with_status_policy [simp]: "ss_access_control (with_status s st) = ss_access_control s"
  by (simp add: with_status_def)

lemma spares_handle_accept [spares]: "keeps (spared b0) (handle_accept E i)"
proof (rule keeps_spared)
  fix b0
  show "keeps (benign_since b0) (handle_accept E i)"
    unfolding handle_accept_def
    by (intro keep_bind keep_if keep_return keep_option quiet_benign quiet_close calls_benign [OF calls_ask]
        calls_benign [OF calls_prims(9)] calls_benign [OF calls_lookup] calls_benign [OF calls_config(1)]
        calls_benign [OF calls_add_to_epoll]) (simp_all add: ev_defs)
qed

lemma spares_connect_completed [spares]: "keeps (spared b0) (connect_completed E i)"
  unfolding connect_completed_def
proof (rule spares_with_sock)
  fix s b0
  show "keeps (benign_since b0) (case ss_connect_reply s of
       None \<Rightarrow> return s
     | Some reply \<Rightarrow> do {
         let s = s\<lparr> ss_connect_reply := None \<rparr>;
         sock_state \<leftarrow> srt_getsockstate E i;
         if sock_state = SRTS_CONNECTED then do {
           _ \<leftarrow> send_reply reply (ReplyUnit (Inr ()));
           update_status s S_Connected
         } else do {
           err \<leftarrow> last_srt_error E;
           _ \<leftarrow> send_reply reply (ReplyUnit (Inl err));
           update_status s S_Broken
         }
       })"
    by (intro keep_option keep_Let keep_bind keep_if keep_return benign_reply benign_update_status
        calls_benign [OF calls_prims(2)] calls_benign [OF calls_prims(3)])
qed (simp add: prim_defs case_prod_beta Let_def split: option.split)

lemma spares_handle_send [spares]: "keeps (spared b0) (handle_send E i)"
  unfolding handle_send_def
  by (rule spares_with_sock)
     (unfold send_all_def, (intro keep_bind keep_prod keep_if keep_option keep_return calls_benign [OF calls_drain_backlog]
        calls_benign [OF calls_drain_channel]), simp add: case_prod_beta split: option.split)

lemma spares_epoll_error [spares]: "keeps (spared b0) (epoll_error E i)"
  unfolding epoll_error_def
  by (rule spares_with_sock)
     ((intro keep_bind keep_if keep_return benign_update_status calls_benign [OF calls_readings(6)]),
      simp add: case_prod_beta)

lemma spares_poll_one [spares]: "keeps (spared b0) (poll_one E i)"
  unfolding poll_one_def
  by (intro keep_bind keep_Let keeps_spared [OF calls_benign [OF calls_prims(3)]] spares_with_sock)
     ((intro keep_bind keep_if keep_option keep_return benign_reply benign_update_status calls_benign [OF calls_prims(2)]),
      simp add: prim_defs case_prod_beta split: option.split)

lemma spares_at_live:
  "live_group entry = Some s \<Longrightarrow> ss_access_control s' = ss_access_control s
   \<Longrightarrow> spares_at i entry (State_Monad.bind (put_sock i s') (\<lambda>_. return x))"
  by (auto simp: live_group_def intro: spares_at_put split: option.splits if_splits)

lemmas benign_all = quiet [THEN quiet_benign]

lemma spares_check_group [spares]: "keeps (spared b0) (check_group E grp buf now)"
proof (rule keepsI)
  fix b :: bridge and a b'
  assume 0: "spared b0 b" and r: "run_state (check_group E grp buf now) b = (a, b')"
  have "spared b b'"
  proof (cases "\<exists>s. map_of (sockets b) grp = Some s \<and> due s now")
    case False
    then have "run_state (check_group E grp buf now) b = (buf, b)"
      using check_group_idle by (metis option.exhaust)
    with r show ?thesis by simp
  next
    case True
    then obtain s where s: "map_of (sockets b) grp = Some s" "due s now" by blast
    obtain ws b1 rows b2 ws' sp b3 s' b4 where g:
      "run_state (refresh_live E (ss_watched s)) b = (ws, b1)"
      "run_state (read_group_rows E grp buf) b1 = (rows, b2)"
      "run_state (check_loop E grp (ss_backup s) rows now ws [] 0) b2 = ((ws', sp), b3)"
      "run_state (settle E grp (s\<lparr> ss_watched := ws' @ sp \<rparr>)) b3 = (s', b4)"
      "run_state (check_group E grp buf now) b = (rows, b4\<lparr> sockets := AList.update grp s' (sockets b4) \<rparr>)"
      by (rule check_group_run [OF s])
    have "keeps (benign_since b0) (settle E grp t)" for b0 t
      unfolding settle_def by (intro keep benign_update_status calls_benign [OF calls_prims(3)])
    note settle = Prelude.keepsE [OF this benign_refl g(4)]
    have "benign_since b b4"
      using benign_trans [OF benign_trans [OF benign_trans [OF
        Prelude.keepsE [OF calls_benign [OF calls_members(7)] benign_refl g(1)]
        Prelude.keepsE [OF calls_benign [OF calls_listing(1)] benign_refl g(2)]]
        Prelude.keepsE [OF quiet_benign [OF quiet_check_loop] benign_refl g(3)]] settle] .
    moreover have "ss_access_control s' = ss_access_control s"
      using g(4) by (auto simp: settle_def case_prod_beta split: if_splits dest: sym)
    ultimately show ?thesis
      using r g(5) s(1) slot_of_put [where b = b4 and i = grp and s = s']
      by (auto simp: spared_def benign_since_def slot_of_def fun_eq_iff)
  qed
  with 0 show "spared b0 b'" by (rule spared_trans)
qed

lemma spares_check_groups [spares]: "keeps (spared b0) (check_groups E now grps buf)"
  by (induction grps arbitrary: buf) (auto intro!: keep_bind keep_return spares_check_group)

lemma spares_check_stranded_members [spares]: "keeps (spared b0) (check_stranded_members E buf)"
  unfolding check_stranded_members_def
  by (intro keep_bind keep_if keep_return keep_filter_m spares_check_groups keeps_spared [OF calls_benign [OF calls_sock_ids]]
      keeps_spared [OF calls_benign [OF calls_lookup]] keeps_spared [OF calls_benign [OF calls_prims(1)]])

section \<open>Commands\<close>

lemma spares_calls: "(\<And>b0. keeps (calls_since b0) m) \<Longrightarrow> keeps (spared b0) m"
  by (rule keeps_spared [OF calls_benign])

lemma spares_reply [spares]: "keeps (spared b0) (send_reply r v)"
  by (rule keeps_spared [OF benign_reply])

lemma spares_add_group_member [spares]: "keeps (spared b0) (add_group_member E i ep)"
  unfolding add_group_member_def by (intro spares_lookup spares_at_live spares benign_all) simp_all

lemma spares_force_stranded [spares]: "keeps (spared b0) (force_stranded E i ep)"
  unfolding force_stranded_def by (intro spares_lookup spares_at_live spares keep benign_all) simp_all

lemma spares_create_socket [spares]: "keeps (spared b0) (create_socket E c r)"
  unfolding create_socket_def
  by (intro keep_bind keep_if spares_reply spares_calls calls) (simp_all add: ev_defs)

lemma spares_await_connect [spares]: "keeps (spared b0) (await_connect i r)"
proof (rule keepsI)
  fix b :: bridge and a b'
  assume 0: "spared b0 b" and r: "run_state (await_connect i r) b = (a, b')"
  have "spared b b'"
  proof (cases "map_of (sockets b) i")
    case None
    with r show ?thesis by (auto simp: await_connect_def spared_def slot_of_def benign_def registers_def)
  next
    case (Some s)
    have e: "list_all benign (status_events t st)" for t st
      by (simp add: status_events_def benign_def registers_def split: option.split)
    show ?thesis
      using r Some slot_of_put [where i = i]
      by (auto simp: await_connect_def set_connect_reply_def spared_def slot_of_def fun_eq_iff e benign_def registers_def
          update_conv' split: option.splits)
  qed
  with 0 show "spared b0 b'" by (rule spared_trans)
qed

lemma spares_connect [spares]: "keeps (spared b0) (connect E i a r)"
  unfolding connect_def connect_started_def
  by (intro keep_Let keep_bind keep_if spares_reply spares_await_connect spares_calls calls spares_with_sock
      benign_update_status) (simp_all add: ev_defs)

lemma spares_register_socket [spares]: "keeps (spared b0) (register_socket E i tx rx st)"
  unfolding register_socket_def
proof (rule spares_with_entry)
  fix s b0
  show "keeps (benign_since b0) (do { s \<leftarrow> set_channels s tx rx st; initial_status E i s })"
    unfolding set_channels_def initial_status_def
    by (intro keep_bind keep_if keep_return keep_if_some benign_emit benign_update_status calls_benign [OF calls_prims(3)])
       (simp_all add: benign_def registers_def)
qed (simp_all add: set_channels_def initial_status_def prim_defs new_socket_state_def case_prod_beta)

lemma spares_connect_group_cmd [spares]: "keeps (spared b0) (connect_group_cmd E i eps r)"
proof -
  have body: "keeps (benign_since b0) (do {
      s \<leftarrow> update_status s S_Connected;
      if ss_is_group s then do {
        now \<leftarrow> instant_now E;
        ws \<leftarrow> watch_members E now ps;
        return (s\<lparr> ss_watched := ss_watched s @ ws \<rparr>)
      } else return s })" for b0 s ps
    by (intro keep_bind keep_if keep_return benign_update_status calls_benign [OF calls_prims(1)]
        calls_benign [OF calls_watch_members])
  show ?thesis
    unfolding connect_group_cmd_def
    by (intro keep_bind keep_option spares_reply spares_calls [OF calls_members(3)] spares_calls [OF calls_add_to_epoll]
        spares_with_sock [OF body]) (simp_all add: case_prod_beta)
qed

lemma spares_answer:
  "(\<And>b0. keeps (calls_since b0) m) \<Longrightarrow> keeps (spared b0) (do { x \<leftarrow> m; _ \<leftarrow> send_reply r (f x); return y })"
  by (intro keep_bind spares_calls spares_reply keep_return)

section \<open>The invariant\<close>

text \<open>
  What libsrt may call is the policy of the entry of the same socket. An entry's policy came with a
  registration of that socket and has not been freed. Registrations name each socket and each
  allocation once, and no group.
\<close>

definition hook_ok :: "bridge \<Rightarrow> bool" where
  "hook_ok b \<longleftrightarrow>
     hook_safe (log b)
     \<and> (\<forall>i a. (i, a) \<in> armed (log b) \<longrightarrow> slot_of b i = Some a)
     \<and> (\<forall>i a. slot_of b i = Some a \<longrightarrow> (i, a) \<in> registered (log b) \<and> a \<notin> freed (log b))
     \<and> (\<forall>i a j c. (i, a) \<in> registered (log b) \<longrightarrow> (j, c) \<in> registered (log b) \<longrightarrow> (i = j \<longleftrightarrow> a = c))
     \<and> (\<forall>i a. (i, a) \<in> registered (log b) \<longrightarrow> \<not> is_group_id i)
     \<and> freed (log b) \<subseteq> snd ` registered (log b)"

lemma ok_safe: "hook_ok b \<Longrightarrow> hook_safe (log b)"
  and ok_armed: "hook_ok b \<Longrightarrow> (i, a) \<in> armed (log b) \<Longrightarrow> slot_of b i = Some a"
  and ok_registered: "hook_ok b \<Longrightarrow> slot_of b i = Some a \<Longrightarrow> (i, a) \<in> registered (log b)"
  and ok_not_freed: "hook_ok b \<Longrightarrow> slot_of b i = Some a \<Longrightarrow> a \<notin> freed (log b)"
  and ok_unique: "hook_ok b \<Longrightarrow> (i, a) \<in> registered (log b) \<Longrightarrow> (j, c) \<in> registered (log b) \<Longrightarrow> i = j \<longleftrightarrow> a = c"
  and ok_no_group: "hook_ok b \<Longrightarrow> (i, a) \<in> registered (log b) \<Longrightarrow> \<not> is_group_id i"
  and ok_freed: "hook_ok b \<Longrightarrow> freed (log b) \<subseteq> snd ` registered (log b)"
  unfolding hook_ok_def by blast+

lemma ok_same: "hook_ok b \<Longrightarrow> slot_of b i = Some a \<Longrightarrow> slot_of b j = Some a \<Longrightarrow> j = i"
  using ok_registered ok_unique by blast

lemma spared_ok:
  assumes "hook_ok b" "spared b b'"
  shows "hook_ok b'"
proof -
  obtain es where "log b' = es @ log b" "list_all benign es" "slot_of b' = slot_of b"
    using assms(2) by (auto simp: spared_def)
  then show ?thesis
    using assms(1) armed_mono [of es "log b"] by (auto simp: hook_ok_def benign_log)
qed

lemma keeps_ok: "(\<And>b0. keeps (spared b0) m) \<Longrightarrow> keeps hook_ok m"
  by (rule keepsI) (metis Prelude.keepsE spared_ok spared_refl)

lemma armed_close: "(i, a) \<notin> armed (EvClose i # l)"
  by simp

text \<open>Releasing an entry: the socket is closed, then its policy is freed.\<close>

lemma ok_release:
  assumes ok: "hook_ok b" and slot: "slot_of b i = Some a" "slot_of b' = (slot_of b)(i := None)"
    and log: "log b' = es2 @ EvFreeSlot a # es1 @ EvClose i # es0 @ log b"
    and benign: "list_all benign es0" "list_all benign es1" "list_all benign es2"
  shows "hook_ok b'"
proof -
  let ?l = "es1 @ EvClose i # es0 @ log b"
  have close: "list_all benign (es1 @ EvClose i # es0)"
    using benign(1,2) by (simp add: benign_def registers_def)
  have eq: "registered ?l = registered (log b)" "freed ?l = freed (log b)" "hook_safe ?l = hook_safe (log b)"
    using benign_log [OF close, of "log b"] by simp_all
  have sub: "armed ?l \<subseteq> {p \<in> armed (log b). fst p \<noteq> i}"
    using armed_mono [OF benign(2), of "EvClose i # es0 @ log b"] armed_mono [OF benign(1), of "log b"] by auto
  have other: "(j, a) \<notin> armed ?l" for j
    using sub ok_armed [OF ok, of j a] ok_same [OF ok slot(1), of j] by auto
  have reg: "(i, a) \<in> registered (log b)" by (rule ok_registered [OF ok slot(1)])
  have l': "registered (log b') = registered (log b)" "freed (log b') = insert a (freed (log b))"
    "armed (log b') \<subseteq> armed ?l" "hook_safe (log b')"
    using benign_log [OF benign(3), of "EvFreeSlot a # ?l"] eq other ok_safe [OF ok]
      armed_mono [OF benign(3), of "EvFreeSlot a # ?l"]
    by (auto simp: log registered_def registers_def freed_def)
  have slot': "slot_of b' j = Some c \<longleftrightarrow> j \<noteq> i \<and> slot_of b j = Some c" for j c
    using slot(2) by simp
  show ?thesis
    unfolding hook_ok_def l'(1,2) slot'
  proof (intro conjI allI impI)
    fix j c
    assume "(j, c) \<in> armed (log b')"
    then have "(j, c) \<in> armed (log b)" "j \<noteq> i" using l'(3) sub by auto
    then show "j \<noteq> i" "slot_of b j = Some c" using ok_armed [OF ok] by simp_all
  next
    fix j c
    assume s: "j \<noteq> i \<and> slot_of b j = Some c"
    then show "(j, c) \<in> registered (log b)" using ok_registered [OF ok] by simp
    show "c \<notin> insert a (freed (log b))" using s ok_same [OF ok slot(1)] ok_not_freed [OF ok] by auto
  next
    show "insert a (freed (log b)) \<subseteq> snd ` registered (log b)"
      using ok_freed [OF ok] reg by force
  qed (use l'(4) ok_unique [OF ok] ok_no_group [OF ok] in blast)+
qed

lemma benign_evs:
  "(\<And>y. benign (f y)) \<Longrightarrow> list_all benign (evs f x)"
  by (simp split: option.split)

lemma benign_drop [simp]:
  "benign (EvReplyDropped r)" "benign (EvDropAcceptTx c)" "benign (EvDropStatusTx c)" "benign (EvDropSendRx c)"
  "benign (EvDropRecvTx c)" "benign (EvReply r v)" "benign (EvEpollRemove i)" "benign (EvClose i)"
  by (simp_all add: benign_def registers_def)

lemma ok_dropped:
  assumes ok: "hook_ok b" and t: "ss_access_control t = slot_of b i"
    and b': "sockets b' = AList.delete i (sockets b)" "log b' = drop_events t @ es1 @ EvClose i # es0 @ log b"
    and benign: "list_all benign es0" "list_all benign es1"
  shows "hook_ok b'"
proof (cases "slot_of b i")
  case None
  have "slot_of b' = slot_of b"
    using None b'(1) by (auto simp: slot_of_def delete_conv fun_eq_iff)
  moreover have "list_all benign (drop_events t)"
    using None t by (simp add: drop_events_def benign_evs)
  ultimately have "spared b b'" using b'(2) benign by (simp add: spared_def)
  then show ?thesis by (rule spared_ok [OF ok])
next
  case (Some a)
  have drop: "drop_events t = evs EvReplyDropped (ss_connect_reply t) @ EvFreeSlot a # evs EvDropAcceptTx (ss_accept_tx t)
      @ evs EvDropStatusTx (ss_status_tx t) @ evs EvDropSendRx (ss_send_rx t) @ evs EvDropRecvTx (ss_recv_tx t)"
    using Some t by (simp add: drop_events_def)
  show ?thesis
    by (rule ok_release [OF ok Some, where ?es2.0 = "evs EvReplyDropped (ss_connect_reply t)" and ?es0.0 = es0
          and ?es1.0 = "evs EvDropAcceptTx (ss_accept_tx t) @ evs EvDropStatusTx (ss_status_tx t)
            @ evs EvDropSendRx (ss_send_rx t) @ evs EvDropRecvTx (ss_recv_tx t) @ es1"])
       (use b' benign drop in \<open>auto simp: slot_of_def delete_conv fun_eq_iff benign_evs\<close>)
qed

lemma ok_close:
  assumes "\<And>s b. \<exists>t es1. run_state (F s) b = ((), b\<lparr> log := drop_events t @ es1 @ log b \<rparr>)
      \<and> ss_access_control t = ss_access_control s \<and> list_all benign es1"
  shows "keeps hook_ok (do { entry \<leftarrow> close_and_release i; if_some entry F })"
proof (rule keepsI)
  fix b :: bridge and x b'
  assume ok: "hook_ok b" and r: "run_state (do { entry \<leftarrow> close_and_release i; if_some entry F }) b = (x, b')"
  let ?es0 = "if never_polled (map_of (sockets b) i) then [] else [EvEpollRemove i]"
  let ?b = "b\<lparr> log := EvClose i # ?es0 @ log b, sockets := AList.delete i (sockets b) \<rparr>"
  show "hook_ok b'"
  proof (cases "map_of (sockets b) i")
    case None
    then have "spared b b'"
      using r by (auto simp: run_if_some spared_def slot_of_def delete_conv fun_eq_iff)
    then show ?thesis by (rule spared_ok [OF ok])
  next
    case (Some s)
    obtain t es1 where t: "run_state (F s) ?b = ((), ?b\<lparr> log := drop_events t @ es1 @ log ?b \<rparr>)"
      "ss_access_control t = ss_access_control s" "list_all benign es1"
      using assms by blast
    show ?thesis
      by (rule ok_dropped [OF ok, where t = t and i = i and ?es0.0 = ?es0 and ?es1.0 = es1])
         (use r Some t in \<open>auto simp: run_if_some slot_of_def simp del: fun_upd_apply\<close>)
  qed
qed

lemma ok_finish: "keeps hook_ok (do { entry \<leftarrow> close_and_release i; if_some entry (finish_state err) })"
proof (rule ok_close)
  fix s b
  show "\<exists>t es1. run_state (finish_state err s) b = ((), b\<lparr> log := drop_events t @ es1 @ log b \<rparr>)
      \<and> ss_access_control t = ss_access_control s \<and> list_all benign es1"
    by (cases "ss_connect_reply s")
       (auto intro!: exI [of _ "s\<lparr> ss_connect_reply := None \<rparr>"]
         exI [of _ "evs (\<lambda>r. EvReply r (ReplyUnit (Inl err))) (ss_connect_reply s)"])
qed

lemma ok_release_cmd: "keeps hook_ok (release i)"
  unfolding release_def
proof (rule ok_close)
  fix s b
  show "\<exists>t es1. run_state (drop_state s) b = ((), b\<lparr> log := drop_events t @ es1 @ log b \<rparr>)
      \<and> ss_access_control t = ss_access_control s \<and> list_all benign es1"
    by (intro exI [of _ s] exI [of _ "[]"]) simp
qed

lemma ok_cleanup_zombies: "keeps hook_ok (cleanup_zombies E)"
  unfolding cleanup_zombies_def is_zombie_def
  by (rule keep_bind [OF keeps_ok [OF spares_calls [OF calls_sock_ids]]], rule keep_bind [OF _ keep_for_each [OF ok_finish]])
     (intro keep_filter_m keep_bind keep_option keep_if keep_return
      keeps_ok [OF spares_calls [OF calls_lookup]] keeps_ok [OF spares_calls [OF calls_prims(11)]])

lemma ok_cleanup_one: "keeps hook_ok (cleanup_one i)"
proof (rule keepsI)
  fix b :: bridge and x b'
  assume ok: "hook_ok b" and r: "run_state (cleanup_one i) b = (x, b')"
  show "hook_ok b'"
  proof (cases "map_of (sockets b) i")
    case None
    then have "spared b b'"
      using r by (auto simp: cleanup_one_def run_if_some spared_def slot_of_def delete_conv fun_eq_iff)
    then show ?thesis by (rule spared_ok [OF ok])
  next
    case (Some s)
    show ?thesis
      by (rule ok_dropped [OF ok, where t = "s\<lparr> ss_connect_reply := None \<rparr>" and i = i and ?es0.0 = "[EvEpollRemove i]"
            and ?es1.0 = "evs (\<lambda>r. EvReply r (ReplyUnit (Inl Err_SocketClosed))) (ss_connect_reply s)"])
         (use r Some in \<open>auto simp: cleanup_one_def run_if_some srt_close_def slot_of_def benign_evs\<close>)
  qed
qed

lemma ok_cleanup: "keeps hook_ok (cleanup E)"
  unfolding cleanup_def
  by (intro keep_bind keep_for_each ok_cleanup_one keeps_ok [OF spares_calls [OF calls_sock_ids]]
      keeps_ok [OF keeps_spared [OF benign_emit]]) (simp add: benign_def registers_def)

section \<open>Arming the hook, registering a listener, creating a group\<close>

lemma ok_register_listen_callback: "keeps hook_ok (register_listen_callback E i)"
proof -
  have arm: "hook_ok (b\<lparr> log := EvListenCallback i a ret # log b \<rparr>)" if ok: "hook_ok b" and s: "slot_of b i = Some a" for a ret b
  proof -
    have "slot_of (b\<lparr> log := EvListenCallback i a ret # log b \<rparr>) = slot_of b" by (simp add: slot_of_def fun_eq_iff)
    moreover have "registered (EvListenCallback i a ret # log b) = registered (log b)"
      "freed (EvListenCallback i a ret # log b) = freed (log b)"
      by (auto simp: registered_def registers_def freed_def)
    ultimately show ?thesis
      using ok s ok_not_freed [OF ok s] unfolding hook_ok_def by auto
  qed
  have last: "keeps hook_ok (last_srt_error E)" by (rule keeps_ok [OF spares_calls [OF calls_prims(2)]])
  show ?thesis
  proof (rule keepsI)
    fix b x b'
    assume ok: "hook_ok b" and r: "run_state (register_listen_callback E i) b = (x, b')"
    show "hook_ok b'"
    proof (cases "slot_of b i")
      case None
      with r ok show ?thesis by (simp add: register_listen_callback_def slot_of_def)
    next
      case (Some a)
      let ?b = "b\<lparr> log := EvListenCallback i a (e_listen_callback E (log b) i a) # log b \<rparr>"
      have "b' = ?b \<or> b' = snd (run_state (last_srt_error E) ?b)"
        using r Some by (auto simp: register_listen_callback_def slot_of_def case_prod_beta split: if_splits)
      then show ?thesis using arm [OF ok Some] keepsD [OF last] by blast
    qed
  qed
qed

lemma ok_listen: "keeps hook_ok (listen E i n r)"
  unfolding listen_def
  by (intro keep_bind [OF ok_register_listen_callback] keep_sum keep_bind [OF ok_release_cmd] keep_bind keep_if
      ok_release_cmd keeps_ok [OF spares_reply] keeps_ok [OF spares_calls] keeps_ok [OF spares_with_sock]
      benign_update_status calls_ask calls_prims(2) calls_add_to_epoll) (simp_all add: ev_defs)

lemma ok_register_listener:
  assumes ok: "hook_ok b" and "\<And>a. ac = Some a \<Longrightarrow> slot_of b i = None \<and> a \<notin> freed (log b) \<and> (i, a) \<in> registered (log b)"
  shows "hook_ok (snd (run_state (register_listener i ch ac) b))"
proof -
  define s where "s = (case map_of (sockets b) i of None \<Rightarrow> new_socket_state True False False | Some s \<Rightarrow> s)"
  have s: "ss_access_control s = slot_of b i"
    by (simp add: s_def slot_of_def new_socket_state_def split: option.split)
  define b' where "b' = snd (run_state (register_listener i ch ac) b)"
  let ?es = "evs EvDropAcceptTx (ss_accept_tx s)"
  have es: "list_all benign ?es" by (simp add: benign_evs)
  show ?thesis
  proof (cases ac)
    case None
    then have "sockets b' = AList.update i (s\<lparr> ss_accept_tx := Some ch \<rparr>) (sockets b)" "log b' = ?es @ log b"
      by (simp_all add: b'_def s_def register_listener_def with_entry_def set_listener_def)
    then have "spared b b'"
      using s es by (auto simp: spared_def slot_of_def fun_eq_iff update_conv')
    then show ?thesis unfolding b'_def [symmetric] by (rule spared_ok [OF ok])
  next
    case (Some a)
    note a = assms(2) [OF this]
    have b': "sockets b' = AList.update i (s\<lparr> ss_accept_tx := Some ch, ss_access_control := Some a \<rparr>) (sockets b)"
      "log b' = ?es @ log b"
      using Some a s by (simp_all add: b'_def s_def register_listener_def with_entry_def set_listener_def)
    then have slot: "slot_of b' = (slot_of b)(i \<mapsto> a)" by (auto simp: slot_of_def fun_eq_iff update_conv')
    have "(j, c) \<in> armed (log b') \<Longrightarrow> slot_of b' j = Some c" for j c
      using armed_mono [OF es, of "log b"] ok_armed [OF ok, of j c] a slot b'(2) by auto
    then show ?thesis
      unfolding b'_def [symmetric]
      using a ok slot unfolding hook_ok_def b'(2) benign_log [OF es] by auto
  qed
qed

lemma ok_create_group:
  assumes "\<And>l m. e_create_group E l m \<ge> 0 \<Longrightarrow> is_group_id (e_create_group E l m)"
  shows "keeps hook_ok (create_group E m c r)"
proof (rule keepsI)
  fix b x b'
  assume ok: "hook_ok b" and r: "run_state (create_group E m c r) b = (x, b')"
  define g where "g = e_create_group E (log b) m"
  define b1 where "b1 = b\<lparr> log := EvCreateGroup m g # log b \<rparr>"
  have b1: "hook_ok b1"
    by (rule spared_ok [OF ok]) (simp add: b1_def spared_def slot_of_def fun_eq_iff benign_def registers_def)
  show "hook_ok b'"
  proof (cases "g < 0")
    case True
    have "keeps hook_ok (do { err \<leftarrow> last_srt_error E; send_reply r (ReplySocket (Inl err)) })"
      by (intro keep_bind keeps_ok [OF spares_reply] keeps_ok [OF spares_calls [OF calls_prims(2)]])
    from keepsD [OF this b1] show ?thesis
      using r True by (simp add: create_group_def g_def [symmetric] b1_def case_prod_beta prod_eq_iff)
  next
    case False
    define b2 where "b2 = snd (run_state (do { _ \<leftarrow> set_nonblocking g; apply_config g c }) b1)"
    have "keeps hook_ok (do { _ \<leftarrow> set_nonblocking g; apply_config g c })"
      by (intro keep_bind keeps_ok [OF spares_calls [OF calls_config(1)]] keeps_ok [OF spares_calls [OF calls_config(2)]])
    from keepsD [OF this b1] have b2: "hook_ok b2" unfolding b2_def .
    have "is_group_id g" using assms [of "log b" m] False by (simp add: g_def)
    then have slot: "slot_of b2 g = None"
      using ok_registered [OF b2, of g] ok_no_group [OF b2, of g] by (cases "slot_of b2 g") auto
    define b3 where "b3 = snd (run_state (do {
       old \<leftarrow> lookup_sock g;
       _ \<leftarrow> put_sock g (new_socket_state False True (m = SRT_GTYPE_BACKUP));
       _ \<leftarrow> if_some old drop_state;
       send_reply r (ReplySocket (Inr g)) }) b2)"
    have "spared b2 b3"
      using slot by (auto simp: b3_def spared_def slot_of_def fun_eq_iff update_conv' run_if_some send_reply_def
          drop_events_def new_socket_state_def benign_evs split: option.split)
    moreover have "b' = b3"
      using r False by (auto simp: create_group_def g_def [symmetric] b1_def b2_def b3_def case_prod_beta)
    ultimately show ?thesis using spared_ok [OF b2] by simp
  qed
qed

section \<open>The thread\<close>

text \<open>
  What the Tokio side and libsrt must respect: a socket is registered with a policy once, each
  policy comes in an allocation of its own, and group ids (the only ones \<^verbatim>\<open>srt_create_group\<close>
  returns) are not registered as listeners. \<open>SrtListenerBuilder::bind\<close> registers the socket it has just
  created, with a policy it has just boxed.
\<close>

definition disciplined :: "env \<Rightarrow> bool" where
  "disciplined E \<longleftrightarrow>
     (\<forall>l i ch a. e_next_cmd E l = CmdOk (RegisterListener i ch (Some a))
        \<longrightarrow> i \<notin> fst ` registered l \<and> a \<notin> snd ` registered l \<and> \<not> is_group_id i)
     \<and> (\<forall>l m. e_create_group E l m \<ge> 0 \<longrightarrow> is_group_id (e_create_group E l m))"

definition policy_due :: "io_command \<Rightarrow> bridge \<Rightarrow> bool" where
  "policy_due cmd b \<longleftrightarrow> hook_ok b \<and> (\<forall>i ch a. cmd = RegisterListener i ch (Some a)
     \<longrightarrow> slot_of b i = None \<and> a \<notin> freed (log b) \<and> (i, a) \<in> registered (log b))"

lemma registers_cmd:
  "registers (EvNextCmd (CmdOk cmd)) = (case cmd of RegisterListener i _ (Some a) \<Rightarrow> {(i, a)} | _ \<Rightarrow> {})"
  by (simp add: registers_def)

lemma take_policy:
  assumes E: "disciplined E" and ok: "hook_ok b" and cmd: "e_next_cmd E (log b) = CmdOk cmd"
  shows "policy_due cmd (b\<lparr> log := EvNextCmd (CmdOk cmd) # log b \<rparr>)"
proof (cases "\<exists>i ch a. cmd = RegisterListener i ch (Some a)")
  case False
  then have "registers (EvNextCmd (CmdOk cmd)) = {}"
    by (auto simp: registers_cmd split: io_command.splits option.splits)
  then have "spared b (b\<lparr> log := EvNextCmd (CmdOk cmd) # log b \<rparr>)"
    by (simp add: spared_def slot_of_def fun_eq_iff benign_def)
  from spared_ok [OF ok this] False show ?thesis by (auto simp: policy_due_def)
next
  case True
  then obtain i ch a where c: "cmd = RegisterListener i ch (Some a)" by blast
  then have new: "i \<notin> fst ` registered (log b)" "a \<notin> snd ` registered (log b)" "\<not> is_group_id i"
    using E cmd unfolding disciplined_def by metis+
  let ?l = "EvNextCmd (CmdOk cmd) # log b"
  let ?b = "b\<lparr> log := ?l \<rparr>"
  have reg: "registered ?l = insert (i, a) (registered (log b))"
    by (simp add: registered_def registers_cmd c)
  have now: "log ?b = ?l" by simp
  have same: "slot_of ?b = slot_of b" "freed ?l = freed (log b)" "armed ?l = armed (log b)" "hook_safe ?l = hook_safe (log b)"
    by (simp_all add: slot_of_def freed_def fun_eq_iff)
  have "hook_ok ?b"
    unfolding hook_ok_def now reg same
  proof (intro conjI allI impI)
    fix j c k d
    assume "(j, c) \<in> insert (i, a) (registered (log b))" "(k, d) \<in> insert (i, a) (registered (log b))"
    then show "(j = k) = (c = d)" using ok_unique [OF ok, of j c k d] new(1,2) by force
  qed (use ok_safe [OF ok] ok_armed [OF ok] ok_registered [OF ok] ok_not_freed [OF ok] ok_no_group [OF ok]
      ok_freed [OF ok] new(3) in \<open>simp_all, blast+\<close>)
  moreover have "slot_of b i = None"
    using ok_registered [OF ok, of i] new(1) by (cases "slot_of b i") force+
  moreover have "a \<notin> freed (log b)" using ok_freed [OF ok] new(2) by blast
  ultimately have "hook_ok ?b \<and> slot_of ?b i = None \<and> a \<notin> freed (log ?b) \<and> (i, a) \<in> registered (log ?b)"
    unfolding now same reg by simp
  then show ?thesis by (simp add: policy_due_def c)
qed

lemma spares_answered:
  "(\<And>b0. keeps (spared b0) m) \<Longrightarrow> keeps (spared b0) (do { x \<leftarrow> m; _ \<leftarrow> send_reply r (f x); return y })"
  by (intro keep_bind spares_reply keep_return)

lemma ok_done: "keeps hook_ok m \<Longrightarrow> keeps hook_ok (do { _ \<leftarrow> m; return y })"
  by (intro keep_bind keep_return)

lemma ok_process_command:
  assumes E: "disciplined E"
  shows "valid (policy_due cmd) (process_command E cmd) (\<lambda>_. hook_ok)"
proof (cases "\<exists>i ch a. cmd = RegisterListener i ch a")
  case True
  then show ?thesis
    by (auto simp: valid_def process_command_def policy_due_def case_prod_beta intro!: ok_register_listener)
next
  case False
  have groups: "e_create_group E l m \<ge> 0 \<Longrightarrow> is_group_id (e_create_group E l m)" for l m
    using E by (simp add: disciplined_def)
  have "keeps hook_ok (process_command E cmd)"
  proof (cases cmd)
    case (Close i)
    have "keeps hook_ok (do { _ \<leftarrow> (do { entry \<leftarrow> close_and_release i; if_some entry (finish_state Err_SocketClosed) }); return True })"
      by (rule ok_done [OF ok_finish])
    with Close show ?thesis by (simp add: process_command_def keeps_def valid_def case_prod_beta)
  qed (use False in \<open>simp_all add: process_command_def keep_return ok_done ok_listen ok_create_group [OF groups]
      keeps_ok spares spares_answered spares_calls calls\<close>)
  then show ?thesis by (auto simp: keeps_def policy_due_def elim: valid_weaken)
qed

lemma hook_thread_inv:
  assumes E: "disciplined E"
  shows "thread_inv E hook_ok policy_due"
proof (unfold_locales, goal_cases)
  case (3 b b')
  have "spared b b'"
    using 3(2) by (auto simp: calls_since_def spared_def slot_of_def fun_eq_iff list_all_iff inert_def quiet_benign_ev)
  then show ?case by (rule spared_ok [OF 3(1)])
qed (use E in \<open>auto intro: take_policy ok_process_command keeps_ok spares ok_cleanup_zombies ok_cleanup\<close>)

text \<open>Every free, in the words of the log: no call of libsrt through the allocation is possible any more.\<close>

lemma hook_safe_split: "hook_safe (es @ l) \<Longrightarrow> hook_safe l"
  by (induction es) simp_all

text \<open>
  Claim C3. libsrt never calls a freed access-control policy. Over any run of the I/O thread, at the
  moment a policy's allocation is freed, every listener whose hook was installed with it has been
  closed since; and an allocation is never handed to libsrt once freed. This is for a Tokio side that
  registers each listener once and boxes each policy anew.
\<close>

theorem policy_outlives_hook:
  assumes "disciplined E"
  shows "let l = log (snd (run_state (io_thread_main E n) start)) in
    (\<forall>later a before. l = later @ EvFreeSlot a # before \<longrightarrow> (\<forall>i. (i, a) \<notin> armed before))
    \<and> (\<forall>later i a ret before. l = later @ EvListenCallback i a ret # before \<longrightarrow> EvFreeSlot a \<notin> set before)"
proof -
  have "hook_ok start"
    by (simp add: hook_ok_def start_def slot_of_def registered_def freed_def)
  then have "hook_safe (log (snd (run_state (io_thread_main E n) start)))"
    using keepsD [OF thread_inv.inv_thread [OF hook_thread_inv [OF assms]]] ok_safe by blast
  then show ?thesis
    by (auto simp: Let_def freed_def dest!: hook_safe_split [where l = "EvFreeSlot _ # _"]
        hook_safe_split [where l = "EvListenCallback _ _ _ # _"]) force
qed

text \<open>A listener whose hook is installed and whose \<^verbatim>\<open>srt_listen\<close> then fails: the policy is freed.\<close>

definition refused_listen_env :: env where
  "refused_listen_env = (commands_env [RegisterListener 7 1 (Some 5), Listen 7 4 3])
     \<lparr> e_listen_callback := (\<lambda>_ _ _. 0), e_fuel := 1 \<rparr>"

theorem policy_outlives_hook_witness:
  "disciplined refused_listen_env
   \<and> (let l = log (snd (run_state (io_thread_main refused_listen_env 2) start)) in
      EvListenCallback 7 5 0 \<in> set l
      \<and> (\<exists>later before. l = later @ EvFreeSlot 5 # before \<and> (\<forall>i. (i, 5) \<notin> armed before)))"
proof -
  have "registered l = {}" if "filter (\<lambda>ev. case ev of EvNextCmd _ \<Rightarrow> True | _ \<Rightarrow> False) l = []" for l
    using that by (auto simp: registered_def registers_def filter_empty_conv split: event.splits)
  then have d: "disciplined refused_listen_env"
    by (auto simp: disciplined_def refused_listen_env_def commands_env_def quiet_env_def Let_def is_group_id_def
        nth_Cons' split: if_splits)
  have l: "EvListenCallback 7 5 0 \<in> set (log (snd (run_state (io_thread_main refused_listen_env 2) start)))"
    "EvFreeSlot 5 \<in> set (log (snd (run_state (io_thread_main refused_listen_env 2) start)))"
    by (simp_all add: io_thread_main_def numeral_2_eq_2 io_turn_def next_cmd_def handle_cmd_def process_command_def
        refused_listen_env_def commands_env_def quiet_env_def start_def prim_defs case_prod_beta Let_def
        register_listener_def with_entry_def set_listener_def new_socket_state_def listen_def
        register_listen_callback_def release_def drop_events_def run_if_some never_polled_def any_status_def
        idle_path_def epoll_uwait_def cleanup_zombies_def)
  from split_list [OF l(2)] obtain later before where
    "log (snd (run_state (io_thread_main refused_listen_env 2) start)) = later @ EvFreeSlot 5 # before" by blast
  with d l(1) policy_outlives_hook [OF d, of 2] show ?thesis unfolding Let_def by blast
qed

end
