(* ===== verification/Shutdown.thy ===== *)
theory Shutdown
  imports Hooks "HOL-Library.Sublist"
begin

text \<open>
  The I/O thread ends. Every operation only adds to the log, which is an instance of \<open>thread_inv\<close>, and
  every turn of the loop reads the command channel at least once, so the length of the log is a
  clock: once the Tokio side has shut the thread down or gone away, the next turn returns.
\<close>

definition since :: "event list \<Rightarrow> bridge \<Rightarrow> bool" where
  "since l b \<longleftrightarrow> suffix l (log b)"

lemma since_spared: "(\<And>b0. keeps (spared b0) m) \<Longrightarrow> keeps (since l) m"
proof (rule keepsI)
  fix b a b'
  assume m: "\<And>b0. keeps (spared b0) m" and 0: "since l b" and r: "run_state m b = (a, b')"
  have "spared b b'" using Prelude.keepsE [OF m spared_refl r] .
  with 0 show "since l b'" by (auto simp: spared_def since_def suffix_appendI)
qed

lemma since_sock: "keeps (since l) (put_sock i s)" "keeps (since l) (lookup_sock i)" "keeps (since l) (emit ev)"
    "keeps (since l) (ask f g)" "keeps (since l) (remove_sock i)"
  by (rule keepsI, auto simp: since_def suffix_Cons suffix_appendI)+

lemmas since_calls = since_spared [OF spares_calls]

lemma since_drop [keep]: "keeps (since l) (drop_state s)" "keeps (since l) (close_and_release i)"
    "keeps (since l) (finish_state err s)"
  by (rule keepsI, auto simp: since_def suffix_Cons suffix_appendI)+

lemma since_cleanup: "keeps (since l) (cleanup E)"
  unfolding cleanup_def cleanup_one_def srt_close_def
  by (intro keep_bind keep_for_each keep_if_some since_sock since_drop since_calls [OF calls_sock_ids])

lemma since_cleanup_zombies: "keeps (since l) (cleanup_zombies E)"
  unfolding cleanup_zombies_def is_zombie_def
  by (intro keep_bind keep_for_each keep_if_some keep_filter_m keep_option keep_if keep_return since_sock since_drop
      since_calls [OF calls_sock_ids] since_calls [OF calls_prims(11)])

lemma since_release: "keeps (since l) (release i)"
  unfolding release_def by (intro keep_bind keep_if_some since_drop)

lemma since_register_listen_callback: "keeps (since l) (register_listen_callback E i)"
  unfolding register_listen_callback_def
  by (intro keep_bind keep_option keep_if keep_return since_sock since_calls [OF calls_prims(2)])

lemma since_listen: "keeps (since l) (listen E i n r)"
proof -
  have "keeps (since l) (with_sock i (\<lambda>s. update_status (s\<lparr> ss_is_listener := True \<rparr>) S_Listening))"
    by (rule since_spared [OF spares_with_sock]) (simp_all add: benign_update_status)
  note listening = this
  show ?thesis
    unfolding listen_def
    by (intro keep_bind keep_sum keep_if since_register_listen_callback since_release since_sock listening
        since_spared [OF spares_reply] since_calls [OF calls_prims(2)] since_calls [OF calls_add_to_epoll])
qed

lemma since_register_listener: "keeps (since l) (register_listener i ch ac)"
  unfolding register_listener_def with_entry_def set_listener_def
  by (intro keep_bind keep_Let keep_option keep_if_some keep_return since_sock)

lemma since_create_group: "keeps (since l) (create_group E m c r)"
  unfolding create_group_def
  by (intro keep_bind keep_if keep_if_some since_sock since_drop since_spared [OF spares_reply]
      since_calls [OF calls_config(1)] since_calls [OF calls_config(2)] since_calls [OF calls_prims(2)])

lemma since_done: "keeps (since l) m \<Longrightarrow> keeps (since l) (do { _ \<leftarrow> m; return y })"
  by (intro keep_bind keep_return)

lemma since_process_command: "keeps (since l) (process_command E cmd)"
proof (cases cmd)
  case (Close i)
  then show ?thesis
    by (simp add: process_command_def) (intro keep_bind keep_if_some keep_return since_drop)
qed (simp_all add: process_command_def keep_return since_done since_listen since_register_listener since_create_group
      since_spared spares spares_answered spares_calls calls)

interpretation clock: thread_inv E "since l" "\<lambda>_. since l" for E l
proof (unfold_locales, goal_cases)
  case (1 b cmd)
  then show ?case by (simp add: since_def suffix_Cons)
next
  case (2 cmd)
  then show ?case using since_process_command [of l E cmd] by (simp add: keeps_def)
next
  case (3 b b')
  then show ?case by (auto simp: since_def calls_since_def suffix_appendI)
qed (auto intro: since_spared spares since_cleanup_zombies since_cleanup)

section \<open>Every turn moves the clock\<close>

text \<open>The log after a turn that started with the log \<open>l\<close>: at least one look at the channel is added.\<close>

abbreviation ticked :: "env \<Rightarrow> event list \<Rightarrow> bridge \<Rightarrow> bool" where
  "ticked E l \<equiv> since (EvNextCmd (e_next_cmd E l) # l)"

lemma next_cmd_ticks: "valid (\<lambda>b. log b = l) (next_cmd E) (\<lambda>_. ticked E l)"
  by (simp add: valid_def next_cmd_def since_def)

lemma keep_after_handle: "keeps (since l) (handle_cmd E cmd)"
  using clock.inv_handle_cmd [of l E cmd] by (simp add: keeps_def)

lemma drain_ticks: "0 < n \<Longrightarrow> valid (\<lambda>b. log b = l) (drain_commands E n) (\<lambda>_. ticked E l)"
proof (cases n)
  case (Suc m)
  have "keeps (ticked E l) (case r of
        CmdOk cmd \<Rightarrow> do { go \<leftarrow> handle_cmd E cmd; if go then drain_commands E m else return False }
      | CmdEmpty \<Rightarrow> return True
      | CmdDisconnected \<Rightarrow> do { _ \<leftarrow> cleanup E; return False })" for r
    by (cases r) (simp_all, (intro keep_bind keep_if keep_return keep_after_handle clock.inv_drain_commands since_cleanup)+)
  then show ?thesis unfolding Suc drain_commands.simps keeps_def by (rule valid_bind [OF next_cmd_ticks])
qed simp

lemma turn_ticks:
  assumes "0 < e_fuel E"
  shows "valid (\<lambda>b. log b = l) (io_turn E ls) (\<lambda>_. ticked E l)"
proof -
  have "keeps (ticked E l) (case r of
        CmdOk cmd \<Rightarrow> do { go \<leftarrow> handle_cmd E cmd; return (if go then Some ls else None) }
      | CmdEmpty \<Rightarrow> return (Some ls)
      | CmdDisconnected \<Rightarrow> do { _ \<leftarrow> cleanup E; return None })" for r
    by (cases r) (simp_all, (intro keep_bind keep_return keep_after_handle since_cleanup)+)
  note parked = valid_bind [OF next_cmd_ticks this [unfolded keeps_def]]
  have "keeps (ticked E l) (if \<not> go then return None
       else do {
         has_connected \<leftarrow> any_status S_Connected;
         connecting \<leftarrow> any_status S_Connecting;
         let has_connecting = (\<not> has_connected \<and> connecting);
         if \<not> has_connected \<and> \<not> has_connecting then do {
           _ \<leftarrow> idle_path E;
           return (Some ls)
         } else do {
           ls \<leftarrow> active_path E has_connected ls;
           return (Some ls)
         }
       })" for go
    by (intro keep_Let keep_bind keep_if keep_return clock.inv_any_status clock.inv_idle_path clock.inv_active_path)
  note busy = valid_bind [OF drain_ticks [OF assms] this [unfolded keeps_def]]
  show ?thesis
    using parked busy by (simp add: valid_def io_turn_def)
qed

text \<open>From the \<open>N\<close>-th event on, the thread is told to stop, or the Tokio side is gone.\<close>

definition told_to_stop :: "env \<Rightarrow> nat \<Rightarrow> bool" where
  "told_to_stop E N \<longleftrightarrow> (\<forall>l. N \<le> length l \<longrightarrow> e_next_cmd E l = CmdDisconnected \<or> e_next_cmd E l = CmdOk Shutdown)"

lemma turn_returns:
  assumes "told_to_stop E N" "0 < e_fuel E" "N \<le> length (log b)"
  shows "fst (run_state (io_turn E ls) b) = None"
proof -
  obtain m where m: "e_fuel E = Suc m" using assms(2) by (cases "e_fuel E") simp_all
  have "e_next_cmd E (log b) = CmdDisconnected \<or> e_next_cmd E (log b) = CmdOk Shutdown"
    using assms(1,3) by (simp add: told_to_stop_def)
  then show ?thesis
    by (auto simp: io_turn_def m next_cmd_def handle_cmd_def process_command_def case_prod_beta)
qed

lemma loop_returns:
  assumes "told_to_stop E N" "0 < e_fuel E" "N < length (log b) + n" "0 < n"
  shows "fst (run_state (io_loop E n ls) b)"
  using assms(3-)
proof (induction n arbitrary: ls b)
  case (Suc n)
  obtain r b' where r: "run_state (io_turn E ls) b = (r, b')" by force
  show ?case
  proof (cases r)
    case None
    with r show ?thesis by simp
  next
    case (Some ls')
    have "\<not> N \<le> length (log b)"
      using turn_returns [OF assms(1,2), of b ls] r Some by auto
    moreover have "ticked E (log b) b'"
      using turn_ticks [OF assms(2), of "log b" ls] r by (auto simp: valid_def dest: spec [of _ b])
    then have "length (log b) < length (log b')" by (auto simp: since_def suffix_def)
    ultimately have "fst (run_state (io_loop E n ls') b')"
      using Suc.IH [of b' ls'] Suc.prems(1) by simp
    with r Some show ?thesis by simp
  qed
qed simp

text \<open>
  Claim C13. The thread ends when it is told to. If, from the N-th event of the log on, every look at the
  command channel finds it closed or a \<^verbatim>\<open>Shutdown\<close> in it, the thread has returned after N + 1 turns,
  whatever libsrt answers and whatever it had to do before; and then nothing is left in its table.
\<close>

theorem thread_ends:
  assumes "told_to_stop E N" and "0 < e_fuel E" and "\<And>l ks. set (e_order E l ks) = set ks"
  shows "let (returned, b) = run_state (io_thread_main E (Suc N)) start in returned \<and> sockets b = []"
proof -
  have "fst (run_state (io_thread_main E (Suc N)) start)"
    using loop_returns [OF assms(1,2), of _ "Suc N"]
    by (simp add: io_thread_main_def case_prod_beta del: io_loop.simps)
  with thread_returns_empty [OF assms(3), of "Suc N"] show ?thesis
    by (simp add: valid_def case_prod_beta)
qed

definition stopping_env :: env where
  "stopping_env = quiet_env\<lparr> e_fuel := 1, e_next_cmd := (\<lambda>l. if length l < 4 then CmdOk (GetState 7 3) else CmdOk Shutdown) \<rparr>"

theorem thread_ends_witness:
  "told_to_stop stopping_env 4 \<and> fst (run_state (io_thread_main stopping_env 5) start)"
proof -
  have "told_to_stop stopping_env 4" by (simp add: told_to_stop_def stopping_env_def)
  moreover have "0 < e_fuel stopping_env" "\<And>l ks. set (e_order stopping_env l ks) = set ks"
    by (simp_all add: stopping_env_def quiet_env_def)
  moreover have "Suc 4 = 5" by simp
  ultimately show ?thesis using thread_ends [of stopping_env 4] by (simp add: case_prod_beta Let_def)
qed

end
