(* ===== verification/Repairs.thy ===== *)
theory Repairs
  imports Shutdown
begin

text \<open>
  The repairs of group members over a whole run of the I/O thread. What a \<open>watched_inv\<close> claims of
  every watched member is kept by the operations that know nothing of members. \<open>watched_thread\<close> lets
  the claim depend on what the thread has been told so far, adds that it holds of the endpoints a command
  names, and gives the contract \<open>thread_inv\<close>.
\<close>


lemma with_status_watched [simp]: "ss_watched (with_status s st) = ss_watched s"
  by (simp add: with_status_def)



section \<open>The thread\<close>
















end
