(* ===== verification/Builders.thy ===== *)
theory Builders
  imports Options
begin

text \<open>
  The builders of \<^verbatim>\<open>srt-transport/src/socket.rs\<close>, \<^verbatim>\<open>listener.rs\<close> and \<^verbatim>\<open>group.rs\<close>. Their setter methods
  are the constructors of \<open>setting\<close>, with the method's arguments; \<open>apply_setting\<close> is what the
  method does to the configuration. The three builders share the bodies of the setters they have in
  common, and \<open>listener_offers\<close> and \<open>group_offers\<close> say which of them the other two have.

  The second part relates what a chain of setter calls asks for to the options \<open>apply_config\<close> writes.
\<close>

section \<open>Settings\<close>

datatype setting =
  Latency duration | SenderLatency duration | ReceiverLatency duration
| Encryption rstr key_size | CryptoMode crypto_mode_config
| Mss u32 | FlightFlagSize u32 | SendBufferSize u32 | RecvBufferSize u32
| PeerIdleTimeout duration | ConnectTimeout duration | LiveMode | FileMode
| StreamId rstr | PacketFilter rstr
| MaxBw i64 | InputBw i64 | OverheadBw i32 | MaxRexmitBw i64
| EnforcedEncryption bool | PayloadSize u32 | IpTos i32 | IpTtl i32
| RetransmitAlgo retransmit_algo | SendDropDelay i32 | LossMaxTtl i32
| KmRefreshRate u32 | KmPreAnnounce u32 | TlpktDrop bool
| Rendezvous bool | AllowGroups bool

text \<open>\<^verbatim>\<open>as_millis\<close> gives a \<^verbatim>\<open>u128\<close>, and \<^verbatim>\<open>as u32\<close> keeps its low 32 bits.\<close>

definition millis_u32 :: "duration \<Rightarrow> u32" where
  "millis_u32 d = word_of_nat (as_millis d)"

primrec apply_setting :: "setting \<Rightarrow> srt_config \<Rightarrow> srt_config" where
  "apply_setting (Latency d) c = c\<lparr> recv_latency := millis_u32 d, peer_latency := millis_u32 d \<rparr>"
| "apply_setting (SenderLatency d) c = c\<lparr> peer_latency := millis_u32 d \<rparr>"
| "apply_setting (ReceiverLatency d) c = c\<lparr> recv_latency := millis_u32 d \<rparr>"
| "apply_setting (Encryption pass ks) c = c\<lparr> passphrase := pass, key_size := ks \<rparr>"
| "apply_setting (CryptoMode m) c = c\<lparr> crypto_mode := m \<rparr>"
| "apply_setting (Mss v) c = c\<lparr> mss := v \<rparr>"
| "apply_setting (FlightFlagSize v) c = c\<lparr> flight_flag_size := v \<rparr>"
| "apply_setting (SendBufferSize v) c = c\<lparr> send_buffer_size := v \<rparr>"
| "apply_setting (RecvBufferSize v) c = c\<lparr> recv_buffer_size := v \<rparr>"
| "apply_setting (PeerIdleTimeout d) c = c\<lparr> peer_idle_timeout := d \<rparr>"
| "apply_setting (ConnectTimeout d) c = c\<lparr> connect_timeout := d \<rparr>"
| "apply_setting LiveMode c = live_defaults c"
| "apply_setting FileMode c = file_defaults c"
| "apply_setting (StreamId s) c = c\<lparr> stream_id := s \<rparr>"
| "apply_setting (PacketFilter s) c = c\<lparr> packet_filter := s \<rparr>"
| "apply_setting (MaxBw v) c = c\<lparr> max_bw := v \<rparr>"
| "apply_setting (InputBw v) c = c\<lparr> input_bw := v \<rparr>"
| "apply_setting (OverheadBw v) c = c\<lparr> overhead_bw := v \<rparr>"
| "apply_setting (MaxRexmitBw v) c = c\<lparr> max_rexmit_bw := v \<rparr>"
| "apply_setting (EnforcedEncryption v) c = c\<lparr> enforced_encryption := v \<rparr>"
| "apply_setting (PayloadSize v) c = c\<lparr> payload_size := v \<rparr>"
| "apply_setting (IpTos v) c = c\<lparr> ip_tos := v \<rparr>"
| "apply_setting (IpTtl v) c = c\<lparr> ip_ttl := v \<rparr>"
| "apply_setting (RetransmitAlgo v) c = c\<lparr> retransmit_algo := v \<rparr>"
| "apply_setting (SendDropDelay v) c = c\<lparr> send_drop_delay := v \<rparr>"
| "apply_setting (LossMaxTtl v) c = c\<lparr> loss_max_ttl := v \<rparr>"
| "apply_setting (KmRefreshRate v) c = c\<lparr> km_refresh_rate := v \<rparr>"
| "apply_setting (KmPreAnnounce v) c = c\<lparr> km_pre_announce := v \<rparr>"
| "apply_setting (TlpktDrop v) c = c\<lparr> tlpkt_drop := v \<rparr>"
| "apply_setting (Rendezvous v) c = c\<lparr> rendezvous := v \<rparr>"
| "apply_setting (AllowGroups v) c = c\<lparr> group_connect := v \<rparr>"

section \<open>Builders\<close>

record socket_builder =
  sb_config :: srt_config
  sb_bind_addr :: "socket_addr option"

definition socket_builder_new :: socket_builder where
  "socket_builder_new = \<lparr> sb_config = default_config, sb_bind_addr = None \<rparr>"

definition socket_offers :: "setting \<Rightarrow> bool" where
  "socket_offers s = (case s of AllowGroups _ \<Rightarrow> False | _ \<Rightarrow> True)"

definition socket_set :: "setting \<Rightarrow> socket_builder \<Rightarrow> socket_builder" where
  "socket_set s b = b\<lparr> sb_config := apply_setting s (sb_config b) \<rparr>"

definition socket_bind_to :: "socket_addr \<Rightarrow> socket_builder \<Rightarrow> socket_builder" where
  "socket_bind_to a b = b\<lparr> sb_bind_addr := Some a \<rparr>"

text \<open>A policy is named by the number of its allocation.\<close>

record listener_builder =
  lb_config :: srt_config
  lb_backlog :: i32
  lb_access_control :: "slot option"

definition listener_builder_new :: listener_builder where
  "listener_builder_new = \<lparr> lb_config = default_config, lb_backlog = 5, lb_access_control = None \<rparr>"

definition listener_offers :: "setting \<Rightarrow> bool" where
  "listener_offers s = (case s of Rendezvous _ \<Rightarrow> False | _ \<Rightarrow> True)"

definition listener_set :: "setting \<Rightarrow> listener_builder \<Rightarrow> listener_builder" where
  "listener_set s b = b\<lparr> lb_config := apply_setting s (lb_config b) \<rparr>"

definition listener_backlog :: "i32 \<Rightarrow> listener_builder \<Rightarrow> listener_builder" where
  "listener_backlog n b = b\<lparr> lb_backlog := n \<rparr>"

definition listener_access_control :: "slot \<Rightarrow> listener_builder \<Rightarrow> listener_builder" where
  "listener_access_control ac b = b\<lparr> lb_access_control := Some ac \<rparr>"

record group_builder =
  gb_mode :: group_mode
  gb_config :: srt_config
  gb_endpoints :: "group_endpoint list"

definition group_builder_new :: "group_mode \<Rightarrow> group_builder" where
  "group_builder_new m = \<lparr> gb_mode = m, gb_config = default_config, gb_endpoints = [] \<rparr>"

definition group_offers :: "setting \<Rightarrow> bool" where
  "group_offers s = (case s of FileMode \<Rightarrow> False | Rendezvous _ \<Rightarrow> False | AllowGroups _ \<Rightarrow> False | _ \<Rightarrow> True)"

definition group_set :: "setting \<Rightarrow> group_builder \<Rightarrow> group_builder" where
  "group_set s b = b\<lparr> gb_config := apply_setting s (gb_config b) \<rparr>"

definition group_add_endpoint :: "socket_addr \<Rightarrow> group_builder \<Rightarrow> group_builder" where
  "group_add_endpoint a b = b\<lparr> gb_endpoints := add_endpoint (gb_endpoints b) a \<rparr>"

definition group_add_member :: "group_endpoint \<Rightarrow> group_builder \<Rightarrow> group_builder" where
  "group_add_member ep b = b\<lparr> gb_endpoints := add_member_endpoint (gb_endpoints b) ep \<rparr>"

section \<open>The value an option is written with\<close>

text \<open>
  A reference for \<open>config_opts\<close>: the value each option is written with, or \<open>None\<close> when it is not
  written, read off one option at a time.
\<close>

definition i32_unless :: "u32 \<Rightarrow> u32 \<Rightarrow> optval option" where
  "i32_unless d v = (if v = d then None else Some (OptI32 (sint v)))"

definition millis_opt :: "duration \<Rightarrow> optval option" where
  "millis_opt d = (if as_i32 (int (as_millis d)) > 0 then Some (OptI32 (as_i32 (int (as_millis d)))) else None)"

definition str_opt :: "rstr \<Rightarrow> optval option" where
  "str_opt s = (if s = [] \<or> 0 \<in> set s then None else Some (OptStr (utf8 s)))"

primrec opt_value :: "sockopt \<Rightarrow> srt_config \<Rightarrow> optval option" where
  "opt_value SRTO_MSS c = i32_unless 1500 (mss c)"
| "opt_value SRTO_SNDSYN c = None"
| "opt_value SRTO_RCVSYN c = None"
| "opt_value SRTO_FC c = i32_unless 25600 (flight_flag_size c)"
| "opt_value SRTO_SNDBUF c = i32_unless (8192 * 1316) (send_buffer_size c)"
| "opt_value SRTO_RCVBUF c = i32_unless (8192 * 1316) (recv_buffer_size c)"
| "opt_value SRTO_RENDEZVOUS c = (if rendezvous c then Some (OptBool True) else None)"
| "opt_value SRTO_MAXBW c = (if max_bw c \<ge> 0 then Some (OptI64 (max_bw c)) else None)"
| "opt_value SRTO_INPUTBW c = (if input_bw c > 0 then Some (OptI64 (input_bw c)) else None)"
| "opt_value SRTO_OHEADBW c = (if overhead_bw c = 25 then None else Some (OptI32 (overhead_bw c)))"
| "opt_value SRTO_PASSPHRASE c = str_opt (passphrase c)"
| "opt_value SRTO_PBKEYLEN c =
     (if encryption_enabled c then Some (OptI32 (int (key_size_value (key_size c)))) else None)"
| "opt_value SRTO_IPTTL c = (if ip_ttl c = 64 then None else Some (OptI32 (ip_ttl c)))"
| "opt_value SRTO_IPTOS c = (if ip_tos c = 0 then None else Some (OptI32 (ip_tos c)))"
| "opt_value SRTO_TLPKTDROP c = Some (OptBool (tlpkt_drop c))"
| "opt_value SRTO_SNDDROPDELAY c = (if send_drop_delay c = - 1 then None else Some (OptI32 (send_drop_delay c)))"
| "opt_value SRTO_CONNTIMEO c = millis_opt (connect_timeout c)"
| "opt_value SRTO_LOSSMAXTTL c = (if loss_max_ttl c > 0 then Some (OptI32 (loss_max_ttl c)) else None)"
| "opt_value SRTO_RCVLATENCY c = i32_unless 0 (recv_latency c)"
| "opt_value SRTO_PEERLATENCY c = i32_unless 0 (peer_latency c)"
| "opt_value SRTO_STREAMID c = str_opt (stream_id c)"
| "opt_value SRTO_PAYLOADSIZE c = i32_unless 0 (payload_size c)"
| "opt_value SRTO_TRANSTYPE c = Some (OptTransType (trans_type c))"
| "opt_value SRTO_KMREFRESHRATE c = i32_unless 0x01000000 (km_refresh_rate c)"
| "opt_value SRTO_KMPREANNOUNCE c = i32_unless 0x1000 (km_pre_announce c)"
| "opt_value SRTO_ENFORCEDENCRYPTION c = Some (OptBool (enforced_encryption c))"
| "opt_value SRTO_PEERIDLETIMEO c = millis_opt (peer_idle_timeout c)"
| "opt_value SRTO_GROUPCONNECT c = (if group_connect c then Some (OptBool True) else None)"
| "opt_value SRTO_PACKETFILTER c = str_opt (packet_filter c)"
| "opt_value SRTO_RETRANSMITALGO c = (if retransmit_algo c = RA_Reduced then Some (OptI32 1) else None)"
| "opt_value SRTO_CRYPTOMODE c = (if encryption_enabled c \<and> crypto_mode c = AesGcm then Some (OptI32 2) else None)"
| "opt_value SRTO_MAXREXMITBW c = (if max_rexmit_bw c = - 1 then None else Some (OptI64 (max_rexmit_bw c)))"
| "opt_value SRTO_RCVDATA c = None"

lemma map_of_when_set: "map_of (when_set b xs) o' = (if b then map_of xs o' else None)"
  by (simp add: when_set_def)

lemma map_of_set_opt:
  "map_of (set_i32_opt opt v) o' = (if opt = o' then Some (OptI32 v) else None)"
  "map_of (set_i64_opt opt w) o' = (if opt = o' then Some (OptI64 w) else None)"
  "map_of (set_bool_opt opt x) o' = (if opt = o' then Some (OptBool x) else None)"
  "map_of (set_str_opt opt y) o' = (if opt = o' \<and> 0 \<notin> set y then Some (OptStr (utf8 y)) else None)"
  by (simp_all add: set_i32_opt_def set_i64_opt_def set_bool_opt_def set_str_opt_def)

lemma config_opts_value: "map_of (config_opts c) opt = opt_value opt c"
  unfolding config_opts_def Let_def
  by (cases opt; simp only: map_of_append map_add_def map_of_when_set map_of_set_opt sockopt.distinct
        simp_thms if_False if_True if_cancel option.case map_of.simps fst_conv snd_conv fun_upd_apply opt_value.simps)
     (auto simp: i32_unless_def millis_opt_def str_opt_def encryption_enabled_def word_neq_0_conv)

section \<open>What a chain of setter calls asks for\<close>

text \<open>
  The options whose value depends on what a setter writes, and the values it asks for. A preset
  asks for its transmission type and drop mode; a cipher alone asks for nothing, as it is written
  only beside a passphrase.
\<close>

primrec touches :: "setting \<Rightarrow> sockopt list" where
  "touches (Latency _) = [SRTO_RCVLATENCY, SRTO_PEERLATENCY]"
| "touches (SenderLatency _) = [SRTO_PEERLATENCY]"
| "touches (ReceiverLatency _) = [SRTO_RCVLATENCY]"
| "touches (Encryption _ _) = [SRTO_PASSPHRASE, SRTO_PBKEYLEN, SRTO_CRYPTOMODE]"
| "touches (CryptoMode _) = [SRTO_CRYPTOMODE]"
| "touches (Mss _) = [SRTO_MSS]"
| "touches (FlightFlagSize _) = [SRTO_FC]"
| "touches (SendBufferSize _) = [SRTO_SNDBUF]"
| "touches (RecvBufferSize _) = [SRTO_RCVBUF]"
| "touches (PeerIdleTimeout _) = [SRTO_PEERIDLETIMEO]"
| "touches (ConnectTimeout _) = [SRTO_CONNTIMEO]"
| "touches LiveMode = [SRTO_TRANSTYPE, SRTO_TLPKTDROP, SRTO_PAYLOADSIZE]"
| "touches FileMode = [SRTO_TRANSTYPE, SRTO_TLPKTDROP, SRTO_PAYLOADSIZE]"
| "touches (StreamId _) = [SRTO_STREAMID]"
| "touches (PacketFilter _) = [SRTO_PACKETFILTER]"
| "touches (MaxBw _) = [SRTO_MAXBW]"
| "touches (InputBw _) = [SRTO_INPUTBW]"
| "touches (OverheadBw _) = [SRTO_OHEADBW]"
| "touches (MaxRexmitBw _) = [SRTO_MAXREXMITBW]"
| "touches (EnforcedEncryption _) = [SRTO_ENFORCEDENCRYPTION]"
| "touches (PayloadSize _) = [SRTO_PAYLOADSIZE]"
| "touches (IpTos _) = [SRTO_IPTOS]"
| "touches (IpTtl _) = [SRTO_IPTTL]"
| "touches (RetransmitAlgo _) = [SRTO_RETRANSMITALGO]"
| "touches (SendDropDelay _) = [SRTO_SNDDROPDELAY]"
| "touches (LossMaxTtl _) = [SRTO_LOSSMAXTTL]"
| "touches (KmRefreshRate _) = [SRTO_KMREFRESHRATE]"
| "touches (KmPreAnnounce _) = [SRTO_KMPREANNOUNCE]"
| "touches (TlpktDrop _) = [SRTO_TLPKTDROP]"
| "touches (Rendezvous _) = [SRTO_RENDEZVOUS]"
| "touches (AllowGroups _) = [SRTO_GROUPCONNECT]"

lemma untouched:
  assumes "opt \<notin> set (touches s)"
  shows "opt_value opt (apply_setting s c) = opt_value opt c"
  using assms
  by (cases s; cases opt)
     (simp_all add: encryption_enabled_def live_defaults_def file_defaults_def)

lemma untouched_chain:
  assumes "\<forall>s \<in> set ss. opt \<notin> set (touches s)"
  shows "opt_value opt (fold apply_setting ss c) = opt_value opt c"
  using assms by (induction ss arbitrary: c) (simp_all add: untouched)

primrec asks :: "setting \<Rightarrow> (sockopt \<times> optval) list" where
  "asks (Latency d) = [(SRTO_RCVLATENCY, OptI32 (int (as_millis d))), (SRTO_PEERLATENCY, OptI32 (int (as_millis d)))]"
| "asks (SenderLatency d) = [(SRTO_PEERLATENCY, OptI32 (int (as_millis d)))]"
| "asks (ReceiverLatency d) = [(SRTO_RCVLATENCY, OptI32 (int (as_millis d)))]"
| "asks (Encryption pass ks) =
     [(SRTO_PASSPHRASE, OptStr (utf8 pass)), (SRTO_PBKEYLEN, OptI32 (int (key_size_value ks)))]"
| "asks (CryptoMode _) = []"
| "asks (Mss v) = [(SRTO_MSS, OptI32 (uint v))]"
| "asks (FlightFlagSize v) = [(SRTO_FC, OptI32 (uint v))]"
| "asks (SendBufferSize v) = [(SRTO_SNDBUF, OptI32 (uint v))]"
| "asks (RecvBufferSize v) = [(SRTO_RCVBUF, OptI32 (uint v))]"
| "asks (PeerIdleTimeout d) = [(SRTO_PEERIDLETIMEO, OptI32 (int (as_millis d)))]"
| "asks (ConnectTimeout d) = [(SRTO_CONNTIMEO, OptI32 (int (as_millis d)))]"
| "asks LiveMode =
     [(SRTO_TRANSTYPE, OptTransType TT_Live), (SRTO_TLPKTDROP, OptBool True), (SRTO_PAYLOADSIZE, OptI32 1316)]"
| "asks FileMode = [(SRTO_TRANSTYPE, OptTransType TT_File), (SRTO_TLPKTDROP, OptBool False)]"
| "asks (StreamId s) = [(SRTO_STREAMID, OptStr (utf8 s))]"
| "asks (PacketFilter s) = [(SRTO_PACKETFILTER, OptStr (utf8 s))]"
| "asks (MaxBw v) = [(SRTO_MAXBW, OptI64 v)]"
| "asks (InputBw v) = [(SRTO_INPUTBW, OptI64 v)]"
| "asks (OverheadBw v) = [(SRTO_OHEADBW, OptI32 v)]"
| "asks (MaxRexmitBw v) = [(SRTO_MAXREXMITBW, OptI64 v)]"
| "asks (EnforcedEncryption v) = [(SRTO_ENFORCEDENCRYPTION, OptBool v)]"
| "asks (PayloadSize v) = [(SRTO_PAYLOADSIZE, OptI32 (uint v))]"
| "asks (IpTos v) = [(SRTO_IPTOS, OptI32 v)]"
| "asks (IpTtl v) = [(SRTO_IPTTL, OptI32 v)]"
| "asks (RetransmitAlgo v) = (if v = RA_Reduced then [(SRTO_RETRANSMITALGO, OptI32 1)] else [])"
| "asks (SendDropDelay v) = [(SRTO_SNDDROPDELAY, OptI32 v)]"
| "asks (LossMaxTtl v) = [(SRTO_LOSSMAXTTL, OptI32 v)]"
| "asks (KmRefreshRate v) = [(SRTO_KMREFRESHRATE, OptI32 (uint v))]"
| "asks (KmPreAnnounce v) = [(SRTO_KMPREANNOUNCE, OptI32 (uint v))]"
| "asks (TlpktDrop v) = [(SRTO_TLPKTDROP, OptBool v)]"
| "asks (Rendezvous v) = (if v then [(SRTO_RENDEZVOUS, OptBool True)] else [])"
| "asks (AllowGroups v) = (if v then [(SRTO_GROUPCONNECT, OptBool True)] else [])"

text \<open>
  A value is passed on when it fits a positive C \<^verbatim>\<open>int\<close>, where the field is narrowed to one, and is
  not the value for which the option is left at libsrt's own default.
\<close>

definition fits_int :: "nat \<Rightarrow> bool" where
  "fits_int n \<longleftrightarrow> 0 < n \<and> n < 2 ^ 31"

definition small :: "u32 \<Rightarrow> bool" where
  "small v \<longleftrightarrow> unat v < 2 ^ 31"

primrec passes :: "setting \<Rightarrow> bool" where
  "passes (Latency d) = fits_int (as_millis d)"
| "passes (SenderLatency d) = fits_int (as_millis d)"
| "passes (ReceiverLatency d) = fits_int (as_millis d)"
| "passes (Encryption pass _) = (pass \<noteq> [] \<and> 0 \<notin> set pass)"
| "passes (CryptoMode _) = True"
| "passes (Mss v) = (small v \<and> v \<noteq> 1500)"
| "passes (FlightFlagSize v) = (small v \<and> v \<noteq> 25600)"
| "passes (SendBufferSize v) = (small v \<and> v \<noteq> 8192 * 1316)"
| "passes (RecvBufferSize v) = (small v \<and> v \<noteq> 8192 * 1316)"
| "passes (PeerIdleTimeout d) = fits_int (as_millis d)"
| "passes (ConnectTimeout d) = fits_int (as_millis d)"
| "passes LiveMode = True"
| "passes FileMode = True"
| "passes (StreamId x) = (x \<noteq> [] \<and> 0 \<notin> set x)"
| "passes (PacketFilter x) = (x \<noteq> [] \<and> 0 \<notin> set x)"
| "passes (MaxBw v) = (v \<ge> 0)"
| "passes (InputBw v) = (v > 0)"
| "passes (OverheadBw v) = (v \<noteq> 25)"
| "passes (MaxRexmitBw v) = (v \<noteq> - 1)"
| "passes (EnforcedEncryption _) = True"
| "passes (PayloadSize v) = (small v \<and> v \<noteq> 0)"
| "passes (IpTos v) = (v \<noteq> 0)"
| "passes (IpTtl v) = (v \<noteq> 64)"
| "passes (RetransmitAlgo _) = True"
| "passes (SendDropDelay v) = (v \<noteq> - 1)"
| "passes (LossMaxTtl v) = (v > 0)"
| "passes (KmRefreshRate v) = (small v \<and> v \<noteq> 0x01000000)"
| "passes (KmPreAnnounce v) = (small v \<and> v \<noteq> 0x1000)"
| "passes (TlpktDrop _) = True"
| "passes (Rendezvous _) = True"
| "passes (AllowGroups _) = True"

lemma i32_unless_small:
  assumes "small v" "v \<noteq> d"
  shows "i32_unless d v = Some (OptI32 (uint v))"
proof -
  have "int (unat v) < int (2 ^ 31)" using assms(1) by (simp only: of_nat_less_iff small_def)
  then have "uint v < 2 ^ 31" by (simp only: uint_nat) simp
  moreover have "- (2 ^ 31) \<le> uint v" by (rule order_trans [of _ 0]) simp_all
  ultimately have "sint v = uint v"
    by (subst sint_uint) (rule signed_take_bit_int_eq_self; simp)
  with assms(2) show ?thesis by (simp add: i32_unless_def)
qed

lemma millis_latency: "fits_int (as_millis d) \<Longrightarrow> i32_unless 0 (millis_u32 d) = Some (OptI32 (int (as_millis d)))"
proof -
  assume d: "fits_int (as_millis d)"
  then have "unat (millis_u32 d) = as_millis d"
    by (simp add: millis_u32_def fits_int_def unat_of_nat)
  with d show ?thesis
    by (subst i32_unless_small) (auto simp: fits_int_def small_def uint_nat)
qed

lemma millis_timeout: "fits_int (as_millis d) \<Longrightarrow> millis_opt d = Some (OptI32 (int (as_millis d)))"
  by (simp add: millis_opt_def fits_int_def is_i32_def)

lemma str_opt_passes: "x \<noteq> [] \<Longrightarrow> 0 \<notin> set x \<Longrightarrow> str_opt x = Some (OptStr (utf8 x))"
  by (simp add: str_opt_def)

lemma asks_touches: "(opt, v) \<in> set (asks s) \<Longrightarrow> opt \<in> set (touches s)"
  by (cases s) (auto split: if_splits)

lemma asks_written:
  assumes "passes s" "(opt, v) \<in> set (asks s)"
  shows "opt_value opt (apply_setting s c) = Some v"
  using assms
  by (cases s) (auto simp: i32_unless_small millis_latency millis_timeout str_opt_passes encryption_enabled_def
      live_defaults_def file_defaults_def i32_unless_def [of 0 1316] split: if_splits)

lemma config_opts_iff: "(opt, v) \<in> set (config_opts c) \<longleftrightarrow> opt_value opt c = Some v"
  by (metis config_opts_distinct config_opts_value map_of_eq_Some_iff)


text \<open>
  Claim C30. What a builder is told reaches libsrt. Whatever was set before, a setter whose value
  passes (it fits a positive C \<^verbatim>\<open>int\<close> where it is narrowed to one, is not libsrt's own default, has no
  NUL character) makes every option it asks for be written with that value, unless a later setter
  touches the same options. Beyond a C \<^verbatim>\<open>int\<close> the value is not refused but cut: a latency of
  2^32 + 5 milliseconds is written as 5.
\<close>

theorem builder_settings_reach_libsrt:
  "(passes s \<and> (\<forall>t \<in> set later. set (touches t) \<inter> set (touches s) = {}) \<longrightarrow>
      set (asks s) \<subseteq> set (config_opts (fold apply_setting (earlier @ s # later) c)))
   \<and> (SRTO_RCVLATENCY, OptI32 5) \<in> set (config_opts (apply_setting (Latency (from_millis (2 ^ 32 + 5))) c))"
proof (intro conjI impI subsetI)
  fix w
  assume h: "passes s \<and> (\<forall>t \<in> set later. set (touches t) \<inter> set (touches s) = {})" and w: "w \<in> set (asks s)"
  obtain opt v where [simp]: "w = (opt, v)" by force
  have "\<forall>t \<in> set later. opt \<notin> set (touches t)" using h w asks_touches by fastforce
  then have "opt_value opt (fold apply_setting later (apply_setting s c')) = Some v" for c'
    using asks_written [of s opt v] h w by (simp add: untouched_chain)
  then show "w \<in> set (config_opts (fold apply_setting (earlier @ s # later) c))"
    by (simp add: config_opts_iff)
next
  show "(SRTO_RCVLATENCY, OptI32 5) \<in> set (config_opts (apply_setting (Latency (from_millis (2 ^ 32 + 5))) c))"
    by (simp add: config_opts_iff i32_unless_def millis_u32_def)
qed

theorem builder_settings_reach_libsrt_witness:
  "(SRTO_RCVLATENCY, OptI32 200) \<in> set (config_opts (sb_config
     (socket_set (Mss 1400) (socket_set (ReceiverLatency (from_millis 200)) (socket_set LiveMode socket_builder_new)))))"
  using builder_settings_reach_libsrt [of "ReceiverLatency (from_millis 200)" "[Mss 1400]" "[LiveMode]" default_config]
  by (simp add: socket_set_def socket_builder_new_def fits_int_def)

end
