(* ===== verification/Handles.thy ===== *)
theory Handles
  imports Builders
begin

text \<open>
  The handles of the Tokio side: \<^verbatim>\<open>SrtSocket\<close> (\<^verbatim>\<open>srt-transport/src/socket.rs\<close>), \<^verbatim>\<open>SrtListener\<close>
  (\<^verbatim>\<open>listener.rs\<close>) and \<^verbatim>\<open>SrtGroup\<close> (\<^verbatim>\<open>group.rs\<close>), how their builders connect and bind, and how they are
  dropped.

  An async function is a computation in the state monad over \<open>client\<close>, which records the commands it
  sends to the I/O thread and what it was answered, newest first, and numbers the channels it makes.
  Both ends of a channel have the same number. What the function waits for is answered by the record
  \<open>cenv\<close>, whose functions may depend on the whole history. A future may be dropped at any of its
  awaits: the answer is then \<open>Dropped\<close>, and the function does what dropping its live variables does
  and returns \<open>Cancelled\<close>. An await on a oneshot whose sender was dropped is answered \<open>Gone\<close>.
\<close>

section \<open>The client's world\<close>

datatype 'a answer = Dropped | Gone | Answer 'a

datatype 'a outcome = Cancelled | Failed srt_error | Returned 'a

datatype cl_event =
  ClSend io_command
| ClReply reply_id "reply answer"
| ClTimeout reply_id duration
| ClSendData chan bytes bool
| ClRecvData chan "received_packet option"
| ClStatus chan socket_status
| ClChanged chan bool
| ClAccept chan "socket_id option answer"
| ClTryAccept chan "socket_id option"
| ClCloseAccept chan

record client =
  c_log :: "cl_event list"
  c_fresh :: nat

type_synonym 'a cl = "(client, 'a) state"

record cenv =
  ce_unit :: "cl_event list \<Rightarrow> reply_id \<Rightarrow> (srt_error + unit) answer"
  ce_socket :: "cl_event list \<Rightarrow> reply_id \<Rightarrow> (srt_error + socket_id) answer"
  ce_stats :: "cl_event list \<Rightarrow> reply_id \<Rightarrow> (srt_error + srt_stats) answer"
  ce_addr :: "cl_event list \<Rightarrow> reply_id \<Rightarrow> socket_addr option answer"
  ce_str :: "cl_event list \<Rightarrow> reply_id \<Rightarrow> rstr answer"
  ce_members :: "cl_event list \<Rightarrow> reply_id \<Rightarrow> group_member_stats list answer"
  ce_timeout :: "cl_event list \<Rightarrow> reply_id \<Rightarrow> duration \<Rightarrow> bool"
  ce_send_data :: "cl_event list \<Rightarrow> chan \<Rightarrow> bytes \<Rightarrow> bool"
  ce_recv :: "cl_event list \<Rightarrow> chan \<Rightarrow> received_packet option"
  ce_status :: "cl_event list \<Rightarrow> chan \<Rightarrow> socket_status"
  ce_changed :: "cl_event list \<Rightarrow> chan \<Rightarrow> bool"
  ce_accept :: "cl_event list \<Rightarrow> chan \<Rightarrow> socket_id option answer"
  ce_try_accept :: "cl_event list \<Rightarrow> chan \<Rightarrow> socket_id option"

definition cl_emit :: "cl_event \<Rightarrow> unit cl" where
  "cl_emit ev = modify (\<lambda>c. c\<lparr> c_log := ev # c_log c \<rparr>)"

definition cl_ask :: "(cl_event list \<Rightarrow> 'a) \<Rightarrow> ('a \<Rightarrow> cl_event) \<Rightarrow> 'a cl" where
  "cl_ask f ev = State (\<lambda>c. (f (c_log c), c\<lparr> c_log := ev (f (c_log c)) # c_log c \<rparr>))"

definition new_channel :: "nat cl" where
  "new_channel = State (\<lambda>c. (c_fresh c, c\<lparr> c_fresh := Suc (c_fresh c) \<rparr>))"

text \<open>\<^verbatim>\<open>IoHandle::send_command\<close> ignores a send that fails.\<close>

definition send_command :: "io_command \<Rightarrow> unit cl" where
  "send_command cmd = cl_emit (ClSend cmd)"

definition await_unit :: "cenv \<Rightarrow> reply_id \<Rightarrow> (srt_error + unit) answer cl" where
  "await_unit C r = cl_ask (\<lambda>l. ce_unit C l r) (\<lambda>a. ClReply r (map_answer ReplyUnit a))"

definition await_socket :: "cenv \<Rightarrow> reply_id \<Rightarrow> (srt_error + socket_id) answer cl" where
  "await_socket C r = cl_ask (\<lambda>l. ce_socket C l r) (\<lambda>a. ClReply r (map_answer ReplySocket a))"

definition await_stats :: "cenv \<Rightarrow> reply_id \<Rightarrow> (srt_error + srt_stats) answer cl" where
  "await_stats C r = cl_ask (\<lambda>l. ce_stats C l r) (\<lambda>a. ClReply r (map_answer ReplyStats a))"

definition await_addr :: "cenv \<Rightarrow> reply_id \<Rightarrow> socket_addr option answer cl" where
  "await_addr C r = cl_ask (\<lambda>l. ce_addr C l r) (\<lambda>a. ClReply r (map_answer ReplyAddr a))"

definition await_str :: "cenv \<Rightarrow> reply_id \<Rightarrow> rstr answer cl" where
  "await_str C r = cl_ask (\<lambda>l. ce_str C l r) (\<lambda>a. ClReply r (map_answer ReplyStr a))"

definition await_members :: "cenv \<Rightarrow> reply_id \<Rightarrow> group_member_stats list answer cl" where
  "await_members C r = cl_ask (\<lambda>l. ce_members C l r) (\<lambda>a. ClReply r (map_answer ReplyMembers a))"

text \<open>\<^verbatim>\<open>rx.await.map_err(|_| SrtError::SocketFail)??\<close>\<close>

primrec reply_outcome :: "(srt_error + 'a) answer \<Rightarrow> 'a outcome" where
  "reply_outcome Dropped = Cancelled"
| "reply_outcome Gone = Failed Err_SocketFail"
| "reply_outcome (Answer r) = (case r of Inl e \<Rightarrow> Failed e | Inr x \<Rightarrow> Returned x)"

section \<open>\<^verbatim>\<open>SrtSocket\<close>\<close>

record srt_socket =
  sk_id :: socket_id
  sk_send_tx :: chan
  sk_recv_rx :: chan
  sk_status_rx :: chan
  sk_local_addr :: socket_addr
  sk_peer_addr :: "socket_addr option"
  sk_stream_id :: rstr

text \<open>Binding, if asked for, and connecting, with a deadline two seconds above libsrt's.\<close>

definition connect_within :: "cenv \<Rightarrow> reply_id \<Rightarrow> duration \<Rightarrow> unit outcome cl" where
  "connect_within C r budget = do {
     late \<leftarrow> State (\<lambda>c. (ce_timeout C (c_log c) r budget, c));
     if late then do {
       _ \<leftarrow> cl_emit (ClTimeout r budget);
       return (Failed Err_Timeout)
     } else do {
       a \<leftarrow> await_unit C r;
       return (reply_outcome a)
     }
   }"

definition connect_to :: "cenv \<Rightarrow> srt_config \<Rightarrow> socket_id \<Rightarrow> socket_addr \<Rightarrow> unit outcome cl" where
  "connect_to C config i remote = do {
     conn \<leftarrow> new_channel;
     _ \<leftarrow> send_command (Connect i remote conn);
     connect_within C conn (connect_timeout config + from_secs 2)
   }"

definition bind_and_connect ::
  "cenv \<Rightarrow> srt_config \<Rightarrow> socket_addr option \<Rightarrow> socket_id \<Rightarrow> socket_addr \<Rightarrow> unit outcome cl" where
  "bind_and_connect C config bind_addr i remote =
     (case bind_addr of
        None \<Rightarrow> connect_to C config i remote
      | Some a \<Rightarrow> do {
          bound \<leftarrow> new_channel;
          _ \<leftarrow> send_command (Bind i a bound);
          r \<leftarrow> await_unit C bound;
          (case reply_outcome r of
             Returned _ \<Rightarrow> connect_to C config i remote
           | x \<Rightarrow> return x)
        })"

definition socket_connect :: "cenv \<Rightarrow> socket_builder \<Rightarrow> socket_addr \<Rightarrow> srt_socket outcome cl" where
  "socket_connect C sb remote = do {
     create \<leftarrow> new_channel;
     _ \<leftarrow> send_command (CreateSocket (sb_config sb) create);
     r \<leftarrow> await_socket C create;
     (case reply_outcome r of
        Cancelled \<Rightarrow> return Cancelled
      | Failed e \<Rightarrow> return (Failed e)
      | Returned i \<Rightarrow> do {
          recv \<leftarrow> new_channel;
          send \<leftarrow> new_channel;
          status \<leftarrow> new_channel;
          _ \<leftarrow> send_command (RegisterSocket i recv send status);
          result \<leftarrow> bind_and_connect C (sb_config sb) (sb_bind_addr sb) i remote;
          (case result of
             Cancelled \<Rightarrow> return Cancelled
           | Failed e \<Rightarrow> do {
               _ \<leftarrow> send_command (Close i);
               return (Failed e)
             }
           | Returned _ \<Rightarrow> do {
               local \<leftarrow> new_channel;
               peer \<leftarrow> new_channel;
               _ \<leftarrow> send_command (GetLocalAddr i local);
               _ \<leftarrow> send_command (GetPeerAddr i peer);
               la \<leftarrow> await_addr C local;
               if la = Dropped then return Cancelled
               else do {
                 pa \<leftarrow> await_addr C peer;
                 return (if pa = Dropped then Cancelled
                   else Returned \<lparr> sk_id = i, sk_send_tx = send, sk_recv_rx = recv, sk_status_rx = status,
                     sk_local_addr = (case la of Answer (Some a) \<Rightarrow> a | _ \<Rightarrow> unspecified_v4),
                     sk_peer_addr = (case pa of Answer a \<Rightarrow> a | _ \<Rightarrow> None),
                     sk_stream_id = stream_id (sb_config sb) \<rparr>)
               }
             })
        })
   }"

definition connect_rendezvous ::
  "cenv \<Rightarrow> socket_builder \<Rightarrow> socket_addr \<Rightarrow> socket_addr \<Rightarrow> srt_socket outcome cl" where
  "connect_rendezvous C sb local remote =
     socket_connect C (sb\<lparr> sb_config := (sb_config sb)\<lparr> rendezvous := True \<rparr>, sb_bind_addr := Some local \<rparr>) remote"

text \<open>A socket for a connection a listener accepted.\<close>

definition from_accepted :: "cenv \<Rightarrow> socket_id \<Rightarrow> srt_socket outcome cl" where
  "from_accepted C i = do {
     recv \<leftarrow> new_channel;
     send \<leftarrow> new_channel;
     status \<leftarrow> new_channel;
     _ \<leftarrow> send_command (RegisterSocket i recv send status);
     local \<leftarrow> new_channel;
     peer \<leftarrow> new_channel;
     sid \<leftarrow> new_channel;
     _ \<leftarrow> send_command (GetLocalAddr i local);
     _ \<leftarrow> send_command (GetPeerAddr i peer);
     _ \<leftarrow> send_command (GetStreamId i sid);
     la \<leftarrow> await_addr C local;
     if la = Dropped then return Cancelled
     else do {
       pa \<leftarrow> await_addr C peer;
       if pa = Dropped then return Cancelled
       else do {
         si \<leftarrow> await_str C sid;
         return (if si = Dropped then Cancelled
           else Returned \<lparr> sk_id = i, sk_send_tx = send, sk_recv_rx = recv, sk_status_rx = status,
             sk_local_addr = (case la of Answer (Some a) \<Rightarrow> a | _ \<Rightarrow> unspecified_v4),
             sk_peer_addr = (case pa of Answer a \<Rightarrow> a | _ \<Rightarrow> None),
             sk_stream_id = (case si of Answer x \<Rightarrow> x | _ \<Rightarrow> []) \<rparr>)
       }
     }
   }"

text \<open>The current value of a watch channel.\<close>

definition borrow :: "cenv \<Rightarrow> chan \<Rightarrow> socket_status cl" where
  "borrow C rx = cl_ask (\<lambda>l. ce_status C l rx) (ClStatus rx)"

definition socket_status_of :: "cenv \<Rightarrow> srt_socket \<Rightarrow> socket_status cl" where
  "socket_status_of C s = borrow C (sk_status_rx s)"

definition send_bytes :: "cenv \<Rightarrow> chan \<Rightarrow> bytes \<Rightarrow> (srt_error + nat) cl" where
  "send_bytes C tx d = do {
     ok \<leftarrow> cl_ask (\<lambda>l. ce_send_data C l tx d) (ClSendData tx d);
     return (if ok then Inr (length d) else Inl Err_ConnectionLost)
   }"

definition socket_send :: "cenv \<Rightarrow> srt_socket \<Rightarrow> bytes \<Rightarrow> (srt_error + nat) cl" where
  "socket_send C s d = do {
     st \<leftarrow> socket_status_of C s;
     if is_terminal_status st then return (Inl Err_ConnectionLost)
     else send_bytes C (sk_send_tx s) d
   }"

definition recv_packet :: "cenv \<Rightarrow> chan \<Rightarrow> (srt_error + received_packet) cl" where
  "recv_packet C rx = do {
     m \<leftarrow> cl_ask (\<lambda>l. ce_recv C l rx) (ClRecvData rx);
     return (case m of Some pkt \<Rightarrow> Inr pkt | None \<Rightarrow> Inl Err_ConnectionLost)
   }"

definition socket_recv :: "cenv \<Rightarrow> srt_socket \<Rightarrow> (srt_error + received_packet) cl" where
  "socket_recv C s = recv_packet C (sk_recv_rx s)"

definition socket_recv_bytes :: "cenv \<Rightarrow> srt_socket \<Rightarrow> (srt_error + bytes) cl" where
  "socket_recv_bytes C s = do {
     r \<leftarrow> socket_recv C s;
     return (map_sum id data r)
   }"

text \<open>A reading falls back to the default when the reply fails or never comes.\<close>

definition get_stats :: "cenv \<Rightarrow> socket_id \<Rightarrow> srt_stats cl" where
  "get_stats C i = do {
     reply \<leftarrow> new_channel;
     _ \<leftarrow> send_command (GetStats i reply);
     a \<leftarrow> await_stats C reply;
     return (case a of Answer (Inr st) \<Rightarrow> st | _ \<Rightarrow> default_stats)
   }"

definition get_member_stats :: "cenv \<Rightarrow> socket_id \<Rightarrow> group_member_stats list cl" where
  "get_member_stats C i = do {
     reply \<leftarrow> new_channel;
     _ \<leftarrow> send_command (GetGroupMemberStats i reply);
     a \<leftarrow> await_members C reply;
     return (case a of Answer ms \<Rightarrow> ms | _ \<Rightarrow> [])
   }"

definition socket_stats :: "cenv \<Rightarrow> srt_socket \<Rightarrow> srt_stats cl" where
  "socket_stats C s = get_stats C (sk_id s)"

definition socket_member_stats :: "cenv \<Rightarrow> srt_socket \<Rightarrow> group_member_stats list cl" where
  "socket_member_stats C s = get_member_stats C (sk_id s)"

text \<open>The wait loop, on fuel; \<open>None\<close> when it has not ended yet.\<close>

primrec wait_for_state :: "cenv \<Rightarrow> nat \<Rightarrow> srt_socket \<Rightarrow> socket_status \<Rightarrow> socket_status option cl" where
  "wait_for_state C 0 s target = return None"
| "wait_for_state C (Suc n) s target = do {
     current \<leftarrow> borrow C (sk_status_rx s);
     if current = target \<or> current = S_Broken \<or> current = S_Closed then return (Some current)
     else do {
       ok \<leftarrow> cl_ask (\<lambda>l. ce_changed C l (sk_status_rx s)) (ClChanged (sk_status_rx s));
       if \<not> ok then do {
         current \<leftarrow> borrow C (sk_status_rx s);
         return (Some current)
       } else wait_for_state C n s target
     }
   }"

definition socket_close :: "srt_socket \<Rightarrow> (srt_error + unit) cl" where
  "socket_close s = do {
     _ \<leftarrow> send_command (Close (sk_id s));
     return (Inr ())
   }"

definition socket_drop :: "srt_socket \<Rightarrow> unit cl" where
  "socket_drop s = send_command (Close (sk_id s))"

section \<open>\<^verbatim>\<open>SrtListener\<close>\<close>

record srt_listener =
  ln_id :: socket_id
  ln_accept_rx :: chan
  ln_local_addr :: socket_addr

definition listener_bind :: "cenv \<Rightarrow> listener_builder \<Rightarrow> socket_addr \<Rightarrow> srt_listener outcome cl" where
  "listener_bind C lb a = do {
     create \<leftarrow> new_channel;
     _ \<leftarrow> send_command (CreateSocket (lb_config lb) create);
     r \<leftarrow> await_socket C create;
     (case reply_outcome r of
        Cancelled \<Rightarrow> return Cancelled
      | Failed e \<Rightarrow> return (Failed e)
      | Returned i \<Rightarrow> do {
          accept \<leftarrow> new_channel;
          _ \<leftarrow> send_command (RegisterListener i accept (lb_access_control lb));
          recv \<leftarrow> new_channel;
          send \<leftarrow> new_channel;
          status \<leftarrow> new_channel;
          _ \<leftarrow> send_command (RegisterSocket i recv send status);
          bound \<leftarrow> new_channel;
          _ \<leftarrow> send_command (Bind i a bound);
          r \<leftarrow> await_unit C bound;
          (case reply_outcome r of
             Cancelled \<Rightarrow> return Cancelled
           | Failed e \<Rightarrow> return (Failed e)
           | Returned _ \<Rightarrow> do {
               listening \<leftarrow> new_channel;
               _ \<leftarrow> send_command (Listen i (lb_backlog lb) listening);
               r \<leftarrow> await_unit C listening;
               (case reply_outcome r of
                  Cancelled \<Rightarrow> return Cancelled
                | Failed e \<Rightarrow> return (Failed e)
                | Returned _ \<Rightarrow> do {
                    local \<leftarrow> new_channel;
                    _ \<leftarrow> send_command (GetLocalAddr i local);
                    la \<leftarrow> await_addr C local;
                    return (if la = Dropped then Cancelled
                      else Returned \<lparr> ln_id = i, ln_accept_rx = accept,
                             ln_local_addr = (case la of Answer (Some x) \<Rightarrow> x | _ \<Rightarrow> a) \<rparr>)
                  })
             })
        })
   }"

text \<open>
  The connection taken from the channel is guarded by \<^verbatim>\<open>Unclaimed\<close> until it has its socket: the guard
  sends the \<^verbatim>\<open>Close\<close> when it is dropped, and is forgotten when the socket is there.
\<close>

definition unclaimed_drop :: "socket_id \<Rightarrow> unit cl" where
  "unclaimed_drop i = send_command (Close i)"

definition listener_accept :: "cenv \<Rightarrow> srt_listener \<Rightarrow> srt_socket outcome cl" where
  "listener_accept C l = do {
     m \<leftarrow> cl_ask (\<lambda>h. ce_accept C h (ln_accept_rx l)) (ClAccept (ln_accept_rx l));
     (case m of
        Answer (Some i) \<Rightarrow> do {
          sock \<leftarrow> from_accepted C i;
          (case sock of
             Returned s \<Rightarrow> return (Returned s)
           | x \<Rightarrow> do {
               _ \<leftarrow> unclaimed_drop i;
               return x
             })
        }
      | Dropped \<Rightarrow> return Cancelled
      | _ \<Rightarrow> return (Failed Err_SocketClosed))
   }"

definition listener_close :: "srt_listener \<Rightarrow> (srt_error + unit) cl" where
  "listener_close l = do {
     _ \<leftarrow> send_command (Close (ln_id l));
     return (Inr ())
   }"

text \<open>The drain of the closed accept channel; the channel holds finitely many, so fuel suffices.\<close>

primrec drain_accepted :: "cenv \<Rightarrow> nat \<Rightarrow> chan \<Rightarrow> unit cl" where
  "drain_accepted C 0 rx = return ()"
| "drain_accepted C (Suc n) rx = do {
     m \<leftarrow> cl_ask (\<lambda>l. ce_try_accept C l rx) (ClTryAccept rx);
     (case m of
        None \<Rightarrow> return ()
      | Some i \<Rightarrow> do {
          _ \<leftarrow> send_command (Close i);
          drain_accepted C n rx
        })
   }"

definition close_and_drain :: "cenv \<Rightarrow> nat \<Rightarrow> chan \<Rightarrow> unit cl" where
  "close_and_drain C n rx = do {
     _ \<leftarrow> cl_emit (ClCloseAccept rx);
     drain_accepted C n rx
   }"

definition listener_drop :: "cenv \<Rightarrow> nat \<Rightarrow> srt_listener \<Rightarrow> unit cl" where
  "listener_drop C n l = do {
     _ \<leftarrow> send_command (Close (ln_id l));
     close_and_drain C n (ln_accept_rx l)
   }"

section \<open>\<^verbatim>\<open>SrtGroup\<close>\<close>

record srt_group =
  gr_id :: socket_id
  gr_send_tx :: chan
  gr_recv_rx :: chan
  gr_status_rx :: chan
  gr_mode :: group_mode
  gr_endpoints :: "socket_addr list"

text \<open>The first endpoint that is refused decides.\<close>

fun check_endpoints :: "group_endpoint list \<Rightarrow> srt_error + unit" where
  "check_endpoints [] = Inr ()"
| "check_endpoints (ep # eps) = (case endpoint_check ep of Inl e \<Rightarrow> Inl e | Inr _ \<Rightarrow> check_endpoints eps)"

definition group_connect_all :: "cenv \<Rightarrow> group_builder \<Rightarrow> srt_group outcome cl" where
  "group_connect_all C gb =
     (if gb_endpoints gb = [] then return (Failed Err_InvalidParam)
      else case check_endpoints (gb_endpoints gb) of
        Inl e \<Rightarrow> return (Failed e)
      | Inr _ \<Rightarrow> do {
          create \<leftarrow> new_channel;
          _ \<leftarrow> send_command (CreateGroup (to_srt_type (gb_mode gb)) (gb_config gb) create);
          r \<leftarrow> await_socket C create;
          (case reply_outcome r of
             Cancelled \<Rightarrow> return Cancelled
           | Failed e \<Rightarrow> return (Failed e)
           | Returned i \<Rightarrow> do {
               recv \<leftarrow> new_channel;
               send \<leftarrow> new_channel;
               status \<leftarrow> new_channel;
               _ \<leftarrow> send_command (RegisterSocket i recv send status);
               conn \<leftarrow> new_channel;
               _ \<leftarrow> send_command (ConnectGroup i (gb_endpoints gb) conn);
               r \<leftarrow> await_unit C conn;
               (case reply_outcome r of
                  Cancelled \<Rightarrow> return Cancelled
                | Failed e \<Rightarrow> do {
                    _ \<leftarrow> send_command (Close i);
                    return (Failed e)
                  }
                | Returned _ \<Rightarrow>
                    return (Returned \<lparr> gr_id = i, gr_send_tx = send, gr_recv_rx = recv, gr_status_rx = status,
                      gr_mode = gb_mode gb, gr_endpoints = map ep_addr (gb_endpoints gb) \<rparr>))
             })
        })"

definition group_send :: "cenv \<Rightarrow> srt_group \<Rightarrow> bytes \<Rightarrow> (srt_error + nat) cl" where
  "group_send C g d = send_bytes C (gr_send_tx g) d"

definition group_recv :: "cenv \<Rightarrow> srt_group \<Rightarrow> (srt_error + received_packet) cl" where
  "group_recv C g = recv_packet C (gr_recv_rx g)"

definition group_recv_bytes :: "cenv \<Rightarrow> srt_group \<Rightarrow> (srt_error + bytes) cl" where
  "group_recv_bytes C g = do {
     r \<leftarrow> group_recv C g;
     return (map_sum id data r)
   }"

definition group_stats :: "cenv \<Rightarrow> srt_group \<Rightarrow> srt_stats cl" where
  "group_stats C g = get_stats C (gr_id g)"

definition group_member_stats_of :: "cenv \<Rightarrow> srt_group \<Rightarrow> group_member_stats list cl" where
  "group_member_stats_of C g = get_member_stats C (gr_id g)"

definition group_member_command ::
  "cenv \<Rightarrow> (reply_id \<Rightarrow> io_command) \<Rightarrow> group_endpoint \<Rightarrow> unit outcome cl" where
  "group_member_command C cmd ep =
     (case endpoint_check ep of
        Inl e \<Rightarrow> return (Failed e)
      | Inr _ \<Rightarrow> do {
          reply \<leftarrow> new_channel;
          _ \<leftarrow> send_command (cmd reply);
          a \<leftarrow> await_unit C reply;
          return (reply_outcome a)
        })"

definition group_add_live_member :: "cenv \<Rightarrow> srt_group \<Rightarrow> group_endpoint \<Rightarrow> unit outcome cl" where
  "group_add_live_member C g ep = group_member_command C (AddGroupMember (gr_id g) ep) ep"

definition test_strand_member :: "cenv \<Rightarrow> srt_group \<Rightarrow> group_endpoint \<Rightarrow> unit outcome cl" where
  "test_strand_member C g ep = group_member_command C (TestStrandMember (gr_id g) ep) ep"

definition group_status :: "cenv \<Rightarrow> srt_group \<Rightarrow> socket_status cl" where
  "group_status C g = borrow C (gr_status_rx g)"

definition group_close :: "srt_group \<Rightarrow> (srt_error + unit) cl" where
  "group_close g = do {
     _ \<leftarrow> send_command (Close (gr_id g));
     return (Inr ())
   }"

definition group_drop :: "srt_group \<Rightarrow> unit cl" where
  "group_drop g = send_command (Close (gr_id g))"

end
