(* ===== verification/Ownership.thy ===== *)
theory Ownership
  imports Handles
begin

text \<open>
  Who closes a socket. A client acquires a socket when the I/O thread answers a creation with its
  number or a listener hands out an accepted connection, and gives it up by sending \<^verbatim>\<open>Close\<close>. The
  locale \<open>owner\<close> is the contract of an operation that acquires: unless its future was dropped, what it
  acquired is given up or owned by the handle it returns. Connecting a socket, connecting a group and
  accepting fulfil it; accepting also when the future is dropped.
\<close>

section \<open>Acquiring and giving up\<close>

definition acquire1 :: "cl_event \<Rightarrow> socket_id multiset" where
  "acquire1 ev =
     (case ev of
        ClReply _ (Answer (ReplySocket (Inr i))) \<Rightarrow> {#i#}
      | ClAccept _ (Answer (Some i)) \<Rightarrow> {#i#}
      | ClTryAccept _ (Some i) \<Rightarrow> {#i#}
      | _ \<Rightarrow> {#})"

definition acquired :: "cl_event list \<Rightarrow> socket_id multiset" where
  "acquired es = sum_list (map acquire1 es)"

definition surrender1 :: "cl_event \<Rightarrow> socket_id multiset" where
  "surrender1 ev = (case ev of ClSend (Close i) \<Rightarrow> {#i#} | _ \<Rightarrow> {#})"

definition surrendered :: "cl_event list \<Rightarrow> socket_id multiset" where
  "surrendered es = sum_list (map surrender1 es)"

lemma acquired_simps [simp]:
  "acquired [] = {#}" "acquired (ev # es) = acquire1 ev + acquired es"
  "acquired (es @ es') = acquired es + acquired es'"
  by (simp_all add: acquired_def)

lemma surrendered_simps [simp]:
  "surrendered [] = {#}" "surrendered (ev # es) = surrender1 ev + surrendered es"
  "surrendered (es @ es') = surrendered es + surrendered es'"
  by (simp_all add: surrendered_def)

lemma acquire1_simps [simp]:
  "acquire1 (ClSend cmd) = {#}" "acquire1 (ClTimeout r d) = {#}"
  "acquire1 (ClAccept ch m) = (case m of Answer (Some i) \<Rightarrow> {#i#} | _ \<Rightarrow> {#})"
  "acquire1 (ClTryAccept ch m') = (case m' of Some i \<Rightarrow> {#i#} | _ \<Rightarrow> {#})"
  "acquire1 (ClCloseAccept ch) = {#}" "acquire1 (ClReply r Dropped) = {#}" "acquire1 (ClReply r Gone) = {#}"
  by (auto simp: acquire1_def split: answer.split option.split)

lemma acquire1_reply [simp]:
  "acquire1 (ClReply r (Answer v)) = (case v of ReplySocket (Inr i) \<Rightarrow> {#i#} | _ \<Rightarrow> {#})"
  "acquire1 (ClReply r (map_answer ReplyUnit u)) = {#}"
  "acquire1 (ClReply r (map_answer ReplyAddr a)) = {#}"
  "acquire1 (ClReply r (map_answer ReplyStr x)) = {#}"
  "acquire1 (ClReply r (map_answer ReplySocket b)) = (case b of Answer (Inr i) \<Rightarrow> {#i#} | _ \<Rightarrow> {#})"
  by (cases u; cases a; cases x; cases b; auto simp: acquire1_def split: sum.split)+

lemma surrender1_simps [simp]:
  "surrender1 (ClSend (Close i)) = {#i#}"
  "\<lbrakk> \<And>i. cmd \<noteq> Close i \<rbrakk> \<Longrightarrow> surrender1 (ClSend cmd) = {#}"
  "surrender1 (ClReply r a) = {#}" "surrender1 (ClTimeout r d) = {#}" "surrender1 (ClAccept ch m) = {#}"
  "surrender1 (ClTryAccept ch m') = {#}" "surrender1 (ClCloseAccept ch) = {#}"
  by (auto simp: surrender1_def split: io_command.split)

section \<open>Running the client's primitives\<close>

lemma run_cl_emit [simp]: "run_state (cl_emit ev) c = ((), c\<lparr> c_log := ev # c_log c \<rparr>)"
  by (simp add: cl_emit_def)

lemma run_cl_ask [simp]: "run_state (cl_ask f ev) c = (f (c_log c), c\<lparr> c_log := ev (f (c_log c)) # c_log c \<rparr>)"
  by (simp add: cl_ask_def)

lemma run_new_channel [simp]: "run_state new_channel c = (c_fresh c, c\<lparr> c_fresh := Suc (c_fresh c) \<rparr>)"
  by (simp add: new_channel_def)

lemma reply_outcome_Returned: "reply_outcome a = Returned x \<longleftrightarrow> a = Answer (Inr x)"
  by (cases a) (auto split: sum.split)

lemmas await_defs = await_unit_def await_socket_def await_stats_def await_addr_def await_str_def await_members_def

section \<open>The contract\<close>

text \<open>
  What an operation acquired is owned by the handle it returns, or given up. The weaker form leaves
  out the runs in which the future was dropped.
\<close>

definition owned :: "('h \<Rightarrow> socket_id) \<Rightarrow> 'h outcome \<Rightarrow> socket_id multiset" where
  "owned ident r = (case r of Returned h \<Rightarrow> {#ident h#} | _ \<Rightarrow> {#})"

definition settles :: "('h \<Rightarrow> socket_id) \<Rightarrow> client \<Rightarrow> 'h outcome \<times> client \<Rightarrow> bool" where
  "settles ident c rc \<longleftrightarrow>
     acquired (c_log (snd rc)) + surrendered (c_log c)
       = acquired (c_log c) + surrendered (c_log (snd rc)) + owned ident (fst rc)"

locale owner =
  fixes acquire :: "'h outcome cl" and ident :: "'h \<Rightarrow> socket_id" and drop_handle :: "'h \<Rightarrow> unit cl"
  assumes acquire_settles: "fst (run_state acquire c) \<noteq> Cancelled \<Longrightarrow> settles ident c (run_state acquire c)"
    and drop_closes: "run_state (drop_handle h) c = ((), c\<lparr> c_log := ClSend (Close (ident h)) # c_log c \<rparr>)"
begin

definition use_and_drop :: "unit cl" where
  "use_and_drop = do {
     r \<leftarrow> acquire;
     (case r of Returned h \<Rightarrow> drop_handle h | _ \<Rightarrow> return ())
   }"

lemma drop_settles_all:
  assumes "fst (run_state acquire c) \<noteq> Cancelled" and "acquired (c_log c) = surrendered (c_log c)"
  shows "acquired (c_log (snd (run_state use_and_drop c))) = surrendered (c_log (snd (run_state use_and_drop c)))"
  using acquire_settles [OF assms(1)] assms(2)
  by (auto simp: use_and_drop_def settles_def owned_def drop_closes case_prod_beta split: outcome.splits)

end

locale safe_owner = owner +
  assumes cancel_settles: "settles ident c (run_state acquire c)"
begin

lemma never_orphaned:
  "acquired (c_log c) = surrendered (c_log c)
   \<Longrightarrow> acquired (c_log (snd (run_state use_and_drop c))) = surrendered (c_log (snd (run_state use_and_drop c)))"
  using cancel_settles [of c]
  by (auto simp: use_and_drop_def settles_def owned_def drop_closes case_prod_beta split: outcome.splits)

end

section \<open>Connecting\<close>

lemma connect_to_log:
  "acquired (c_log (snd (run_state (connect_to C cfg i a) c))) = acquired (c_log c)"
  "surrendered (c_log (snd (run_state (connect_to C cfg i a) c))) = surrendered (c_log c)"
  by (simp_all add: connect_to_def connect_within_def send_command_def await_defs)

lemma bind_and_connect_log [simp]:
  "acquired (c_log (snd (run_state (bind_and_connect C cfg ba i a) c))) = acquired (c_log c)"
  "surrendered (c_log (snd (run_state (bind_and_connect C cfg ba i a) c))) = surrendered (c_log c)"
  by (simp_all add: bind_and_connect_def send_command_def await_defs connect_to_log split: option.split outcome.split)

lemma socket_connect_settles:
  assumes "fst (run_state (socket_connect C sb a) c) \<noteq> Cancelled"
  shows "settles sk_id c (run_state (socket_connect C sb a) c)"
  using assms
  by (auto simp: settles_def owned_def socket_connect_def send_command_def await_defs case_prod_beta Let_def
      split: outcome.splits answer.splits sum.splits if_splits)

interpretation sockets: owner "socket_connect C sb a" sk_id socket_drop for C sb a
  by unfold_locales (simp_all add: socket_connect_settles socket_drop_def send_command_def)

interpretation rendezvous: owner "connect_rendezvous C sb l a" sk_id socket_drop for C sb l a
  unfolding connect_rendezvous_def by (rule sockets.owner_axioms)

lemma connect_to_returned:
  assumes "fst (run_state (connect_to C cfg i a) c) = Returned u"
  shows "\<exists>conn \<ge> c_fresh c. {ClSend (Connect i a conn), ClReply conn (Answer (ReplyUnit (Inr ())))}
           \<subseteq> set (c_log (snd (run_state (connect_to C cfg i a) c)))"
  using assms
  by (auto simp: connect_to_def connect_within_def send_command_def await_defs reply_outcome_Returned split: if_splits)

lemma bind_and_connect_returned:
  assumes "fst (run_state (bind_and_connect C cfg ba i a) c) = Returned u"
  shows "\<exists>conn \<ge> c_fresh c. {ClSend (Connect i a conn), ClReply conn (Answer (ReplyUnit (Inr ())))}
           \<subseteq> set (c_log (snd (run_state (bind_and_connect C cfg ba i a) c)))"
proof (cases ba)
  case None
  with assms show ?thesis using connect_to_returned by (simp add: bind_and_connect_def)
next
  case (Some b)
  define c1 where "c1 = snd (run_state (do { bound \<leftarrow> new_channel; _ \<leftarrow> send_command (Bind i b bound);
    await_unit C bound }) c)"
  have "c_fresh c \<le> c_fresh c1" by (simp add: c1_def send_command_def await_defs)
  moreover have "run_state (bind_and_connect C cfg ba i a) c = run_state (connect_to C cfg i a) c1"
    using assms Some by (auto simp: bind_and_connect_def send_command_def await_defs c1_def split: outcome.splits)
  ultimately show ?thesis using assms connect_to_returned [of C cfg i a c1] order_trans by fastforce
qed

lemma connect_to_grows: "set (c_log c) \<subseteq> set (c_log (snd (run_state (connect_to C cfg i a) c)))"
  by (auto simp: connect_to_def connect_within_def send_command_def await_defs)

lemma bind_and_connect_grows: "set (c_log c) \<subseteq> set (c_log (snd (run_state (bind_and_connect C cfg ba i a) c)))"
  using connect_to_grows
  by (fastforce simp: bind_and_connect_def send_command_def await_defs split: option.split outcome.split)

section \<open>Groups\<close>

lemma group_connect_settles:
  assumes "fst (run_state (group_connect_all C gb) c) \<noteq> Cancelled"
  shows "settles gr_id c (run_state (group_connect_all C gb) c)"
  using assms
  by (auto simp: settles_def owned_def group_connect_all_def send_command_def await_defs case_prod_beta Let_def
      split: outcome.splits answer.splits sum.splits if_splits)

interpretation groups: owner "group_connect_all C gb" gr_id group_drop for C gb
  by unfold_locales (simp_all add: group_connect_settles group_drop_def send_command_def)

section \<open>Accepting\<close>

lemma from_accepted_log [simp]:
  "acquired (c_log (snd (run_state (from_accepted C i) c))) = acquired (c_log c)"
  "surrendered (c_log (snd (run_state (from_accepted C i) c))) = surrendered (c_log c)"
  by (simp_all add: from_accepted_def send_command_def await_defs)

lemma from_accepted_id: "fst (run_state (from_accepted C i) c) = Returned s \<Longrightarrow> sk_id s = i"
  by (auto simp: from_accepted_def send_command_def await_defs split: if_splits)

lemma accept_settles: "settles sk_id c (run_state (listener_accept C l) c)"
  using from_accepted_id
  by (auto simp: settles_def owned_def listener_accept_def unclaimed_drop_def send_command_def case_prod_beta
      split: answer.split option.split outcome.split)

interpretation accepts: safe_owner "listener_accept C l" sk_id socket_drop for C l
  by unfold_locales (simp_all add: accept_settles socket_drop_def send_command_def)

section \<open>What the operations promise\<close>

text \<open>
  \<open>takes X c c'\<close> and \<open>gives X c c'\<close>: between the two states the client acquired, and gave up, exactly
  the sockets \<open>X\<close>.
\<close>

definition takes :: "socket_id multiset \<Rightarrow> client \<Rightarrow> client \<Rightarrow> bool" where
  "takes X c c' \<longleftrightarrow> acquired (c_log c') = acquired (c_log c) + X"

definition gives :: "socket_id multiset \<Rightarrow> client \<Rightarrow> client \<Rightarrow> bool" where
  "gives X c c' \<longleftrightarrow> surrendered (c_log c') = surrendered (c_log c) + X"

lemma socket_connect_returned:
  assumes "run_state (socket_connect C sb a) c = (Returned s, c')"
  shows "takes {#sk_id s#} c c'" "gives {#} c c'"
    "ClSend (RegisterSocket (sk_id s) (sk_recv_rx s) (sk_send_tx s) (sk_status_rx s)) \<in> set (c_log c')"
    "\<exists>conn \<ge> c_fresh c. {ClSend (Connect (sk_id s) a conn), ClReply conn (Answer (ReplyUnit (Inr ())))} \<subseteq> set (c_log c')"
proof -
  define c1 where "c1 = snd (run_state (do { create \<leftarrow> new_channel; _ \<leftarrow> send_command (CreateSocket (sb_config sb) create);
    r \<leftarrow> await_socket C create; recv \<leftarrow> new_channel; send \<leftarrow> new_channel; status \<leftarrow> new_channel;
    send_command (RegisterSocket (sk_id s) recv send status) }) c)"
  let ?bc = "run_state (bind_and_connect C (sb_config sb) (sb_bind_addr sb) (sk_id s) a) c1"
  have ret: "\<exists>u. fst ?bc = Returned u"
    and sub: "set (c_log (snd ?bc)) \<subseteq> set (c_log c')"
    and reg: "ClSend (RegisterSocket (sk_id s) (sk_recv_rx s) (sk_send_tx s) (sk_status_rx s)) \<in> set (c_log c1)"
    and t: "takes {#sk_id s#} c c'" and g: "gives {#} c c'"
    using assms
    by (auto simp: socket_connect_def send_command_def await_defs c1_def reply_outcome_Returned takes_def gives_def
        case_prod_beta split: outcome.splits if_splits)
  show "takes {#sk_id s#} c c'" "gives {#} c c'" by (fact t g)+
  show "ClSend (RegisterSocket (sk_id s) (sk_recv_rx s) (sk_send_tx s) (sk_status_rx s)) \<in> set (c_log c')"
    using reg sub bind_and_connect_grows [of c1] by blast
  have "c_fresh c \<le> c_fresh c1" by (simp add: c1_def send_command_def await_defs)
  then show "\<exists>conn \<ge> c_fresh c. {ClSend (Connect (sk_id s) a conn), ClReply conn (Answer (ReplyUnit (Inr ())))} \<subseteq> set (c_log c')"
    using ret bind_and_connect_returned sub order_trans by (metis (no_types, lifting))
qed

lemma socket_connect_failed:
  assumes "run_state (socket_connect C sb a) c = (r, c')"
  shows "r = Failed e \<Longrightarrow> \<exists>X. size X \<le> 1 \<and> takes X c c' \<and> gives X c c'"
    and "r = Cancelled \<Longrightarrow> gives {#} c c'"
  using assms
  by (auto simp: socket_connect_def send_command_def await_defs takes_def gives_def case_prod_beta
      split: outcome.splits if_splits answer.splits sum.splits intro: exI [of _ "{#}"] exI [of _ "{#_#}"])

text \<open>
  Claim C12. Connecting a socket leaves no socket behind. When \<^verbatim>\<open>connect\<close> fails, whatever the I/O
  thread answered and whether the reply came, failed or timed out, each socket created for it (at
  most one) has been told to close, once. When it returns a handle, that handle owns the one socket
  created, the channels it holds are those registered for that socket, no \<^verbatim>\<open>Close\<close> was sent, and the
  I/O thread has answered the connect to the remote address with success. Only when the future is
  dropped half-way is nothing told to close.
\<close>

theorem connect_owns_or_closes:
  "let (r, c') = run_state (socket_connect C sb a) c in
   case r of
     Returned s \<Rightarrow> takes {#sk_id s#} c c' \<and> gives {#} c c'
       \<and> ClSend (RegisterSocket (sk_id s) (sk_recv_rx s) (sk_send_tx s) (sk_status_rx s)) \<in> set (c_log c')
       \<and> (\<exists>conn. conn \<ge> c_fresh c
            \<and> {ClSend (Connect (sk_id s) a conn), ClReply conn (Answer (ReplyUnit (Inr ())))} \<subseteq> set (c_log c'))
   | Failed e \<Rightarrow> \<exists>X. size X \<le> 1 \<and> takes X c c' \<and> gives X c c'
   | Cancelled \<Rightarrow> gives {#} c c'"
proof -
  obtain r c' where rc: "run_state (socket_connect C sb a) c = (r, c')" by force
  show ?thesis
  proof (cases r)
    case (Returned s)
    with socket_connect_returned [OF rc [unfolded Returned]] rc show ?thesis by auto
  next
    case (Failed e)
    with socket_connect_failed(1) [OF rc] rc show ?thesis by simp
  next
    case Cancelled
    with socket_connect_failed(2) [OF rc] rc show ?thesis by simp
  qed
qed

text \<open>
  Claim C16. Connecting a group. An empty group, or one with an endpoint libsrt would refuse, fails
  before any command is sent. Otherwise a failed connect has told the group created for it to close,
  once; a returned handle owns the one group created.
\<close>

theorem group_connect_owns_or_closes:
  "let (r, c') = run_state (group_connect_all C gb) c in
   (if gb_endpoints gb = [] \<or> (\<exists>ep \<in> set (gb_endpoints gb). endpoint_check ep \<noteq> Inr ())
    then c' = c \<and> r = Failed Err_InvalidParam
    else case r of
      Returned g \<Rightarrow> takes {#gr_id g#} c c' \<and> gives {#} c c' \<and> length (gr_endpoints g) = length (gb_endpoints gb)
        \<and> ClSend (RegisterSocket (gr_id g) (gr_recv_rx g) (gr_send_tx g) (gr_status_rx g)) \<in> set (c_log c')
    | Failed e \<Rightarrow> \<exists>X. size X \<le> 1 \<and> takes X c c' \<and> gives X c c'
    | Cancelled \<Rightarrow> gives {#} c c')"
proof -
  have chk: "check_endpoints eps = (if \<exists>ep \<in> set eps. endpoint_check ep \<noteq> Inr () then Inl Err_InvalidParam else Inr ())" for eps
    by (induction eps) (auto simp: endpoint_check_def split: option.splits if_splits)
  show ?thesis
    by (auto simp: group_connect_all_def chk send_command_def await_defs takes_def gives_def case_prod_beta Let_def
        split: outcome.splits answer.splits sum.splits intro: exI [of _ "{#}"] exI [of _ "{#_#}"])
qed

end
