(* ===== verification/Accepting.thy ===== *)
theory Accepting
  imports Ownership Bridge
begin










section \<open>Where a connection can be\<close>

text \<open>The connections libsrt handed to the thread, and those the thread closed on the spot.\<close>

definition arrived1 :: "event \<Rightarrow> socket_id multiset" where
  "arrived1 ev = (case ev of EvAccept _ i \<Rightarrow> if i < 0 then {#} else {#i#} | _ \<Rightarrow> {#})"

definition arrived :: "event list \<Rightarrow> socket_id multiset" where
  "arrived es = sum_list (map arrived1 es)"

lemma arrived_simps [simp]:
  "arrived [] = {#}" "arrived (ev # es) = arrived1 ev + arrived es" "arrived (es @ es') = arrived es + arrived es'"
  by (simp_all add: arrived_def)



















section \<open>What the two sides promise together\<close>












end
