(* ===== verification/Sessions.thy ===== *)
theory Sessions
  imports Ownership Bridge
begin

text \<open>
  Both sides together: the commands an operation of the Tokio side sent are served by the I/O thread,
  in the order they were sent. What a failed operation leaves behind in the thread's socket table is
  then a fact about the two programs: nothing after a failed connect, but an entry for good after a
  listener that could not bind.
\<close>

definition sent :: "cl_event list \<Rightarrow> io_command list" where
  "sent es = concat (map (\<lambda>ev. case ev of ClSend cmd \<Rightarrow> [cmd] | _ \<Rightarrow> []) (rev es))"

definition serve_one :: "env \<Rightarrow> io_command \<Rightarrow> unit io" where
  "serve_one E cmd = do { _ \<leftarrow> process_command E cmd; return () }"

definition serve :: "env \<Rightarrow> io_command list \<Rightarrow> unit io" where
  "serve E cmds = for_each (serve_one E) cmds"

lemma sent_simps [simp]:
  "sent [] = []" "sent (ClSend cmd # es) = sent es @ [cmd]"
  "sent (ClReply r a # es) = sent es" "sent (ClTimeout r d # es) = sent es"
  "sent (es @ es') = sent es' @ sent es"
  by (simp_all add: sent_def)

lemma run_serve_append:
  "run_state (serve E (xs @ ys)) b = run_state (serve E ys) (snd (run_state (serve E xs) b))"
  by (induction xs arbitrary: b) (simp_all add: serve_def case_prod_beta)

lemma serve_Nil [simp]: "run_state (serve E []) b = ((), b)"
  by (simp add: serve_def)

lemma serve_Cons: "run_state (serve E (cmd # cmds)) b = run_state (serve E cmds) (snd (run_state (process_command E cmd) b))"
  by (simp add: serve_def serve_one_def case_prod_beta)

text \<open>A session that ends with a \<^verbatim>\<open>Close\<close> leaves no entry, and the socket is closed in libsrt.\<close>

lemma serve_close:
  "let b' = snd (run_state (serve E (cmds @ [Close i])) b) in
   map_of (sockets b') i = None \<and> EvClose i \<in> set (log b')"
  by (simp add: run_serve_append serve_Cons process_command_def run_if_some AList_delete_filter Let_def
      map_of_eq_None_iff split: option.split) blast

lemma zombies_keep_listener:
  assumes "map_of (sockets b) i = Some s" "ss_is_listener s"
  shows "map_of (sockets (snd (run_state (cleanup_zombies E) b))) i = Some s"
proof -
  define b1 where "b1 = snd (run_state (sock_ids E) b)"
  define ids where "ids = fst (run_state (sock_ids E) b)"
  define b2 where "b2 = snd (run_state (filter_m (is_zombie E) ids) b1)"
  define buf where "buf = fst (run_state (filter_m (is_zombie E) ids) b1)"
  have "sockets b1 = sockets b" by (simp add: b1_def)
  then have b2: "sockets b2 = sockets b" and "\<forall>i \<in> set buf. \<exists>s. map_of (sockets b) i = Some s \<and> zombie_class s"
    using run_filter_zombies [of E ids b1] by (simp_all add: b2_def buf_def)
  then have "i \<notin> set buf" using assms by (auto simp: zombie_class_def)
  moreover have "snd (run_state (cleanup_zombies E) b) = snd (run_state (for_each (\<lambda>i. do { entry \<leftarrow> close_and_release i;
      if_some entry (finish_state Err_ConnectionLost) }) buf) b2)"
    by (simp add: cleanup_zombies_def b2_def buf_def b1_def ids_def case_prod_beta)
  then have "sockets (snd (run_state (cleanup_zombies E) b)) = filter (\<lambda>e. fst e \<notin> set buf) (sockets b)"
    using close_each [of "\<lambda>i. do { entry \<leftarrow> close_and_release i; if_some entry (finish_state Err_ConnectionLost) }" buf b2]
      close_finish_step unfolding b2 Let_def by metis
  ultimately show ?thesis using assms(1) by (simp add: map_of_filter_keys)
qed

text \<open>A Tokio side for concrete runs: the socket 7 is created, and every later request is refused.\<close>

definition refusing :: cenv where
  "refusing = \<lparr> ce_unit = (\<lambda>_ _. Answer (Inl Err_InvalidParam)), ce_socket = (\<lambda>_ _. Answer (Inr 7)),
     ce_stats = (\<lambda>_ _. Gone), ce_addr = (\<lambda>_ _. Gone), ce_str = (\<lambda>_ _. Gone), ce_members = (\<lambda>_ _. Gone),
     ce_timeout = (\<lambda>_ _ _. False), ce_send_data = (\<lambda>_ _ _. False), ce_recv = (\<lambda>_ _. None),
     ce_status = (\<lambda>_ _. S_Init), ce_changed = (\<lambda>_ _. False), ce_accept = (\<lambda>_ _. Dropped),
     ce_try_accept = (\<lambda>_ _. None) \<rparr>"

definition newborn :: client where
  "newborn = \<lparr> c_log = [], c_fresh = 0 \<rparr>"

section \<open>A failed connect\<close>

lemma connect_failure_ends_with_close:
  assumes "run_state (socket_connect C sb a) c = (Failed e, c')" "takes {#i#} c c'"
  shows "\<exists>l. c_log c' = ClSend (Close i) # l"
  using assms
  by (auto simp: socket_connect_def send_command_def await_defs takes_def case_prod_beta
      split: outcome.splits if_splits answer.splits sum.splits)

lemma group_failure_ends_with_close:
  assumes "run_state (group_connect_all C gb) c = (Failed e, c')" "takes {#i#} c c'"
  shows "\<exists>l. c_log c' = ClSend (Close i) # l"
  using assms
  by (auto simp: group_connect_all_def send_command_def await_defs takes_def case_prod_beta
      split: outcome.splits if_splits answer.splits sum.splits)

text \<open>
  Claim C14. A failed connect leaves nothing in the I/O thread. When connecting a socket or a group
  fails after libsrt had created it, then once the thread has served the commands that were sent, in
  order and whatever libsrt answers, its table has no entry for the socket and libsrt has been told
  to close it.
\<close>

theorem failed_connect_leaves_nothing:
  assumes "run_state (socket_connect C sb a) c = (Failed e, c') \<or> run_state (group_connect_all C gb) c = (Failed e, c')"
    and "takes {#i#} c c'" and "c_log c' = es @ c_log c"
  shows "let b' = snd (run_state (serve E (sent es)) b) in map_of (sockets b') i = None \<and> EvClose i \<in> set (log b')"
proof -
  obtain l where l: "c_log c' = ClSend (Close i) # l"
    using assms(1,2) connect_failure_ends_with_close group_failure_ends_with_close by blast
  have "es \<noteq> []" using assms(2,3) by (auto simp: takes_def)
  with assms(3) l obtain es' where "es = ClSend (Close i) # es'" by (cases es) auto
  then show ?thesis using serve_close [of E "sent es'" i b] by simp
qed

theorem failed_connect_leaves_nothing_witness:
  "\<exists>c' es. run_state (socket_connect refusing socket_builder_new unspecified_v4) newborn = (Failed Err_InvalidParam, c')
     \<and> takes {#7#} newborn c' \<and> c_log c' = es @ c_log newborn
     \<and> map_of (sockets (snd (run_state (serve quiet_env (sent es)) start))) 7 = None"
proof -
  define c' where "c' = snd (run_state (socket_connect refusing socket_builder_new unspecified_v4) newborn)"
  have r: "run_state (socket_connect refusing socket_builder_new unspecified_v4) newborn = (Failed Err_InvalidParam, c')"
    and t: "takes {#7#} newborn c'" and l: "c_log c' = c_log c' @ c_log newborn"
    by (simp_all add: c'_def socket_connect_def bind_and_connect_def connect_to_def connect_within_def send_command_def
        await_defs refusing_def newborn_def socket_builder_new_def takes_def)
  show ?thesis
    using failed_connect_leaves_nothing [OF disjI1 [OF r] t l] r t l unfolding Let_def by blast
qed

section \<open>A listener that cannot bind\<close>

lemma bind_failure_log:
  assumes "run_state (listener_bind C lb a) c = (Failed e, c')" "takes {#i#} c c'" "c_log c' = es @ c_log c"
    and "\<forall>n r. ClSend (Listen i n r) \<notin> set es"
  shows "\<exists>r0 ch rx sx st r1. sent es = [CreateSocket (lb_config lb) r0, RegisterListener i ch (lb_access_control lb),
    RegisterSocket i rx sx st, Bind i a r1]"
proof -
  have "c_log c' = es @ c_log c \<Longrightarrow> c_log c' = es' @ c_log c \<Longrightarrow> es' = es" for es' by simp
  then show ?thesis
    using assms
    by (fastforce simp: listener_bind_def send_command_def await_defs takes_def case_prod_beta Cons_eq_append_conv
        split: outcome.splits if_splits answer.splits sum.splits)
qed

text \<open>Creating, registering and binding only add the entry.\<close>

lemma serve_create_sockets: "sockets (snd (run_state (process_command E (CreateSocket cfg r)) b)) = sockets b"
  by (simp add: process_command_def create_socket_def set_nonblocking_def apply_config_def run_set_opts prim_defs
      case_prod_beta)

lemma serve_bind_sockets: "sockets (snd (run_state (process_command E (Bind i a r)) b)) = sockets b"
  by (simp add: process_command_def bind_socket_def prim_defs case_prod_beta Let_def)

definition listener_entry :: "slot option \<Rightarrow> socket_state \<Rightarrow> bool" where
  "listener_entry ac s \<longleftrightarrow> ss_is_listener s \<and> ss_access_control s = ac"

lemma serve_register_listener:
  assumes "map_of (sockets b) i = None"
  shows "\<exists>s. map_of (sockets (snd (run_state (process_command E (RegisterListener i ch ac)) b))) i = Some s
    \<and> listener_entry ac s"
  using assms
  by (auto simp: process_command_def register_listener_def with_entry_def set_listener_def new_socket_state_def
      listener_entry_def update_conv' case_prod_beta Let_def split: option.split)

lemma serve_register_socket:
  assumes "map_of (sockets b) i = Some s" "listener_entry ac s"
  shows "\<exists>s. map_of (sockets (snd (run_state (process_command E (RegisterSocket i rx sx st)) b))) i = Some s
    \<and> listener_entry ac s"
  using assms
  by (auto simp: process_command_def register_socket_def with_entry_def set_channels_def initial_status_def
      listener_entry_def with_status_def update_conv' prim_defs case_prod_beta Let_def)

text \<open>
  Claim C27. A listener that cannot bind is never released. When \<^verbatim>\<open>bind\<close> fails at its \<^verbatim>\<open>Bind\<close> command
  (the address is in use, say), no \<^verbatim>\<open>Close\<close> was sent for the socket created; and once the thread has
  served the commands that were, its table holds a listener entry for that socket, with the
  access-control policy in it, which the zombie reaper keeps.
\<close>

theorem failed_bind_is_never_released:
  assumes "run_state (listener_bind C lb a) c = (Failed e, c')" "takes {#i#} c c'" "c_log c' = es @ c_log c"
    and "\<forall>n r. ClSend (Listen i n r) \<notin> set es" and "map_of (sockets b) i = None"
  shows "let b' = snd (run_state (serve E (sent es)) b) in
    Close i \<notin> set (sent es)
    \<and> (\<exists>s. map_of (sockets b') i = Some s \<and> ss_is_listener s \<and> ss_access_control s = lb_access_control lb
         \<and> map_of (sockets (snd (run_state (cleanup_zombies E') b'))) i = Some s)"
proof -
  obtain r0 ch rx sx st r1 where cmds: "sent es = [CreateSocket (lb_config lb) r0,
      RegisterListener i ch (lb_access_control lb), RegisterSocket i rx sx st, Bind i a r1]"
    using bind_failure_log [OF assms(1-4)] by blast
  define b1 where "b1 = snd (run_state (process_command E (CreateSocket (lb_config lb) r0)) b)"
  define b2 where "b2 = snd (run_state (process_command E (RegisterListener i ch (lb_access_control lb))) b1)"
  define b3 where "b3 = snd (run_state (process_command E (RegisterSocket i rx sx st)) b2)"
  define b4 where "b4 = snd (run_state (process_command E (Bind i a r1)) b3)"
  have b4: "b4 = snd (run_state (serve E (sent es)) b)"
    by (simp add: cmds serve_Cons b4_def b3_def b2_def b1_def)
  have "map_of (sockets b1) i = None" using assms(5) by (simp add: b1_def serve_create_sockets)
  then obtain s2 where "map_of (sockets b2) i = Some s2" "listener_entry (lb_access_control lb) s2"
    using serve_register_listener unfolding b2_def by blast
  then obtain s3 where "map_of (sockets b3) i = Some s3" "listener_entry (lb_access_control lb) s3"
    using serve_register_socket unfolding b3_def by blast
  then have "map_of (sockets b4) i = Some s3" "listener_entry (lb_access_control lb) s3"
    by (simp_all add: b4_def serve_bind_sockets)
  then show ?thesis
    using zombies_keep_listener unfolding Let_def b4 [symmetric] by (auto simp: cmds listener_entry_def)
qed

theorem failed_bind_is_never_released_witness:
  "\<exists>c' es s. run_state (listener_bind refusing (listener_access_control 3 listener_builder_new) unspecified_v4) newborn
       = (Failed Err_InvalidParam, c')
     \<and> takes {#7#} newborn c' \<and> c_log c' = es @ c_log newborn
     \<and> map_of (sockets (snd (run_state (serve quiet_env (sent es)) start))) 7 = Some s \<and> ss_access_control s = Some 3"
proof -
  let ?lb = "listener_access_control 3 listener_builder_new"
  define c' where "c' = snd (run_state (listener_bind refusing ?lb unspecified_v4) newborn)"
  have r: "run_state (listener_bind refusing ?lb unspecified_v4) newborn = (Failed Err_InvalidParam, c')"
    and t: "takes {#7#} newborn c'" and l: "c_log c' = c_log c' @ c_log newborn"
    and n: "\<forall>n r. ClSend (Listen 7 n r) \<notin> set (c_log c')"
    by (simp_all add: c'_def listener_bind_def send_command_def await_defs refusing_def newborn_def
        listener_builder_new_def takes_def)
  have "map_of (sockets start) 7 = None" by (simp add: start_def)
  moreover have "lb_access_control ?lb = Some 3" by (simp add: listener_access_control_def)
  ultimately show ?thesis
    using failed_bind_is_never_released [OF r t l n, of start quiet_env quiet_env] r t l unfolding Let_def by auto
qed

end
