(* ===== verification/Waiting.thy ===== *)
theory Waiting
  imports Handles
begin

text \<open>
  \<^verbatim>\<open>SrtSocket::wait_for_state\<close> (\<^verbatim>\<open>srt-transport/src/socket.rs\<close>): what it returns, and that it returns once
  the status settles or the I/O thread drops its end of the status channel.
\<close>

text \<open>How often the channel was waited on.\<close>

definition rounds :: "chan \<Rightarrow> cl_event list \<Rightarrow> nat" where
  "rounds rx l = length (filter (\<lambda>ev. case ev of ClChanged ch _ \<Rightarrow> ch = rx | _ \<Rightarrow> False) l)"

lemma rounds_simps [simp]:
  "rounds rx [] = 0" "rounds rx (ClStatus ch st # l) = rounds rx l"
  "rounds rx (ClChanged ch ok # l) = (if ch = rx then Suc (rounds rx l) else rounds rx l)"
  by (simp_all add: rounds_def)

definition final_for :: "socket_status \<Rightarrow> socket_status \<Rightarrow> bool" where
  "final_for target st \<longleftrightarrow> st = target \<or> st = S_Broken \<or> st = S_Closed"

text \<open>One turn of the loop.\<close>

lemma run_wait:
  "run_state (wait_for_state C (Suc n) s target) c =
     (let rx = sk_status_rx s; st = ce_status C (c_log c) rx; l1 = ClStatus rx st # c_log c;
          ok = ce_changed C l1 rx; l2 = ClChanged rx ok # l1
      in if final_for target st then (Some st, c\<lparr> c_log := l1 \<rparr>)
         else if ok then run_state (wait_for_state C n s target) (c\<lparr> c_log := l2 \<rparr>)
         else (Some (ce_status C l2 rx), c\<lparr> c_log := ClStatus rx (ce_status C l2 rx) # l2 \<rparr>))"
  by (simp add: borrow_def cl_ask_def final_for_def Let_def)

lemma wait_returns_seen:
  "fst (run_state (wait_for_state C n s target) c) = Some st \<Longrightarrow>
   \<exists>es. c_log (snd (run_state (wait_for_state C n s target) c)) = ClStatus (sk_status_rx s) st # es @ c_log c
      \<and> (final_for target st \<or> ClChanged (sk_status_rx s) False \<in> set es)"
proof (induction n arbitrary: c)
  case (Suc n)
  define rx where "rx = sk_status_rx s"
  define l1 where "l1 = ClStatus rx (ce_status C (c_log c) rx) # c_log c"
  show ?case
  proof (cases "final_for target (ce_status C (c_log c) rx)")
    case True
    with Suc.prems show ?thesis by (auto simp: run_wait Let_def rx_def simp del: wait_for_state.simps)
  next
    case False
    let ?c = "c\<lparr> c_log := ClChanged rx (ce_changed C l1 rx) # l1 \<rparr>"
    show ?thesis
    proof (cases "ce_changed C l1 rx")
      case True
      have step: "run_state (wait_for_state C (Suc n) s target) c = run_state (wait_for_state C n s target) ?c"
        using False True by (simp add: run_wait Let_def rx_def l1_def del: wait_for_state.simps)
      from Suc.IH [of ?c] Suc.prems obtain es where
        "c_log (snd (run_state (wait_for_state C n s target) ?c)) = ClStatus rx st # es @ c_log ?c"
        "final_for target st \<or> ClChanged rx False \<in> set es"
        unfolding step rx_def [symmetric] by blast
      then show ?thesis
        unfolding step rx_def [symmetric]
        by (intro exI [of _ "es @ [ClChanged rx True, ClStatus rx (ce_status C (c_log c) rx)]"])
           (use True in \<open>auto simp: l1_def\<close>)
    qed (use False Suc.prems in \<open>auto simp: run_wait Let_def rx_def l1_def simp del: wait_for_state.simps\<close>)
  qed
qed simp

lemma wait_ends:
  assumes settles: "(\<forall>l. K \<le> rounds (sk_status_rx s) l \<longrightarrow> final_for target (ce_status C l (sk_status_rx s)))
      \<or> (\<forall>l. K \<le> rounds (sk_status_rx s) l \<longrightarrow> \<not> ce_changed C l (sk_status_rx s))"
    and "0 < n" "K < rounds (sk_status_rx s) (c_log c) + n"
  shows "\<exists>st. fst (run_state (wait_for_state C n s target) c) = Some st"
  using assms(2,3)
proof (induction n arbitrary: c)
  case (Suc n)
  define rx where "rx = sk_status_rx s"
  define l1 where "l1 = ClStatus rx (ce_status C (c_log c) rx) # c_log c"
  show ?case
  proof (cases "final_for target (ce_status C (c_log c) rx) \<or> \<not> ce_changed C l1 rx")
    case True
    then show ?thesis by (auto simp: run_wait Let_def rx_def l1_def simp del: wait_for_state.simps)
  next
    case False
    let ?c = "c\<lparr> c_log := ClChanged rx True # l1 \<rparr>"
    have "n \<noteq> 0"
    proof
      assume "n = 0"
      then have "K \<le> rounds rx (c_log c)" "K \<le> rounds rx l1" using Suc.prems(2) by (simp_all add: rx_def l1_def)
      with settles False show False unfolding rx_def [symmetric] by blast
    qed
    then have "\<exists>st. fst (run_state (wait_for_state C n s target) ?c) = Some st"
      using Suc.IH [of ?c] Suc.prems(2) by (simp add: rx_def l1_def)
    with False show ?thesis by (simp add: run_wait Let_def rx_def l1_def del: wait_for_state.simps)
  qed
qed simp

text \<open>
  Claim C28. Waiting for a status ends, with a status that was read. If from the K-th change on the
  status is the awaited one, Broken or Closed, or if the I/O thread drops its end of the channel,
  \<^verbatim>\<open>wait_for_state\<close> returns after at most K further turns; and it returns the status it read last, which
  is the awaited one, Broken or Closed unless the channel was dropped.
\<close>

theorem wait_for_state_settles:
  assumes "(\<forall>l. K \<le> rounds (sk_status_rx s) l \<longrightarrow> final_for target (ce_status C l (sk_status_rx s)))
      \<or> (\<forall>l. K \<le> rounds (sk_status_rx s) l \<longrightarrow> \<not> ce_changed C l (sk_status_rx s))"
  shows "\<exists>st es. let (r, c') = run_state (wait_for_state C (Suc K) s target) c in
    r = Some st \<and> c_log c' = ClStatus (sk_status_rx s) st # es @ c_log c
    \<and> (st = target \<or> st = S_Broken \<or> st = S_Closed \<or> ClChanged (sk_status_rx s) False \<in> set es)"
proof -
  obtain st where "fst (run_state (wait_for_state C (Suc K) s target) c) = Some st"
    using wait_ends [OF assms, of "Suc K" c] by auto
  with wait_returns_seen [OF this] show ?thesis
    by (auto simp: case_prod_beta final_for_def simp del: wait_for_state.simps)
qed

definition broken_env :: "cenv \<Rightarrow> cenv" where
  "broken_env C = C\<lparr> ce_status := (\<lambda>l ch. if rounds ch l < 2 then S_Connecting else S_Broken), ce_changed := (\<lambda>_ _. True) \<rparr>"

theorem wait_for_state_settles_witness:
  "\<forall>C s. fst (run_state (wait_for_state (broken_env C) 3 s S_Connected) \<lparr> c_log = [], c_fresh = 0 \<rparr>) = Some S_Broken"
proof (intro allI)
  fix C and s :: srt_socket
  have "\<forall>l. 2 \<le> rounds (sk_status_rx s) l \<longrightarrow> final_for S_Connected (ce_status (broken_env C) l (sk_status_rx s))"
    by (simp add: broken_env_def final_for_def)
  then obtain st where "fst (run_state (wait_for_state (broken_env C) (Suc 2) s S_Connected) \<lparr> c_log = [], c_fresh = 0 \<rparr>) = Some st"
    using wait_for_state_settles [of 2 s S_Connected "broken_env C" "\<lparr> c_log = [], c_fresh = 0 \<rparr>"]
    by (auto simp: case_prod_beta simp del: wait_for_state.simps)
  then show "fst (run_state (wait_for_state (broken_env C) 3 s S_Connected) \<lparr> c_log = [], c_fresh = 0 \<rparr>) = Some S_Broken"
    by (simp add: numeral_eq_Suc run_wait Let_def broken_env_def final_for_def del: wait_for_state.simps split: if_splits)
qed

end
