(* ===== verification/Data_Path.thy ===== *)
theory Data_Path
  imports Bridge
begin

text \<open>
  What the I/O thread guarantees about the data it moves: messages sent and received in order and
  without loss, connections accepted or refused but never leaked, connects and listens reported
  truthfully. The statements are about the events an operation adds to the log.
\<close>

section \<open>Reading the log\<close>

text \<open>The log is newest first; these lists are in the order of time.\<close>

definition took :: "chan \<Rightarrow> event \<Rightarrow> bytes list" where
  "took rx ev = (case ev of EvTryRecv c m \<Rightarrow> (case m of RecvOk d \<Rightarrow> if c = rx then [d] else [] | _ \<Rightarrow> []) | _ \<Rightarrow> [])"

definition taken :: "chan \<Rightarrow> event list \<Rightarrow> bytes list" where
  "taken rx l = concat (map (took rx) (rev l))"

definition accept1 :: "socket_id \<Rightarrow> event \<Rightarrow> bytes list" where
  "accept1 i ev = (case ev of EvSendMsg j d ret \<Rightarrow> if j = i \<and> ret \<ge> 0 then [d] else [] | _ \<Rightarrow> [])"

definition accepted :: "socket_id \<Rightarrow> event list \<Rightarrow> bytes list" where
  "accepted i l = concat (map (accept1 i) (rev l))"

lemma taken_simps [simp]:
  "taken rx [] = []" "taken rx (ev # l) = taken rx l @ took rx ev" "taken rx (l @ l') = taken rx l' @ taken rx l"
  by (simp_all add: taken_def)

lemma accepted_simps [simp]:
  "accepted i [] = []" "accepted i (ev # l) = accepted i l @ accept1 i ev"
  "accepted i (l @ l') = accepted i l' @ accepted i l"
  by (simp_all add: accepted_def)

lemma took_simps [simp]:
  "took rx (EvTryRecv c (RecvOk d)) = (if c = rx then [d] else [])" "took rx (EvTryRecv c RecvEmpty) = []"
  "took rx (EvTryRecv c RecvDisconnected) = []" "took rx (EvSendMsg j d ret) = []" "took rx (EvLastError e) = []"
  "took rx EvOutOfFuel = []"
  by (simp_all add: took_def)

lemma accept1_simps [simp]:
  "accept1 i (EvSendMsg j d ret) = (if j = i \<and> ret \<ge> 0 then [d] else [])" "accept1 i (EvTryRecv c m) = []"
  "accept1 i (EvLastError e) = []" "accept1 i EvOutOfFuel = []"
  by (simp_all add: accept1_def)

section \<open>Sending\<close>

text \<open>A message is lost only if libsrt refuses it for another reason than a full buffer.\<close>

definition hard_error :: "socket_id \<Rightarrow> event list \<Rightarrow> bool" where
  "hard_error i es \<longleftrightarrow>
     (\<exists>c d ret es'. es = EvLastError c # EvSendMsg i d ret # es' \<and> ret < 0 \<and> from_code c \<noteq> Err_AsyncSend)"

definition fifo_step :: "socket_id \<Rightarrow> bytes list \<Rightarrow> event list \<Rightarrow> bytes list \<Rightarrow> bool" where
  "fifo_step i offered es left \<longleftrightarrow>
     (\<exists>lost. offered = accepted i es @ lost @ left \<and> length lost \<le> 1 \<and> (lost \<noteq> [] \<longrightarrow> hard_error i es))"

lemma drain_backlog_fifo:
  "run_state (drain_backlog E i ds) b = ((left, go), b') \<Longrightarrow>
   \<exists>es. log b' = es @ log b \<and> (\<forall>rx. taken rx es = []) \<and> fifo_step i ds es left
     \<and> length left \<le> length ds \<and> (go \<longrightarrow> left = [] \<and> ds = accepted i es)"
proof (induction ds arbitrary: b)
  case Nil
  then show ?case by (auto simp: fifo_step_def)
next
  case (Cons d ds)
  define ret where "ret = e_sendmsg2 E (log b) i d"
  define b1 where "b1 = b\<lparr> log := EvSendMsg i d ret # log b \<rparr>"
  have send: "run_state (srt_sendmsg2 E i d) b = (ret, b1)"
    by (simp add: srt_sendmsg2_def ret_def b1_def)
  show ?case
  proof (cases "ret < 0")
    case True
    define c where "c = e_getlasterror E (log b1)"
    have "b' = b1\<lparr> log := EvLastError c # log b1 \<rparr>"
      "left = (if from_code c = Err_AsyncSend then d # ds else ds)" "\<not> go"
      using Cons.prems True by (auto simp: send last_srt_error_def c_def)
    then show ?thesis
      using True by (intro exI [of _ "[EvLastError c, EvSendMsg i d ret]"])
        (auto simp: b1_def fifo_step_def hard_error_def)
  next
    case False
    then have "run_state (drain_backlog E i ds) b1 = ((left, go), b')"
      using Cons.prems by (simp add: send)
    from Cons.IH [OF this] obtain es lost where es: "log b' = es @ log b1" "\<forall>rx. taken rx es = []"
      "ds = accepted i es @ lost @ left" "length lost \<le> 1" "lost \<noteq> [] \<longrightarrow> hard_error i es"
      "length left \<le> length ds" "go \<longrightarrow> left = [] \<and> ds = accepted i es"
      by (auto simp: fifo_step_def)
    show ?thesis
      using False es by (intro exI [of _ "es @ [EvSendMsg i d ret]"])
        (auto simp: b1_def fifo_step_def hard_error_def)
  qed
qed

lemma drain_channel_fifo:
  "run_state (drain_channel E n i rx []) b = (left, b') \<Longrightarrow>
   \<exists>es. log b' = es @ log b \<and> fifo_step i (taken rx es) es left \<and> length left \<le> 1"
proof (induction n arbitrary: b)
  case 0
  then show ?case
    by (auto simp: fifo_step_def)
next
  case (Suc n)
  define m where "m = e_try_recv E (log b) rx"
  define b0 where "b0 = b\<lparr> log := EvTryRecv rx m # log b \<rparr>"
  have recv: "run_state (try_recv E rx) b = (m, b0)" by (simp add: try_recv_def m_def b0_def)
  show ?case
  proof (cases m)
    case (RecvOk d)
    define ret where "ret = e_sendmsg2 E (log b0) i d"
    define b1 where "b1 = b0\<lparr> log := EvSendMsg i d ret # log b0 \<rparr>"
    have send: "run_state (srt_sendmsg2 E i d) b0 = (ret, b1)"
      by (simp add: srt_sendmsg2_def ret_def b1_def)
    show ?thesis
    proof (cases "ret < 0")
      case True
      define c where "c = e_getlasterror E (log b1)"
      have "b' = b1\<lparr> log := EvLastError c # log b1 \<rparr>" "left = (if from_code c = Err_AsyncSend then [d] else [])"
        using Suc.prems True RecvOk by (auto simp: recv send last_srt_error_def c_def)
      then show ?thesis
        using True RecvOk by (intro exI [of _ "[EvLastError c, EvSendMsg i d ret, EvTryRecv rx m]"])
          (auto simp: b1_def b0_def fifo_step_def hard_error_def)
    next
      case False
      then have "run_state (drain_channel E n i rx []) b1 = (left, b')"
        using Suc.prems RecvOk by (simp add: recv send)
      from Suc.IH [OF this] obtain es lost where es: "log b' = es @ log b1"
        "taken rx es = accepted i es @ lost @ left" "length lost \<le> 1" "lost \<noteq> [] \<longrightarrow> hard_error i es" "length left \<le> 1"
        by (auto simp: fifo_step_def)
      show ?thesis
        using False es RecvOk by (intro exI [of _ "es @ [EvSendMsg i d ret, EvTryRecv rx m]"])
          (auto simp: b1_def b0_def fifo_step_def hard_error_def)
    qed
  qed (use Suc.prems in \<open>auto simp: recv b0_def fifo_step_def\<close>)
qed

lemma send_all_fifo:
  assumes run: "run_state (send_all E i s) b = (s', b')"
  shows "\<exists>es. log b' = es @ log b \<and> s' = s\<lparr> ss_send_backlog := ss_send_backlog s' \<rparr>
    \<and> fifo_step i (ss_send_backlog s @ (case ss_send_rx s of None \<Rightarrow> [] | Some rx \<Rightarrow> taken rx es)) es (ss_send_backlog s')
    \<and> length (ss_send_backlog s') \<le> max 1 (length (ss_send_backlog s))"
proof -
  obtain left go b1 where dr: "run_state (drain_backlog E i (ss_send_backlog s)) b = ((left, go), b1)"
    by (metis surj_pair)
  obtain es where es: "log b1 = es @ log b" "\<forall>rx. taken rx es = []" "fifo_step i (ss_send_backlog s) es left"
    "length left \<le> length (ss_send_backlog s)" "go \<longrightarrow> left = [] \<and> ss_send_backlog s = accepted i es"
    using drain_backlog_fifo [OF dr] by blast
  show ?thesis
  proof (cases "go \<and> ss_send_rx s \<noteq> None")
    case True
    then obtain rx where rx: "ss_send_rx s = Some rx" "left = []" "ss_send_backlog s = accepted i es" using es(5) by auto
    obtain left' b2 where dc: "run_state (drain_channel E (e_fuel E) i rx []) b1 = (left', b2)" by force
    from drain_channel_fifo [OF dc] obtain es2 lost where es2: "log b2 = es2 @ log b1"
      "taken rx es2 = accepted i es2 @ lost @ left'" "length lost \<le> 1" "lost \<noteq> [] \<longrightarrow> hard_error i es2" "length left' \<le> 1"
      by (auto simp: fifo_step_def)
    have "s' = s\<lparr> ss_send_backlog := left' \<rparr>" "b' = b2"
      using run True rx(1,2) by (auto simp: send_all_def dr dc)
    then show ?thesis
      using es es2 rx
      by (intro exI [of _ "es2 @ es"]) (auto simp: fifo_step_def hard_error_def)
  next
    case False
    then have "s' = s\<lparr> ss_send_backlog := left \<rparr>" "b' = b1"
      using run by (auto simp: send_all_def dr split: option.splits)
    then show ?thesis
      using es by (intro exI [of _ es]) (auto simp: fifo_step_def split: option.split)
  qed
qed

text \<open>
  Claim C2. Sending is first in, first out and loses nothing on a full buffer. The messages offered
  to libsrt in one drain (first the backlog, then what the channel gives) are, in order, the
  messages libsrt accepted, then at most one message, lost only when libsrt failed with something
  other than a full buffer, then the new backlog. A drain keeps everything else of the entry, and a
  backlog never grows beyond one message.
\<close>

theorem handle_send_fifo:
  assumes "map_of (sockets b) i = Some s"
  shows "let b' = snd (run_state (handle_send E i) b) in
    \<exists>es s' lost. log b' = es @ log b \<and> map_of (sockets b') i = Some s'
      \<and> s' = s\<lparr> ss_send_backlog := ss_send_backlog s' \<rparr>
      \<and> ss_send_backlog s @ (case ss_send_rx s of None \<Rightarrow> [] | Some rx \<Rightarrow> taken rx es)
          = accepted i es @ lost @ ss_send_backlog s'
      \<and> length lost \<le> 1 \<and> (lost \<noteq> [] \<longrightarrow> hard_error i es)
      \<and> length (ss_send_backlog s') \<le> max 1 (length (ss_send_backlog s))"
proof -
  obtain s' b1 where run: "run_state (send_all E i s) b = (s', b1)" by force
  have "snd (run_state (handle_send E i) b) = b1\<lparr> sockets := AList.update i s' (sockets b1) \<rparr>"
    using assms by (simp add: handle_send_def run_with_sock run)
  then show ?thesis
    using send_all_fifo [OF run] by (auto simp: fifo_step_def Let_def update_conv)
qed

text \<open>A channel with two messages, and a libsrt that takes the first and then would block.\<close>

definition busy_env :: env where
  "busy_env = quiet_env\<lparr> e_fuel := 3,
     e_try_recv := (\<lambda>l rx. if length (taken rx l) < 2 then RecvOk [word_of_nat (length (taken rx l))] else RecvEmpty),
     e_sendmsg2 := (\<lambda>l i d. if d = [0] then 1 else - 1), e_getlasterror := (\<lambda>_. 6001) \<rparr>"

definition sending :: socket_state where
  "sending = (new_socket_state False False False)\<lparr> ss_send_rx := Some 4, ss_last_status := S_Connected \<rparr>"

theorem handle_send_fifo_witness:
  "let b = start\<lparr> sockets := [(7, sending)] \<rparr>; b' = snd (run_state (handle_send busy_env 7) b) in
   \<exists>es s' lost. map_of (sockets b') 7 = Some s' \<and> taken 4 es = accepted 7 es @ lost @ ss_send_backlog s'"
proof -
  let ?b = "start\<lparr> sockets := [(7, sending)] \<rparr>"
  have "map_of (sockets ?b) 7 = Some sending" by simp
  from handle_send_fifo [OF this, of busy_env] show ?thesis
    by (auto simp: Let_def sending_def new_socket_state_def)
qed





section \<open>Receiving\<close>

definition got :: "socket_id \<Rightarrow> event \<Rightarrow> received_packet list" where
  "got i ev = (case ev of EvRecvMsg j m \<Rightarrow> (case m of (ret, buf, t) \<Rightarrow>
     if j = i \<and> ret > 0 then [with_srctime (take (nat ret) buf) t] else []) | _ \<Rightarrow> [])"

definition received :: "socket_id \<Rightarrow> event list \<Rightarrow> received_packet list" where
  "received i l = concat (map (got i) (rev l))"

definition deliver1 :: "chan \<Rightarrow> event \<Rightarrow> received_packet list" where
  "deliver1 tx ev = (case ev of EvDeliver c p \<Rightarrow> if c = tx then [p] else [] | _ \<Rightarrow> [])"

definition delivered :: "chan \<Rightarrow> event list \<Rightarrow> received_packet list" where
  "delivered tx l = concat (map (deliver1 tx) (rev l))"

lemma received_simps [simp]:
  "received i [] = []" "received i (ev # l) = received i l @ got i ev" "received i (l @ l') = received i l' @ received i l"
  by (simp_all add: received_def)

lemma delivered_simps [simp]:
  "delivered tx [] = []" "delivered tx (ev # l) = delivered tx l @ deliver1 tx ev"
  "delivered tx (l @ l') = delivered tx l' @ delivered tx l"
  by (simp_all add: delivered_def)

lemma got_simps [simp]:
  "got i (EvRecvMsg j (ret, buf, t)) = (if j = i \<and> ret > 0 then [with_srctime (take (nat ret) buf) t] else [])"
  "got i (EvGetFlag j opt r) = []" "got i (EvDeliver c p) = []" "got i EvOutOfFuel = []" "got i (EvGetSockState j q) = []"
  by (simp_all add: got_def)

lemma deliver1_simps [simp]:
  "deliver1 tx (EvDeliver c p) = (if c = tx then [p] else [])" "deliver1 tx (EvRecvMsg j m) = []"
  "deliver1 tx (EvGetFlag j opt r) = []" "deliver1 tx EvOutOfFuel = []" "deliver1 tx (EvGetSockState j q) = []"
  by (simp_all add: deliver1_def)

text \<open>The channel a socket's messages are delivered to, if any.\<close>

definition reader :: "bridge \<Rightarrow> socket_id \<Rightarrow> chan option" where
  "reader b i = Option.bind (map_of (sockets b) i) ss_recv_tx"

lemma recv_loop_fifo:
  assumes "reader b i = R"
  shows "\<exists>es. log (snd (run_state (recv_loop E n i) b)) = es @ log b
    \<and> (\<forall>tx. delivered tx es = (if R = Some tx then received i es else []))"
  using assms
proof (induction n arbitrary: b)
  case (Suc n)
  define b1 where "b1 = (if is_group_id i then b
     else b\<lparr> log := EvGetFlag i SRTO_RCVDATA (e_getsockflag E (log b) i SRTO_RCVDATA) # log b \<rparr>)"
  define ready where "ready \<longleftrightarrow> is_group_id i \<or>
     \<not> (fst (e_getsockflag E (log b) i SRTO_RCVDATA) < 0 \<or> snd (e_getsockflag E (log b) i SRTO_RCVDATA) \<le> 0)"
  have gate: "run_state (if is_group_id i then return True
      else do { (ok, rcv_data) \<leftarrow> srt_getsockflag E i SRTO_RCVDATA; return (\<not> (ok < 0 \<or> rcv_data \<le> 0)) }) b = (ready, b1)"
    by (auto simp: ready_def b1_def srt_getsockflag_def case_prod_beta)
  have b1: "\<exists>es. log b1 = es @ log b \<and> (\<forall>tx. delivered tx es = []) \<and> received i es = []" "sockets b1 = sockets b"
    by (auto simp: b1_def)
  show ?case
  proof (cases ready)
    case False
    then show ?thesis using b1 by (auto simp: gate)
  next
    case True
    obtain ret buf t where m: "e_recvmsg2 E (log b1) i = (ret, buf, t)" by (metis surj_pair)
    define b2 where "b2 = b1\<lparr> log := EvRecvMsg i (ret, buf, t) # log b1 \<rparr>"
    have recv: "run_state (srt_recvmsg2 E i) b1 = ((ret, buf, t), b2)"
      by (simp add: srt_recvmsg2_def m b2_def)
    show ?thesis
    proof (cases "ret \<le> 0")
      case le: True
      then show ?thesis using True b1 by (auto simp: gate recv b2_def)
    next
      case gt: False
      let ?p = "with_srctime (take (nat ret) buf) t"
      define b3 where "b3 = b2\<lparr> log := evs (\<lambda>tx. EvDeliver tx ?p) R @ log b2 \<rparr>"
      have b3: "reader b3 i = R" using Suc.prems b1(2) by (simp add: b3_def b2_def reader_def)
      obtain es where es: "log (snd (run_state (recv_loop E n i) b3)) = es @ log b3"
        "\<forall>tx. delivered tx es = (if R = Some tx then received i es else [])"
        using Suc.IH [OF b3] by blast
      obtain e0 where e0: "log b1 = e0 @ log b" "\<forall>tx. delivered tx e0 = []" "received i e0 = []" using b1(1) by blast
      have "run_state (if_some (map_of (sockets b2) i) (\<lambda>s. if_some (ss_recv_tx s) (\<lambda>tx. emit (EvDeliver tx ?p)))) b2
          = ((), b3)"
        using Suc.prems b1(2) by (cases "map_of (sockets b) i") (auto simp: b2_def b3_def reader_def run_if_some)
      then have "run_state (recv_loop E (Suc n) i) b = run_state (recv_loop E n i) b3"
        using True gt by (simp add: gate recv)
      then show ?thesis
        using es e0 gt by (intro exI [of _ "es @ evs (\<lambda>tx. EvDeliver tx ?p) R
              @ [EvRecvMsg i (ret, buf, t)] @ e0"])
          (auto simp: b3_def b2_def split: option.split)
    qed
  qed
qed simp

lemma handle_recv_delivers:
  shows "\<exists>es. log (snd (run_state (handle_recv E i) b)) = es @ log b
    \<and> (\<forall>tx. delivered tx es = (if reader b i = Some tx then received i es else []))
    \<and> (is_group_id i \<and> e_getsockstate E (log b) i \<noteq> SRTS_CONNECTED \<longrightarrow>
         es = [EvGetSockState i (e_getsockstate E (log b) i)])"
proof (cases "is_group_id i")
  case True
  let ?b = "b\<lparr> log := EvGetSockState i (e_getsockstate E (log b) i) # log b \<rparr>"
  obtain es where "log (snd (run_state (recv_loop E (e_fuel E) i) ?b)) = es @ log ?b"
    "\<forall>tx. delivered tx es = (if reader b i = Some tx then received i es else [])"
    using recv_loop_fifo [of ?b i "reader b i" E "e_fuel E"] by (auto simp: reader_def)
  with True show ?thesis
    by (auto simp: handle_recv_def srt_getsockstate_def
        intro: exI [of _ "es @ [EvGetSockState i (e_getsockstate E (log b) i)]"])
next
  case False
  then show ?thesis
    using recv_loop_fifo [OF refl, where b = b and i = i and E = E and n = "e_fuel E"] by (auto simp: handle_recv_def)
qed

text \<open>
  Claim C10. Receiving keeps order and loses nothing. Every message libsrt hands over in one drain is
  delivered to the socket's reader, once, in the order received, with its bytes cut to the length
  libsrt reported and its source time; to no other reader; and to none if the reader is gone. A
  group that libsrt does not report connected is not read at all.
\<close>

theorem handle_recv_fifo:
  assumes "map_of (sockets b) i = Some s"
  shows "\<exists>es. log (snd (run_state (handle_recv E i) b)) = es @ log b
    \<and> (\<forall>tx. delivered tx es = (if ss_recv_tx s = Some tx then received i es else []))
    \<and> (is_group_id i \<and> e_getsockstate E (log b) i \<noteq> SRTS_CONNECTED \<longrightarrow>
         es = [EvGetSockState i (e_getsockstate E (log b) i)])"
  using handle_recv_delivers [of E i b] assms by (simp add: reader_def)

theorem handle_recv_fifo_witness:
  "let b = start\<lparr> sockets := [(7, sending\<lparr> ss_recv_tx := Some 5 \<rparr>)] \<rparr> in
   \<exists>es. log (snd (run_state (handle_recv quiet_env 7) b)) = es @ log b \<and> delivered 5 es = received 7 es"
proof -
  let ?b = "start\<lparr> sockets := [(7, sending\<lparr> ss_recv_tx := Some 5 \<rparr>)] \<rparr>"
  have "map_of (sockets ?b) 7 = Some (sending\<lparr> ss_recv_tx := Some 5 \<rparr>)" by simp
  from handle_recv_fifo [OF this, of quiet_env] show ?thesis
    by (auto simp: Let_def)
qed

section \<open>Accepting, connecting, listening\<close>

lemma run_set_nonblocking [simp]:
  "run_state (set_nonblocking i) b =
     ((), b\<lparr> log := EvSetFlag i SRTO_SNDSYN (OptBool False) # EvSetFlag i SRTO_RCVSYN (OptBool False) # log b \<rparr>)"
  by (simp add: set_nonblocking_def run_set_opts set_bool_opt_def)

lemma run_add_to_epoll [simp]: "run_state (add_to_epoll i fl) b = ((), b\<lparr> log := EvEpollAdd i fl # log b \<rparr>)"
  by (simp add: add_to_epoll_def)

text \<open>
  No accepted connection is left without an owner. A connection libsrt hands over is
  either taken by the listener's channel, and then made non-blocking and watched, or closed on
  the spot; never both, and the socket table is not touched.
\<close>

lemma handle_accept_owned:
  "let a = e_accept E (log b) i; b' = snd (run_state (handle_accept E i) b) in
   sockets b' = sockets b \<and> (\<exists>es. log b' = es @ log b \<and>
     (if a < 0 then es = [EvAccept i a]
      else (\<exists>tx s fl. map_of (sockets b) i = Some s \<and> ss_accept_tx s = Some tx \<and> EvTrySend tx a True \<in> set es
              \<and> EvEpollAdd a fl \<in> set es \<and> {EvSetFlag a SRTO_RCVSYN (OptBool False), EvSetFlag a SRTO_SNDSYN (OptBool False)} \<subseteq> set es
              \<and> closes es = {#})
           \<or> closes es = {#a#} \<and> (\<forall>tx fl. EvTrySend tx a True \<notin> set es \<and> EvEpollAdd a fl \<notin> set es)))"
  by (auto simp: handle_accept_def srt_accept_def srt_close_def Let_def close_of_def bind_eq_Some_conv
      split: option.split)

definition connect_outcome :: "socket_id \<Rightarrow> reply_id \<Rightarrow> bridge \<Rightarrow> bridge \<Rightarrow> event list \<Rightarrow> bool" where
  "connect_outcome i r b b' es \<longleftrightarrow>
     EvReply r (ReplyUnit (Inr ())) \<in> set es \<and> EvGetSockState i SRTS_CONNECTED \<in> set es
   \<or> EvReply r (ReplyUnit (Inr ())) \<notin> set es \<and>
       ((\<exists>err. EvReply r (ReplyUnit (Inl err)) \<in> set es) \<and> sockets b' = sockets b
      \<or> (\<exists>s. map_of (sockets b') i = Some s \<and> ss_connect_reply s = Some r \<and> ss_last_status s = S_Connecting)
      \<or> map_of (sockets b) i = None \<and> EvReplyDropped r \<in> set es)"

lemma status_events_only:
  "ev \<in> set (status_events s st) \<Longrightarrow> ev \<in> range EvDropSendRx \<union> range EvDropRecvTx \<union> range (\<lambda>tx. EvStatus tx st)"
  by (cases "is_terminal_status st"; cases "ss_last_status s = S_Connected \<or> ss_last_status s = S_Connecting";
      cases "ss_status_tx s"; cases "ss_recv_tx s"; cases "ss_send_rx s") (auto simp: status_events_def)

lemma with_status_fields [simp]:
  "ss_last_status (with_status s st) = st" "ss_connect_reply (with_status s st) = ss_connect_reply s"
  by (simp add: with_status_def, simp add: with_status_def)

lemma await_connect_outcome:
  "\<exists>es. log (snd (run_state (await_connect i r) b)) = es @ log b
     \<and> connect_outcome i r b (snd (run_state (await_connect i r) b)) es"
proof (cases "map_of (sockets b) i")
  case None
  then show ?thesis by (simp add: await_connect_def connect_outcome_def)
next
  case (Some s)
  let ?es = "status_events (s\<lparr> ss_connect_reply := Some r \<rparr>) S_Connecting @ evs EvReplyDropped (ss_connect_reply s)"
  have "snd (run_state (await_connect i r) b) = b\<lparr> log := ?es @ log b,
      sockets := AList.update i (with_status (s\<lparr> ss_connect_reply := Some r \<rparr>) S_Connecting) (sockets b) \<rparr>"
    using Some by (simp add: await_connect_def set_connect_reply_def)
  moreover have "EvReply r v \<notin> set ?es" for v
    by (auto dest: status_events_only split: option.splits)
  ultimately show ?thesis
    by (intro exI [of _ ?es]) (simp add: connect_outcome_def update_conv)
qed

lemma connect_outcome_more:
  assumes "\<exists>es. log b2 = es @ log b1 \<and> connect_outcome i r b1 b2 es"
    and "log b1 = es1 @ log b" and "sockets b1 = sockets b" and "EvReply r (ReplyUnit (Inr ())) \<notin> set es1"
  shows "\<exists>es. log b2 = es @ log b \<and> connect_outcome i r b b2 es"
proof -
  obtain es where es: "log b2 = es @ log b1" "connect_outcome i r b1 b2 es" using assms(1) by blast
  have "connect_outcome i r b b2 (es @ es1)"
    using es(2) assms(3,4) unfolding connect_outcome_def by auto
  then show ?thesis using es(1) assms(2) by auto
qed

lemma connect_started_outcome:
  "\<exists>es. log (snd (run_state (connect_started E i r) b)) = es @ log b
     \<and> connect_outcome i r b (snd (run_state (connect_started E i r) b)) es"
proof -
  define raw where "raw = e_getsockstate E (log b) i"
  define b1 where "b1 = b\<lparr> log := EvGetSockState i raw # log b \<rparr>"
  have st: "run_state (srt_getsockstate E i) b = (raw, b1)" by (simp add: srt_getsockstate_def raw_def b1_def)
  consider "raw = SRTS_CONNECTED" | "raw = SRTS_CONNECTING \<or> raw = SRTS_OPENED \<or> raw = SRTS_INIT"
    | "\<not> (raw = SRTS_CONNECTED \<or> raw = SRTS_CONNECTING \<or> raw = SRTS_OPENED \<or> raw = SRTS_INIT)" by blast
  then show ?thesis
  proof cases
    case 1
    then show ?thesis
      by (auto simp: connect_started_def st b1_def run_with_sock send_reply_def connect_outcome_def split: option.split)
  next
    case 2
    let ?b = "b1\<lparr> log := EvEpollAdd i \<lparr> fl_in = True, fl_err = True, fl_connect = True, fl_et = True \<rparr> # log b1 \<rparr>"
    have "run_state (connect_started E i r) b = run_state (await_connect i r) ?b"
      using 2 by (auto simp: connect_started_def st)
    then show ?thesis
      using connect_outcome_more [OF await_connect_outcome [of i r ?b], of
          "[EvEpollAdd i \<lparr> fl_in = True, fl_err = True, fl_connect = True, fl_et = True \<rparr>, EvGetSockState i raw]" b]
      by (simp add: b1_def)
  next
    case 3
    then show ?thesis
      by (auto simp: connect_started_def st b1_def send_reply_def last_srt_error_def connect_outcome_def)
  qed
qed

lemma status_no_reply: "EvReply q v \<notin> set (status_events s st)"
proof -
  have "EvReply q v \<notin> set (evs (\<lambda>tx. EvStatus tx st) x)" "EvReply q v \<notin> set (evs EvDropSendRx x)"
    "EvReply q v \<notin> set (evs EvDropRecvTx x)" for x
    by (cases x, simp_all)+
  then show ?thesis
    unfolding status_events_def
    by (simp only: set_append Un_iff list.set empty_iff if_True if_False simp_thms split: if_split)
qed

lemma connect_completed_truthful:
  "let b' = snd (run_state (connect_completed E i) b) in
   case Option.bind (map_of (sockets b) i) ss_connect_reply of
     None \<Rightarrow> log b' = log b \<and> map_of (sockets b') = map_of (sockets b)
   | Some q \<Rightarrow> \<exists>es s'. log b' = es @ log b \<and> map_of (sockets b') i = Some s' \<and> ss_connect_reply s' = None
       \<and> (if e_getsockstate E (log b) i = SRTS_CONNECTED
          then EvReply q (ReplyUnit (Inr ())) \<in> set es \<and> ss_last_status s' = S_Connected
          else (\<exists>err. EvReply q (ReplyUnit (Inl err)) \<in> set es) \<and> EvReply q (ReplyUnit (Inr ())) \<notin> set es
            \<and> ss_last_status s' = S_Broken \<and> ss_recv_tx s' = None)"
proof (cases "map_of (sockets b) i")
  case None
  then show ?thesis by (simp add: connect_completed_def run_with_sock)
next
  case (Some s)
  show ?thesis
  proof (cases "ss_connect_reply s")
    case None
    with Some show ?thesis by (simp add: connect_completed_def run_with_sock update_conv' fun_upd_idem)
  next
    case (Some q)
    with \<open>map_of (sockets b) i = Some s\<close> show ?thesis
      by (simp add: connect_completed_def run_with_sock update_conv' prim_defs with_status_def status_no_reply Let_def)
  qed
qed

text \<open>
  Claim C15. Connects are reported truthfully. A connect command is answered with success only after
  libsrt said the socket is connected. Otherwise it is answered with an error, leaving the socket
  table as it was, or kept pending on the entry, whose status becomes Connecting; only for a socket
  the thread does not track is the caller's reply dropped unanswered. When epoll then reports the
  connect finished, a pending reply is answered at once and no longer pending: with success and status Connected
  exactly when libsrt says the socket is connected, else with an error and status Broken, the reader's
  channel given up.
\<close>

theorem connect_truthful:
  "(let b' = snd (run_state (connect E i a r) b) in \<exists>es. log b' = es @ log b \<and> connect_outcome i r b b' es)
   \<and> (let b' = snd (run_state (connect_completed E i) b) in
      case Option.bind (map_of (sockets b) i) ss_connect_reply of
        None \<Rightarrow> log b' = log b \<and> map_of (sockets b') = map_of (sockets b)
      | Some q \<Rightarrow> \<exists>es s'. log b' = es @ log b \<and> map_of (sockets b') i = Some s' \<and> ss_connect_reply s' = None
          \<and> (if e_getsockstate E (log b) i = SRTS_CONNECTED
             then EvReply q (ReplyUnit (Inr ())) \<in> set es \<and> ss_last_status s' = S_Connected
             else (\<exists>err. EvReply q (ReplyUnit (Inl err)) \<in> set es) \<and> EvReply q (ReplyUnit (Inr ())) \<notin> set es
               \<and> ss_last_status s' = S_Broken \<and> ss_recv_tx s' = None))"
proof (rule conjI [OF _ connect_completed_truthful])
  define sa where "sa = socket_addr_to_sockaddr (e_little_endian E) a"
  define ret where "ret = e_connect E (log b) i sa"
  define b1 where "b1 = b\<lparr> log := EvConnect i sa ret # log b \<rparr>"
  define c where "c = e_getlasterror E (log b1)"
  define b2 where "b2 = b1\<lparr> log := EvLastError c # log b1 \<rparr>"
  have run: "run_state (connect E i a r) b =
      (if ret < 0 then
         if from_code c \<noteq> Err_AsyncFail then ((), b2\<lparr> log := EvReply r (ReplyUnit (Inl (from_code c))) # log b2 \<rparr>)
         else run_state (connect_started E i r) b2
       else run_state (connect_started E i r) b1)"
    by (simp add: connect_def Let_def last_srt_error_def send_reply_def sa_def ret_def b1_def c_def b2_def)
  show "let b' = snd (run_state (connect E i a r) b) in \<exists>es. log b' = es @ log b \<and> connect_outcome i r b b' es"
    unfolding run Let_def
    using connect_outcome_more [OF connect_started_outcome [of E i r b1], of "[EvConnect i sa ret]" b]
      connect_outcome_more [OF connect_started_outcome [of E i r b2], of "[EvLastError c, EvConnect i sa ret]" b]
    by (simp add: b1_def b2_def connect_outcome_def)
qed

text \<open>
  Claim C7. A listener with an access-control policy fails closed. Whatever libsrt answers, the
  socket starts to listen only after the policy's hook was installed, and the caller is told of
  success only then; when the hook cannot be installed or the listen fails, the caller gets an
  error, the socket is closed in libsrt and its entry is gone.
\<close>

theorem listen_fails_closed:
  assumes "map_of (sockets b) i = Some s" and "ss_access_control s = Some slot"
  shows "let b' = snd (run_state (listen E i n r) b); h = e_listen_callback E (log b) i slot in
    \<exists>es. log b' = es @ [EvListenCallback i slot h] @ log b
      \<and> ((\<exists>ret. 0 \<le> ret \<and> EvListen i n ret \<in> set es) \<and> 0 \<le> h \<and> EvReply r (ReplyUnit (Inr ())) \<in> set es
           \<and> EvClose i \<notin> set es
         \<or> (\<exists>err. EvReply r (ReplyUnit (Inl err)) \<in> set es) \<and> EvReply r (ReplyUnit (Inr ())) \<notin> set es
           \<and> (h < 0 \<longrightarrow> (\<forall>ret. EvListen i n ret \<notin> set es))
           \<and> EvClose i \<in> set es \<and> map_of (sockets b') i = None)"
proof -
  have drop: "EvReply r v \<notin> set (drop_events s)" "EvListen i n ret \<notin> set (drop_events s)" for v ret
    by (auto simp: drop_events_def split: option.splits)
  define h where "h = e_listen_callback E (log b) i slot"
  define b1 where "b1 = b\<lparr> log := EvListenCallback i slot h # log b \<rparr>"
  have reg: "run_state (register_listen_callback E i) b =
      (if h < 0 then (Inl (from_code (e_getlasterror E (log b1))), b1\<lparr> log := EvLastError (e_getlasterror E (log b1)) # log b1 \<rparr>)
       else (Inr (), b1))"
    using assms by (simp add: register_listen_callback_def last_srt_error_def h_def b1_def)
  have s1: "map_of (sockets b1) i = Some s" using assms(1) by (simp add: b1_def)
  show ?thesis
  proof (cases "h < 0")
    case True
    then show ?thesis
      using s1 drop unfolding Let_def h_def [symmetric]
      by (simp add: listen_def reg release_def run_if_some send_reply_def b1_def delete_conv)
  next
    case False
    define q where "q = e_listen E (log b1) i n"
    show ?thesis
    proof (cases "q < 0")
      case True
      then show ?thesis
        using False s1 drop unfolding Let_def h_def [symmetric]
        by (simp add: listen_def reg release_def run_if_some send_reply_def last_srt_error_def delete_conv q_def [symmetric])
           (simp add: b1_def)
    next
      case q: False
      have "EvClose i \<notin> set (status_events s' st)" for s' st
        by (auto dest: status_events_only)
      then show ?thesis
        using False q s1 unfolding Let_def h_def [symmetric]
        by (simp add: listen_def reg run_with_sock send_reply_def q_def [symmetric])
           (auto simp: b1_def intro!: exI [of _ q])
    qed
  qed
qed

theorem listen_fails_closed_witness:
  "let s = (new_socket_state True False False)\<lparr> ss_access_control := Some 5 \<rparr>;
       b = start\<lparr> sockets := [(7, s)] \<rparr>; b' = snd (run_state (listen quiet_env 7 4 3) b) in
   map_of (sockets b) 7 = Some s \<and> ss_access_control s = Some 5 \<and> map_of (sockets b') 7 = None"
proof -
  let ?s = "(new_socket_state True False False)\<lparr> ss_access_control := Some 5 \<rparr>"
  let ?b = "start\<lparr> sockets := [(7, ?s)] \<rparr>"
  have h: "map_of (sockets ?b) 7 = Some ?s" "ss_access_control ?s = Some 5" by simp_all
  have "\<not> 0 \<le> e_listen_callback quiet_env (log ?b) 7 5" by (simp add: quiet_env_def)
  then have "map_of (sockets (snd (run_state (listen quiet_env 7 4 3) ?b))) 7 = None"
    using listen_fails_closed [OF h, of quiet_env 4 3] by (auto simp: Let_def)
  with h show ?thesis by (simp add: Let_def)
qed



text \<open>
  Claim C26. An error reported on a group is believed only if the group's own status agrees: while
  libsrt still reports the group in a live state, an error event changes nothing; otherwise, and
  for any other socket, the entry becomes Broken, its reader's channel is given up, and so is its
  writer's if it had been connecting or connected.
\<close>

theorem group_error_checked:
  assumes "map_of (sockets b) i = Some s"
  shows "let b' = snd (run_state (epoll_error E i) b);
             live = (ss_is_group s \<and> \<not> is_terminal_status (raw_state_to_status (e_getsockstate E (log b) i))) in
    \<exists>s'. map_of (sockets b') = (map_of (sockets b))(i \<mapsto> s')
      \<and> (if live then s' = s \<and> released (log b') = released (log b)
         else ss_last_status s' = S_Broken \<and> ss_recv_tx s' = None
           \<and> (ss_send_rx s' = None \<longleftrightarrow> ss_send_rx s = None \<or> ss_last_status s \<in> {S_Connected, S_Connecting})
           \<and> released (log b') + holds s' = released (log b) + holds s)"
proof -
  have "ss_recv_tx (with_status s S_Broken) = None"
    "ss_send_rx (with_status s S_Broken) = None \<longleftrightarrow> ss_send_rx s = None \<or> ss_last_status s \<in> {S_Connected, S_Connecting}"
    by (auto simp: with_status_def)
  then show ?thesis
    using assms released_status_events [of s S_Broken]
    by (simp add: epoll_error_def run_with_sock group_err_is_real_def srt_getsockstate_def Let_def update_conv'
        releases_def [of "EvGetSockState _ _"])
       (auto simp: ac_simps intro!: exI [of _ "with_status s S_Broken"])
qed

theorem group_error_checked_witness:
  "let s = (new_socket_state False True False)\<lparr> ss_last_status := S_Connected \<rparr>;
       E = quiet_env\<lparr> e_getsockstate := (\<lambda>_ _. SRTS_CONNECTED) \<rparr> in
   map_of (sockets (snd (run_state (epoll_error E 9) (start\<lparr> sockets := [(9, s)] \<rparr>)))) 9 = Some s"
proof -
  let ?s = "(new_socket_state False True False)\<lparr> ss_last_status := S_Connected \<rparr>"
  let ?E = "quiet_env\<lparr> e_getsockstate := (\<lambda>_ _. SRTS_CONNECTED) \<rparr>"
  let ?b = "start\<lparr> sockets := [(9, ?s)] \<rparr>"
  have "map_of (sockets ?b) 9 = Some ?s" by simp
  from group_error_checked [OF this, of ?E] show ?thesis
    by (auto simp: Let_def new_socket_state_def raw_state_to_status_def)
qed

section \<open>The Stream ID\<close>

lemma stream_id_opt:
  "(SRTO_STREAMID, v) \<in> set (config_opts c) \<longleftrightarrow>
     stream_id c \<noteq> [] \<and> 0 \<notin> set (stream_id c) \<and> v = OptStr (utf8 (stream_id c))"
  by (auto simp: config_opts_def set_opt_defs Let_def)

lemma utf8_eq_Nil [simp]: "utf8 s = [] \<longleftrightarrow> s = []"
  by (cases s) (simp_all add: utf8_def utf8_char_def)

lemma trim_end_matches_id: "s = [] \<or> last s \<noteq> c \<Longrightarrow> trim_end_matches c s = s"
  by (cases s rule: rev_cases) (simp_all add: trim_end_matches_def)

text \<open>
  Claim C31. The Stream ID arrives as it was configured. If the caller's configuration wrote the
  bytes \<open>bs\<close> as its Stream ID and libsrt reports those bytes for the accepted socket, then what the
  listener's side reads is the configured text.
\<close>

theorem stream_id_delivered:
  assumes "(SRTO_STREAMID, OptStr bs) \<in> set (config_opts c)" and "list_all is_scalar (stream_id c)"
    and "e_getstreamid E (log b) i = (ret, bs)" and "0 \<le> ret"
  shows "fst (run_state (get_stream_id E i) b) = stream_id c"
proof -
  have c: "stream_id c \<noteq> []" "0 \<notin> set (stream_id c)" "bs = utf8 (stream_id c)"
    using assms(1) by (auto simp: stream_id_opt)
  then have "last (stream_id c) \<noteq> 0" by (metis last_in_set)
  with c assms(2-4) show ?thesis
    by (simp add: get_stream_id_def utf8_lossy_inverse trim_end_matches_id)
qed

theorem stream_id_delivered_witness:
  "let c = default_config\<lparr> stream_id := [0x63, 0xE9] \<rparr>;
       E = quiet_env\<lparr> e_getstreamid := (\<lambda>_ _. (0, utf8 [0x63, 0xE9])) \<rparr> in
   fst (run_state (get_stream_id E 7) start) = [0x63, 0xE9]"
  using stream_id_delivered [of "utf8 [0x63, 0xE9]" "default_config\<lparr> stream_id := [0x63, 0xE9] \<rparr>"
      "quiet_env\<lparr> e_getstreamid := (\<lambda>_ _. (0, utf8 [0x63, 0xE9])) \<rparr>" start 7 0]
  by (simp add: stream_id_opt is_scalar_def Let_def)

end
