(* ===== verification/Delivery.thy ===== *)
theory Delivery
  imports Handles Data_Path Io_Loop "HOL-Library.Sublist"
begin

text \<open>
  Data from end to end. This theory composes a connected \<^verbatim>\<open>SrtSocket\<close> with the I/O thread: the Tokio side
  runs \<open>socket_send\<close> and \<open>socket_recv\<close>, the thread runs \<open>handle_send\<close> and \<open>handle_recv\<close> on the socket's
  entry, looks at its state, and may give the connection up or close it, in any order. The two data
  channels are queues: the send channel holds at most \<open>SEND_CHANNEL_CAPACITY\<close> messages, and a sender waits
  while it is full; its content is lost with the thread's end. What is in the receive channel can still
  be read when the thread's end is gone.
\<close>

definition SEND_CHANNEL_CAPACITY :: nat where "SEND_CHANNEL_CAPACITY = 8192"

record conn =
  cn_bridge :: bridge
  cn_client :: client
  cn_out :: "bytes list"
  cn_in :: "received_packet list"

definition out_open :: "srt_socket \<Rightarrow> bridge \<Rightarrow> bool" where
  "out_open S b \<longleftrightarrow> Option.bind (map_of (sockets b) (sk_id S)) ss_send_rx = Some (sk_send_tx S)"

definition in_open :: "srt_socket \<Rightarrow> bridge \<Rightarrow> bool" where
  "in_open S b \<longleftrightarrow> Option.bind (map_of (sockets b) (sk_id S)) ss_recv_tx = Some (sk_recv_rx S)"

text \<open>The environments of the two sides, with the channels answering from the queues.\<close>

definition app_env :: "cenv \<Rightarrow> srt_socket \<Rightarrow> conn \<Rightarrow> cenv" where
  "app_env C S w = C\<lparr> ce_send_data := (\<lambda>_ _ _. out_open S (cn_bridge w)),
     ce_recv := (\<lambda>_ _. case cn_in w of [] \<Rightarrow> None | p # _ \<Rightarrow> Some p) \<rparr>"

definition chan_env :: "env \<Rightarrow> srt_socket \<Rightarrow> conn \<Rightarrow> env" where
  "chan_env E S w = E\<lparr> e_try_recv := (\<lambda>l rx.
     let k = length (taken rx l) - length (taken rx (log (cn_bridge w)))
     in if rx = sk_send_tx S \<and> k < length (cn_out w) then RecvOk (cn_out w ! k) else RecvEmpty) \<rparr>"

text \<open>The operations by which the thread looks at the connection or ends it.\<close>

definition housekeeping :: "env \<Rightarrow> socket_id \<Rightarrow> unit io set" where
  "housekeeping E i = {connect_completed E i, epoll_error E i, poll_one E i,
     do { _ \<leftarrow> process_command E (Close i); return () }}"

inductive conn_step :: "env \<Rightarrow> cenv \<Rightarrow> srt_socket \<Rightarrow> conn \<Rightarrow> conn \<Rightarrow> bool" for E C S where
  app_sends:
  "\<lbrakk> length (cn_out w) < SEND_CHANNEL_CAPACITY \<or> \<not> out_open S (cn_bridge w);
     run_state (socket_send (app_env C S w) S d) (cn_client w) = (r, c') \<rbrakk>
   \<Longrightarrow> conn_step E C S w (w\<lparr> cn_client := c', cn_out := cn_out w @ (case r of Inr _ \<Rightarrow> [d] | Inl _ \<Rightarrow> []) \<rparr>)"
| app_receives:
  "\<lbrakk> cn_in w \<noteq> [] \<or> \<not> in_open S (cn_bridge w); run_state (socket_recv (app_env C S w) S) (cn_client w) = (r, c') \<rbrakk>
   \<Longrightarrow> conn_step E C S w (w\<lparr> cn_client := c', cn_in := tl (cn_in w) \<rparr>)"
| thread_sends:
  "\<lbrakk> b' = snd (run_state (handle_send (chan_env E S w) (sk_id S)) (cn_bridge w)); log b' = es @ log (cn_bridge w) \<rbrakk>
   \<Longrightarrow> conn_step E C S w (w\<lparr> cn_bridge := b', cn_out := drop (length (taken (sk_send_tx S) es)) (cn_out w) \<rparr>)"
| thread_receives:
  "\<lbrakk> b' = snd (run_state (handle_recv E (sk_id S)) (cn_bridge w)); log b' = es @ log (cn_bridge w) \<rbrakk>
   \<Longrightarrow> conn_step E C S w (w\<lparr> cn_bridge := b', cn_in := cn_in w @ delivered (sk_recv_rx S) es \<rparr>)"
| thread_looks:
  "\<lbrakk> m \<in> housekeeping E (sk_id S); b' = snd (run_state m (cn_bridge w)) \<rbrakk>
   \<Longrightarrow> conn_step E C S w (w\<lparr> cn_bridge := b', cn_out := (if out_open S b' then cn_out w else []) \<rparr>)"

section \<open>What the logs tell\<close>

text \<open>What the application sent with success, and what it read, in order.\<close>

definition sent1 :: "chan \<Rightarrow> cl_event \<Rightarrow> bytes list" where
  "sent1 tx ev = (case ev of ClSendData c d ok \<Rightarrow> if c = tx \<and> ok then [d] else [] | _ \<Rightarrow> [])"

definition sent_on :: "chan \<Rightarrow> cl_event list \<Rightarrow> bytes list" where
  "sent_on tx l = concat (map (sent1 tx) (rev l))"

definition read1 :: "chan \<Rightarrow> cl_event \<Rightarrow> received_packet list" where
  "read1 rx ev = (case ev of ClRecvData c (Some p) \<Rightarrow> if c = rx then [p] else [] | _ \<Rightarrow> [])"

definition read_on :: "chan \<Rightarrow> cl_event list \<Rightarrow> received_packet list" where
  "read_on rx l = concat (map (read1 rx) (rev l))"

text \<open>libsrt once refused a message for another reason than a full buffer.\<close>

definition refused :: "socket_id \<Rightarrow> event list \<Rightarrow> bool" where
  "refused i l \<longleftrightarrow> (\<exists>es l'. l = es @ l' \<and> hard_error i l')"

lemma refused_mono: "refused i l \<Longrightarrow> refused i (es @ l)"
  unfolding refused_def by (metis append.assoc)

lemma hard_error_refused: "hard_error i es \<Longrightarrow> refused i (es @ l)"
  unfolding refused_def hard_error_def by (metis append_Cons append_Nil)

lemma run_socket_send:
  "run_state (socket_send C S d) c =
     (let st = ce_status C (c_log c) (sk_status_rx S); l1 = ClStatus (sk_status_rx S) st # c_log c;
          ok = ce_send_data C l1 (sk_send_tx S) d
      in if is_terminal_status st then (Inl Err_ConnectionLost, c\<lparr> c_log := l1 \<rparr>)
         else (if ok then Inr (length d) else Inl Err_ConnectionLost, c\<lparr> c_log := ClSendData (sk_send_tx S) d ok # l1 \<rparr>))"
  by (simp add: socket_send_def socket_status_of_def borrow_def send_bytes_def cl_ask_def Let_def)

lemma run_socket_recv:
  "run_state (socket_recv C S) c =
     (let m = ce_recv C (c_log c) (sk_recv_rx S)
      in (case m of Some p \<Rightarrow> Inr p | None \<Rightarrow> Inl Err_ConnectionLost, c\<lparr> c_log := ClRecvData (sk_recv_rx S) m # c_log c \<rparr>))"
  by (simp add: socket_recv_def recv_packet_def cl_ask_def Let_def)

text \<open>Operations that add nothing to a reading \<open>f\<close> of the log.\<close>

definition heard :: "(event \<Rightarrow> 'a list) \<Rightarrow> 'a list \<Rightarrow> bridge \<Rightarrow> bool" where
  "heard f L b \<longleftrightarrow> concat (map f (rev (log b))) = L"

lemma heard_emit: "f ev = [] \<Longrightarrow> keeps (heard f L) (emit ev)"
  by (rule keepsI) (auto simp: heard_def)

lemma heard_ask: "(\<And>x. f (ev x) = []) \<Longrightarrow> keeps (heard f L) (ask g ev)"
  by (rule keepsI) (auto simp: heard_def)

lemma heard_lookup: "keeps (heard f L) (lookup_sock i)"
  by (rule keepsI) simp

lemma heard_none:
  assumes "\<And>L. keeps (heard f L) m" and "run_state m b = (a, b')" and "log b' = es @ log b"
  shows "concat (map f (rev es)) = []"
  using Prelude.keepsE [OF assms(1) _ assms(2), of "concat (map f (rev (log b)))"] assms(3) by (simp add: heard_def)

lemma heard_drain_backlog:
  assumes "\<And>d ret. f (EvSendMsg i d ret) = []" "\<And>c. f (EvLastError c) = []"
  shows "keeps (heard f L) (drain_backlog E i ds)"
  using assms
  by (induction ds)
     (auto simp: srt_sendmsg2_def last_srt_error_def intro!: keep_bind keep_if keep_return heard_ask)

lemma heard_drain_channel:
  assumes "\<And>d ret. f (EvSendMsg i d ret) = []" "\<And>c. f (EvLastError c) = []" "\<And>rx m. f (EvTryRecv rx m) = []"
    "f EvOutOfFuel = []"
  shows "keeps (heard f L) (drain_channel E n i rx bl)"
proof (induction n)
  case 0
  show ?case using assms by (simp, intro keep_bind keep_return heard_emit) simp
next
  case (Suc n)
  have "keeps (heard f L) (case m of
        RecvOk d \<Rightarrow> do {
          ret \<leftarrow> srt_sendmsg2 E i d;
          if ret < 0 then do {
            err \<leftarrow> last_srt_error E;
            return (if err = Err_AsyncSend then bl @ [d] else bl)
          } else drain_channel E n i rx bl
        }
      | RecvEmpty \<Rightarrow> return bl
      | RecvDisconnected \<Rightarrow> return bl)" for m
    using assms Suc unfolding srt_sendmsg2_def last_srt_error_def
    by (cases m) (auto intro!: keep_bind keep_if keep_return heard_ask)
  then show ?case
    using assms unfolding drain_channel.simps try_recv_def by (intro keep_bind heard_ask)
qed

lemma heard_handle_send:
  assumes "\<And>d ret. f (EvSendMsg i d ret) = []" "\<And>c. f (EvLastError c) = []" "\<And>rx m. f (EvTryRecv rx m) = []"
    "f EvOutOfFuel = []"
  shows "keeps (heard f L) (handle_send E i)"
proof -
  have all: "keeps (heard f L) (send_all E i s)" for s
    unfolding send_all_def
    by (intro keep_bind keep_prod keep_if keep_option keep_return heard_drain_backlog heard_drain_channel assms)
  show ?thesis
    unfolding handle_send_def
  proof (rule keepsI)
    fix b a b'
    assume b: "heard f L b" and r: "run_state (with_sock i (send_all E i)) b = (a, b')"
    show "heard f L b'"
      using r b keepsD [OF all b] by (auto simp: run_with_sock heard_def split: option.splits)
  qed
qed

lemma heard_handle_recv:
  assumes "\<And>j opt r. f (EvGetFlag j opt r) = []" "\<And>m. f (EvRecvMsg i m) = []" "\<And>tx p. f (EvDeliver tx p) = []"
    "f EvOutOfFuel = []" "\<And>j q. f (EvGetSockState j q) = []"
  shows "keeps (heard f L) (handle_recv E i)"
proof -
  have "keeps (heard f L) (recv_loop E n i)" for n
  proof (induction n)
    case 0
    show ?case using assms by (simp, intro heard_emit) simp
  next
    case (Suc n)
    show ?case
      unfolding recv_loop.simps srt_getsockflag_def srt_recvmsg2_def
      by (intro keep_bind keep_prod keep_if keep_if_some keep_return heard_ask heard_emit heard_lookup Suc assms)
  qed
  then show ?thesis
    unfolding handle_recv_def srt_getsockstate_def
    by (intro keep_bind keep_if keep_return heard_ask assms)
qed

text \<open>The channel gives its messages in order.\<close>

lemma chan_env_fields [simp]:
  "e_sendmsg2 (chan_env E S w) = e_sendmsg2 E" "e_getlasterror (chan_env E S w) = e_getlasterror E"
  "e_fuel (chan_env E S w) = e_fuel E"
  by (simp_all add: chan_env_def)

lemma drain_takes:
  assumes "ch = sk_send_tx S" "T = taken ch (log (cn_bridge w))" "q = cn_out w"
    and "taken ch (log b) = T @ take k q" "k \<le> length q"
  shows "\<exists>k' \<le> length q. taken ch (log (snd (run_state (drain_channel (chan_env E S w) n i ch bl) b))) = T @ take k' q"
  using assms(4,5)
proof (induction n arbitrary: b k)
  case 0
  then show ?case by auto
next
  case (Suc n)
  have k: "length (taken ch (log b)) - length T = k" using Suc.prems by simp
  show ?case
  proof (cases "k < length q")
    case True
    have m: "e_try_recv (chan_env E S w) (log b) ch = RecvOk (q ! k)"
      using True k assms(1-3) by (simp add: chan_env_def Let_def)
    have more: "taken ch (log b) @ [q ! k] = T @ take (Suc k) q" "Suc k \<le> length q"
      using True Suc.prems(1) by (simp_all add: take_Suc_conv_app_nth)
    define b1 where "b1 = b\<lparr> log := EvSendMsg i (q ! k) (e_sendmsg2 E (EvTryRecv ch (RecvOk (q ! k)) # log b) i (q ! k))
      # EvTryRecv ch (RecvOk (q ! k)) # log b \<rparr>"
    have "taken ch (log b1) = T @ take (Suc k) q" using more by (simp add: b1_def)
    from Suc.IH [OF this more(2)] more this show ?thesis
      by (auto simp: try_recv_def m srt_sendmsg2_def last_srt_error_def case_prod_beta b1_def)
  next
    case False
    then have "e_try_recv (chan_env E S w) (log b) ch = RecvEmpty"
      using k assms(1-3) by (simp add: chan_env_def Let_def)
    then show ?thesis using Suc.prems by (auto simp: try_recv_def)
  qed
qed

lemma send_all_takes:
  assumes "ss_send_rx s \<in> {None, Some (sk_send_tx S)}" "log b = log (cn_bridge w)"
  shows "\<exists>k \<le> length (cn_out w). taken (sk_send_tx S) (log (snd (run_state (send_all (chan_env E S w) i s) b)))
    = taken (sk_send_tx S) (log (cn_bridge w)) @ take k (cn_out w) \<and> (ss_send_rx s = None \<longrightarrow> k = 0)"
proof -
  let ?T = "taken (sk_send_tx S) (log (cn_bridge w))"
  obtain left go b1 where dr: "run_state (drain_backlog (chan_env E S w) i (ss_send_backlog s)) b = ((left, go), b1)"
    by (metis surj_pair)
  have "heard (took (sk_send_tx S)) ?T b1"
    by (rule Prelude.keepsE [OF heard_drain_backlog _ dr]) (simp_all add: heard_def assms(2) taken_def)
  then have "taken (sk_send_tx S) (log b1) = ?T @ take 0 (cn_out w)" by (simp add: heard_def taken_def)
  note drained = drain_takes [OF refl refl refl this, of E "e_fuel E" i left]
  show ?thesis
  proof (cases "go \<and> ss_send_rx s \<noteq> None")
    case True
    then have "ss_send_rx s = Some (sk_send_tx S)" using assms(1) by auto
    then show ?thesis using drained True by (simp add: send_all_def dr case_prod_beta)
  next
    case False
    then show ?thesis
      using \<open>taken _ (log b1) = _\<close> by (intro exI [of _ 0]) (auto simp: send_all_def dr split: option.splits)
  qed
qed

section \<open>The thread's looks at the connection\<close>

definition silent :: "socket_id \<Rightarrow> chan \<Rightarrow> event list \<Rightarrow> bool" where
  "silent i rx es \<longleftrightarrow> accepted i es = [] \<and> received i es = [] \<and> delivered rx es = []"

lemma silent_simps [simp]:
  "silent i rx []" "silent i rx (es @ es') \<longleftrightarrow> silent i rx es \<and> silent i rx es'"
  "silent i rx (ev # es) \<longleftrightarrow> accept1 i ev = [] \<and> got i ev = [] \<and> deliver1 rx ev = [] \<and> silent i rx es"
  by (auto simp: silent_def)

lemma silent_events [simp]:
  "silent i rx (status_events s st)" "silent i rx (drop_events s)"
  by (auto simp: status_events_def drop_events_def accept1_def got_def deliver1_def split: option.splits)

definition backlog_of :: "srt_socket \<Rightarrow> bridge \<Rightarrow> bytes list" where
  "backlog_of S b = (case map_of (sockets b) (sk_id S) of None \<Rightarrow> [] | Some s \<Rightarrow> ss_send_backlog s)"

text \<open>The entry's ends are those of the handle, or gone.\<close>

definition wired :: "srt_socket \<Rightarrow> bridge \<Rightarrow> bool" where
  "wired S b \<longleftrightarrow> (\<forall>s. map_of (sockets b) (sk_id S) = Some s \<longrightarrow>
     ss_send_rx s \<in> {None, Some (sk_send_tx S)} \<and> ss_recv_tx s \<in> {None, Some (sk_recv_rx S)})"

text \<open>A step of the thread that moves no data: at most it lets go of the channels and the backlog.\<close>

definition lets_go :: "srt_socket \<Rightarrow> bridge \<Rightarrow> bridge \<Rightarrow> bool" where
  "lets_go S b b' \<longleftrightarrow>
     (\<exists>es. log b' = es @ log b \<and> silent (sk_id S) (sk_recv_rx S) es) \<and> (wired S b \<longrightarrow> wired S b')
     \<and> (backlog_of S b' = backlog_of S b \<or> backlog_of S b' = [] \<and> \<not> out_open S b')
     \<and> (out_open S b' \<longrightarrow> out_open S b) \<and> (in_open S b' \<longrightarrow> in_open S b)"

lemma lets_go_with_sock:
  assumes "\<And>s. map_of (sockets b) (sk_id S) = Some s \<Longrightarrow> \<exists>es s' b1. run_state (f s) b = (s', b1) \<and> sockets b1 = sockets b
      \<and> log b1 = es @ log b \<and> silent (sk_id S) (sk_recv_rx S) es \<and> ss_send_backlog s' = ss_send_backlog s
      \<and> ss_send_rx s' \<in> {None, ss_send_rx s} \<and> ss_recv_tx s' \<in> {None, ss_recv_tx s}"
  shows "lets_go S b (snd (run_state (with_sock (sk_id S) f) b))"
proof (cases "map_of (sockets b) (sk_id S)")
  case None
  then show ?thesis by (simp add: run_with_sock lets_go_def)
next
  case (Some s)
  then obtain es s' b1 where "run_state (f s) b = (s', b1)" "sockets b1 = sockets b"
      "log b1 = es @ log b" "silent (sk_id S) (sk_recv_rx S) es" "ss_send_backlog s' = ss_send_backlog s"
      "ss_send_rx s' \<in> {None, ss_send_rx s}" "ss_recv_tx s' \<in> {None, ss_recv_tx s}"
    using assms by blast
  with Some show ?thesis
    by (auto simp: run_with_sock lets_go_def wired_def out_open_def in_open_def backlog_of_def update_conv')
qed

lemma with_status_ends:
  "ss_send_backlog (with_status s st) = ss_send_backlog s"
  "ss_send_rx (with_status s st) \<in> {None, ss_send_rx s}" "ss_recv_tx (with_status s st) \<in> {None, ss_recv_tx s}"
  by (auto simp: with_status_def)

lemma lets_go_log:
  assumes "lets_go S (b\<lparr> log := ev # log b \<rparr>) b'" "silent (sk_id S) (sk_recv_rx S) [ev]"
  shows "lets_go S b b'"
proof -
  let ?b = "b\<lparr> log := ev # log b \<rparr>"
  have same: "wired S ?b = wired S b" "out_open S ?b = out_open S b" "in_open S ?b = in_open S b" "backlog_of S ?b = backlog_of S b"
    by (simp_all add: wired_def out_open_def in_open_def backlog_of_def)
  obtain es where "log b' = es @ log ?b" "silent (sk_id S) (sk_recv_rx S) es" using assms(1) by (auto simp: lets_go_def)
  then have "log b' = (es @ [ev]) @ log b \<and> silent (sk_id S) (sk_recv_rx S) (es @ [ev])" using assms(2) by simp
  with assms(1) show ?thesis unfolding lets_go_def same by blast
qed

lemmas quiet_readings = accept1_def got_def deliver1_def

lemma lets_go_connect_completed: "lets_go S b (snd (run_state (connect_completed E (sk_id S)) b))"
  unfolding connect_completed_def
proof (rule lets_go_with_sock, goal_cases)
  case (1 s)
  show ?case
  proof (cases "ss_connect_reply s")
    case (Some reply)
    let ?s = "s\<lparr> ss_connect_reply := None \<rparr>"
    show ?thesis
      using Some with_status_ends [of ?s S_Connected] with_status_ends [of ?s S_Broken]
      by (auto simp: srt_getsockstate_def last_srt_error_def send_reply_def Let_def quiet_readings)
  qed simp
qed

lemma lets_go_epoll_error: "lets_go S b (snd (run_state (epoll_error E (sk_id S)) b))"
  unfolding epoll_error_def group_err_is_real_def
proof (rule lets_go_with_sock, goal_cases)
  case (1 s)
  show ?case
    using with_status_ends [of s S_Broken]
    by (auto simp: srt_getsockstate_def quiet_readings)
qed

lemma lets_go_poll_one: "lets_go S b (snd (run_state (poll_one E (sk_id S)) b))"
proof -
  let ?st = "raw_state_to_status (e_getsockstate E (log b) (sk_id S))"
  let ?b = "b\<lparr> log := EvGetSockState (sk_id S) (e_getsockstate E (log b) (sk_id S)) # log b \<rparr>"
  have "lets_go S ?b (snd (run_state (with_sock (sk_id S) (\<lambda>s.
       if ss_is_group s \<and> ss_last_status s = S_Init then return s
       else if ?st \<noteq> ss_last_status s then do {
         s \<leftarrow> update_status s ?st;
         if ?st = S_Broken \<or> ?st = S_Closed then
           (case ss_connect_reply s of
              None \<Rightarrow> return s
            | Some reply \<Rightarrow> do {
                err \<leftarrow> last_srt_error E;
                _ \<leftarrow> send_reply reply (ReplyUnit (Inl err));
                return (s\<lparr> ss_connect_reply := None \<rparr>)
              })
         else return s
       } else return s)) ?b))"
  proof (rule lets_go_with_sock, goal_cases)
    case (1 s)
    show ?case
      using with_status_ends [of s ?st]
      by (cases "ss_connect_reply (with_status s ?st)") (auto simp: last_srt_error_def send_reply_def quiet_readings)
  qed
  then have "lets_go S ?b (snd (run_state (poll_one E (sk_id S)) b))"
    by (simp add: poll_one_def srt_getsockstate_def Let_def)
  then show ?thesis by (rule lets_go_log) (simp add: quiet_readings)
qed

lemma lets_go_close: "lets_go S b (snd (run_state (process_command E (Close (sk_id S))) b))"
proof -
  let ?b' = "snd (run_state (process_command E (Close (sk_id S))) b)"
  have "sockets ?b' = AList.delete (sk_id S) (sockets b)"
    by (simp add: process_command_def run_if_some split: option.split)
  moreover have "\<exists>es. log ?b' = es @ log b \<and> silent (sk_id S) (sk_recv_rx S) es"
    by (auto simp: process_command_def run_if_some quiet_readings split: option.split)
  ultimately show ?thesis
    by (auto simp: lets_go_def wired_def out_open_def in_open_def backlog_of_def delete_conv)
qed

lemma housekeeping_lets_go: "m \<in> housekeeping E (sk_id S) \<Longrightarrow> lets_go S b (snd (run_state m b))"
  using lets_go_connect_completed lets_go_epoll_error lets_go_poll_one lets_go_close
  by (auto simp: housekeeping_def case_prod_beta)

section \<open>The two directions\<close>

definition pending_out :: "srt_socket \<Rightarrow> conn \<Rightarrow> bytes list" where
  "pending_out S w = accepted (sk_id S) (log (cn_bridge w)) @ backlog_of S (cn_bridge w) @ cn_out w"

definition outbound :: "srt_socket \<Rightarrow> conn \<Rightarrow> bool" where
  "outbound S w \<longleftrightarrow>
     subseq (pending_out S w) (sent_on (sk_send_tx S) (c_log (cn_client w)))
     \<and> (out_open S (cn_bridge w) \<and> \<not> refused (sk_id S) (log (cn_bridge w))
          \<longrightarrow> pending_out S w = sent_on (sk_send_tx S) (c_log (cn_client w)))
     \<and> (\<not> out_open S (cn_bridge w) \<longrightarrow> cn_out w = []) \<and> length (cn_out w) \<le> SEND_CHANNEL_CAPACITY"

definition inbound :: "srt_socket \<Rightarrow> conn \<Rightarrow> bool" where
  "inbound S w \<longleftrightarrow>
     read_on (sk_recv_rx S) (c_log (cn_client w)) @ cn_in w = delivered (sk_recv_rx S) (log (cn_bridge w))
     \<and> prefix (delivered (sk_recv_rx S) (log (cn_bridge w))) (received (sk_id S) (log (cn_bridge w)))
     \<and> (in_open S (cn_bridge w) \<longrightarrow>
          delivered (sk_recv_rx S) (log (cn_bridge w)) = received (sk_id S) (log (cn_bridge w)))"

lemma log_readings [simp]:
  "sent_on tx (ev # l) = sent_on tx l @ sent1 tx ev" "read_on rx (ev # l) = read_on rx l @ read1 rx ev"
  "sent1 tx (ClStatus ch st) = []" "read1 rx (ClStatus ch st) = []"
  "sent1 tx (ClSendData ch d ok) = (if ch = tx \<and> ok then [d] else [])" "read1 rx (ClSendData ch d ok) = []"
  "sent1 tx (ClRecvData ch m) = []" "read1 rx (ClRecvData ch (Some q)) = (if ch = rx then [q] else [])"
  "read1 rx (ClRecvData ch None) = []"
  by (simp_all add: sent_on_def read_on_def sent1_def read1_def)

text \<open>A drain of the send channel, on the entry it finds.\<close>

lemma handle_send_effect:
  assumes wired: "wired S (cn_bridge w)" and b': "b' = snd (run_state (handle_send (chan_env E S w) (sk_id S)) (cn_bridge w))"
    and es: "log b' = es @ log (cn_bridge w)"
  shows "wired S b' \<and> out_open S b' = out_open S (cn_bridge w) \<and> in_open S b' = in_open S (cn_bridge w)
    \<and> taken (sk_send_tx S) es = take (length (taken (sk_send_tx S) es)) (cn_out w)
    \<and> (\<exists>lost. backlog_of S (cn_bridge w) @ taken (sk_send_tx S) es = accepted (sk_id S) es @ lost @ backlog_of S b'
         \<and> (lost \<noteq> [] \<longrightarrow> hard_error (sk_id S) es))"
proof (cases "map_of (sockets (cn_bridge w)) (sk_id S)")
  case None
  then have "b' = cn_bridge w" "es = []" using b' es by (simp_all add: handle_send_def run_with_sock)
  then show ?thesis using None wired by (simp add: backlog_of_def)
next
  case (Some s)
  have rx: "ss_send_rx s \<in> {None, Some (sk_send_tx S)}" using wired Some by (simp add: wired_def)
  obtain s' b1 where run: "run_state (send_all (chan_env E S w) (sk_id S) s) (cn_bridge w) = (s', b1)" by force
  obtain k where k: "k \<le> length (cn_out w)" "ss_send_rx s = None \<longrightarrow> k = 0"
    "taken (sk_send_tx S) (log b1) = taken (sk_send_tx S) (log (cn_bridge w)) @ take k (cn_out w)"
    using send_all_takes [OF rx refl, where E = E and i = "sk_id S" and w = w] run by auto
  have bb: "b' = b1\<lparr> sockets := AList.update (sk_id S) s' (sockets b1) \<rparr>"
    using Some b' by (simp add: handle_send_def run_with_sock run)
  then have log1: "log b1 = es @ log (cn_bridge w)" using es by simp
  then have t: "taken (sk_send_tx S) es = take k (cn_out w)" using k(3) by simp
  have entry: "map_of (sockets b') (sk_id S) = Some s'" using bb by (simp add: update_conv)
  obtain lost where s': "s' = s\<lparr> ss_send_backlog := ss_send_backlog s' \<rparr>"
    "ss_send_backlog s @ (case ss_send_rx s of None \<Rightarrow> [] | Some rx \<Rightarrow> taken rx es)
      = accepted (sk_id S) es @ lost @ ss_send_backlog s'" "lost \<noteq> [] \<longrightarrow> hard_error (sk_id S) es"
    using send_all_fifo [OF run] log1 by (auto simp: fifo_step_def)
  have fields: "ss_send_rx s' = ss_send_rx s" "ss_recv_tx s' = ss_recv_tx s" by (subst s'(1), simp)+
  have "(case ss_send_rx s of None \<Rightarrow> [] | Some rx \<Rightarrow> taken rx es) = taken (sk_send_tx S) es"
    using rx t k(2) by (auto split: option.splits)
  then show ?thesis
    using s'(2,3) entry Some fields t k(1) wired
    by (auto simp: wired_def out_open_def in_open_def backlog_of_def min_def)
qed

lemma outbound_thread_sends:
  assumes "outbound S w" "wired S (cn_bridge w)"
    and "b' = snd (run_state (handle_send (chan_env E S w) (sk_id S)) (cn_bridge w))" "log b' = es @ log (cn_bridge w)"
  shows "outbound S (w\<lparr> cn_bridge := b', cn_out := drop (length (taken (sk_send_tx S) es)) (cn_out w) \<rparr>)"
proof -
  let ?w = "w\<lparr> cn_bridge := b', cn_out := drop (length (taken (sk_send_tx S) es)) (cn_out w) \<rparr>"
  obtain lost where e: "out_open S b' = out_open S (cn_bridge w)"
    "taken (sk_send_tx S) es = take (length (taken (sk_send_tx S) es)) (cn_out w)"
    "backlog_of S (cn_bridge w) @ taken (sk_send_tx S) es = accepted (sk_id S) es @ lost @ backlog_of S b'"
    "lost \<noteq> [] \<longrightarrow> hard_error (sk_id S) es"
    using handle_send_effect [OF assms(2,3,4)] by blast
  have split: "pending_out S w = accepted (sk_id S) (log (cn_bridge w)) @ accepted (sk_id S) es @ lost @ backlog_of S b' @ cn_out ?w"
    using e(2,3) append_take_drop_id [of "length (taken (sk_send_tx S) es)" "cn_out w"]
    unfolding pending_out_def by (metis (no_types, lifting) append.assoc conn.select_convs(3) conn.surjective conn.update_convs(1,3))
  have "subseq (pending_out S ?w) (pending_out S w)"
    unfolding split using assms(4) by (simp add: pending_out_def list_emb_append2 list_emb_append_mono)
  moreover have "pending_out S ?w = pending_out S w" if "\<not> refused (sk_id S) (log b')"
    using that e(4) hard_error_refused [of "sk_id S" es "log (cn_bridge w)"] assms(4) unfolding split by (auto simp: pending_out_def)
  moreover have "refused (sk_id S) (log b')" if "refused (sk_id S) (log (cn_bridge w))"
    using refused_mono [OF that] assms(4) by simp
  ultimately show ?thesis
    using assms(1) e(1) unfolding outbound_def by (auto intro: subseq_order.trans)
qed

text \<open>What the other direction, and a look at the connection, leave as it is.\<close>

lemma handle_send_in:
  assumes "b' = snd (run_state (handle_send E i) b)" "log b' = es @ log b"
  shows "received i es = []" "delivered rx es = []"
proof -
  obtain a where r: "run_state (handle_send E i) b = (a, b')" using assms(1) by (metis prod.collapse)
  show "received i es = []" unfolding received_def by (rule heard_none [OF heard_handle_send r assms(2)]) (simp_all add: got_def)
  show "delivered rx es = []" unfolding delivered_def by (rule heard_none [OF heard_handle_send r assms(2)]) (simp_all add: deliver1_def)
qed

lemma handle_recv_out:
  assumes "b' = snd (run_state (handle_recv E i) b)" "log b' = es @ log b"
  shows "accepted j es = []" "sockets b' = sockets b"
proof -
  obtain a where r: "run_state (handle_recv E i) b = (a, b')" using assms(1) by (metis prod.collapse)
  show "accepted j es = []" unfolding accepted_def by (rule heard_none [OF heard_handle_recv r assms(2)]) (simp_all add: accept1_def)
  show "sockets b' = sockets b" using callsD(1) [OF calls_handle_recv] assms(1) by simp
qed

lemma same_sockets:
  "sockets b' = sockets b \<Longrightarrow> wired S b' = wired S b \<and> out_open S b' = out_open S b \<and> in_open S b' = in_open S b
     \<and> backlog_of S b' = backlog_of S b"
  by (simp add: wired_def out_open_def in_open_def backlog_of_def)

lemma handle_recv_effect:
  assumes "b' = snd (run_state (handle_recv E (sk_id S)) b)" "log b' = es @ log b"
  shows "delivered (sk_recv_rx S) es = (if in_open S b then received (sk_id S) es else [])"
proof -
  obtain es' where "log b' = es' @ log b"
    "\<forall>tx. delivered tx es' = (if reader b (sk_id S) = Some tx then received (sk_id S) es' else [])"
    using handle_recv_delivers [of E "sk_id S" b] assms(1) by blast
  then show ?thesis using assms(2) by (auto simp: in_open_def reader_def)
qed

section \<open>End to end\<close>

lemma transfer_lets_go:
  assumes "lets_go S (cn_bridge w) b'" and W: "wired S (cn_bridge w)" and O: "outbound S w" and I: "inbound S w"
  shows "wired S b' \<and> outbound S (w\<lparr> cn_bridge := b', cn_out := (if out_open S b' then cn_out w else []) \<rparr>)
    \<and> inbound S (w\<lparr> cn_bridge := b', cn_out := (if out_open S b' then cn_out w else []) \<rparr>)"
    (is "_ \<and> outbound S ?w \<and> _")
proof -
  from assms(1) obtain es where es: "log b' = es @ log (cn_bridge w)" "silent (sk_id S) (sk_recv_rx S) es"
    and go: "wired S (cn_bridge w) \<longrightarrow> wired S b'"
      "backlog_of S b' = backlog_of S (cn_bridge w) \<or> backlog_of S b' = [] \<and> \<not> out_open S b'"
      "out_open S b' \<longrightarrow> out_open S (cn_bridge w)" "in_open S b' \<longrightarrow> in_open S (cn_bridge w)"
    by (auto simp: lets_go_def)
  have acc: "accepted (sk_id S) (log b') = accepted (sk_id S) (log (cn_bridge w))"
    "received (sk_id S) (log b') = received (sk_id S) (log (cn_bridge w))"
    "delivered (sk_recv_rx S) (log b') = delivered (sk_recv_rx S) (log (cn_bridge w))"
    using es by (simp_all add: silent_def)
  have ref: "refused (sk_id S) (log (cn_bridge w)) \<Longrightarrow> refused (sk_id S) (log b')"
    using refused_mono es(1) by simp
  have "outbound S ?w"
  proof (cases "out_open S b'")
    case True
    then have "pending_out S ?w = pending_out S w" using go(2) acc by (simp add: pending_out_def)
    then show ?thesis using O True go(3) ref by (auto simp: outbound_def)
  next
    case False
    have "subseq (pending_out S ?w) (pending_out S w)"
      using False go(2) acc(1) by (auto simp: pending_out_def intro: list_emb_append_mono)
    with False O show ?thesis by (auto simp: outbound_def intro: subseq_order.trans)
  qed
  moreover have "inbound S ?w" using I acc go(4) by (simp add: inbound_def)
  ultimately show ?thesis using W go(1) by simp
qed

lemma transfer_step:
  assumes "conn_step E C S w w'" "wired S (cn_bridge w)" "outbound S w" "inbound S w"
  shows "wired S (cn_bridge w') \<and> outbound S w' \<and> inbound S w'"
  using assms
proof (induction rule: conn_step.induct)
  case (app_sends w d r c')
  have "subseq (pending_out S w @ [d]) (sent_on (sk_send_tx S) (c_log (cn_client w)) @ [d])"
    using app_sends(4) by (simp add: outbound_def)
  with app_sends show ?case
    by (auto simp: run_socket_send Let_def app_env_def outbound_def inbound_def pending_out_def split: if_splits)
next
  case (app_receives w r c')
  then show ?case
    by (auto simp: run_socket_recv Let_def app_env_def outbound_def inbound_def pending_out_def split: list.splits)
next
  case (thread_sends b' w es)
  have "wired S b'" "in_open S b' = in_open S (cn_bridge w)"
    using handle_send_effect [OF thread_sends(3,1,2)] by auto
  then show ?case
    using outbound_thread_sends [OF thread_sends(4,3,1,2)] handle_send_in [OF thread_sends(1,2)] thread_sends(2,5)
    by (simp add: inbound_def)
next
  case (thread_receives b' w es)
  note same = same_sockets [OF handle_recv_out(2) [OF thread_receives(1,2)], of S]
  have "inbound S (w\<lparr> cn_bridge := b', cn_in := cn_in w @ delivered (sk_recv_rx S) es \<rparr>)"
    using handle_recv_effect [OF thread_receives(1,2)] thread_receives(2,5) same
    by (auto simp: inbound_def intro: prefix_prefix)
  then show ?case
    using same thread_receives(2-4) handle_recv_out(1) [OF thread_receives(1,2)] refused_mono [of "sk_id S" "log (cn_bridge w)" es]
    by (auto simp: outbound_def pending_out_def)
next
  case (thread_looks m b' w)
  then have "lets_go S (cn_bridge w) b'" using housekeeping_lets_go by blast
  then show ?case using transfer_lets_go [of S w b'] thread_looks(3-5) by simp
qed

text \<open>A freshly connected socket.\<close>

definition fresh_conn :: "srt_socket \<Rightarrow> conn \<Rightarrow> bool" where
  "fresh_conn S w \<longleftrightarrow> out_open S (cn_bridge w) \<and> in_open S (cn_bridge w) \<and> backlog_of S (cn_bridge w) = []
     \<and> cn_out w = [] \<and> cn_in w = [] \<and> silent (sk_id S) (sk_recv_rx S) (log (cn_bridge w))
     \<and> sent_on (sk_send_tx S) (c_log (cn_client w)) = [] \<and> read_on (sk_recv_rx S) (c_log (cn_client w)) = []"

lemma fresh_conn_ok: "fresh_conn S w \<Longrightarrow> wired S (cn_bridge w) \<and> outbound S w \<and> inbound S w"
  by (auto simp: fresh_conn_def wired_def out_open_def in_open_def outbound_def inbound_def pending_out_def silent_def
      SEND_CHANNEL_CAPACITY_def)

lemma transfer_ok:
  assumes "fresh_conn S w0" "(conn_step E C S)\<^sup>*\<^sup>* w0 w"
  shows "outbound S w \<and> inbound S w"
proof -
  have "wired S (cn_bridge w) \<and> outbound S w \<and> inbound S w"
    using assms(2)
  proof (induction rule: rtranclp_induct)
    case base
    show ?case by (rule fresh_conn_ok [OF assms(1)])
  next
    case (step w w')
    then show ?case using transfer_step by blast
  qed
  then show ?thesis by blast
qed

text \<open>
  Claim C5. Data from end to end, in every interleaving of the application with the I/O thread. What libsrt
  has accepted, then the backlog, then the send channel, is a subsequence of the messages the
  application sent with success: none is duplicated, altered or overtaken. It is all of them as long as
  the thread holds its end of the channel and libsrt has refused none for another reason than a full
  buffer. In the other direction, what the application has read, then what waits in its channel, is a
  prefix of the messages libsrt handed over, and all of them while the thread holds its end. The
  send channel never holds more than its capacity.
\<close>

theorem transfer_in_order:
  assumes "fresh_conn S w0" and "(conn_step E C S)\<^sup>*\<^sup>* w0 w"
  shows "let l = log (cn_bridge w); sent = sent_on (sk_send_tx S) (c_log (cn_client w));
      out = accepted (sk_id S) l @ backlog_of S (cn_bridge w) @ cn_out w;
      got = read_on (sk_recv_rx S) (c_log (cn_client w)) @ cn_in w in
    subseq out sent \<and> (out_open S (cn_bridge w) \<and> \<not> refused (sk_id S) l \<longrightarrow> out = sent)
    \<and> prefix got (received (sk_id S) l) \<and> (in_open S (cn_bridge w) \<longrightarrow> got = received (sk_id S) l)
    \<and> length (cn_out w) \<le> SEND_CHANNEL_CAPACITY"
  using transfer_ok [OF assms] by (simp add: outbound_def inbound_def pending_out_def Let_def)

definition sample_socket :: srt_socket where
  "sample_socket = \<lparr> sk_id = 7, sk_send_tx = 4, sk_recv_rx = 5, sk_status_rx = 6, sk_local_addr = unspecified_v4,
     sk_peer_addr = None, sk_stream_id = [] \<rparr>"

definition sample_conn :: conn where
  "sample_conn = \<lparr> cn_bridge = start\<lparr> sockets := [(7, sending\<lparr> ss_recv_tx := Some 5 \<rparr>)] \<rparr>,
     cn_client = \<lparr> c_log = [], c_fresh = 0 \<rparr>, cn_out = [], cn_in = [] \<rparr>"

theorem transfer_in_order_witness:
  "\<forall>C. \<exists>w. fresh_conn sample_socket sample_conn
     \<and> (conn_step quiet_env (C\<lparr> ce_status := (\<lambda>_ _. S_Connected) \<rparr>) sample_socket)\<^sup>*\<^sup>* sample_conn w
     \<and> cn_out w = [[1]] \<and> sent_on 4 (c_log (cn_client w)) = [[1]] \<and> out_open sample_socket (cn_bridge w)"
proof
  fix C :: cenv
  let ?C = "C\<lparr> ce_status := (\<lambda>_ _. S_Connected) \<rparr>"
  have f: "fresh_conn sample_socket sample_conn"
    by (simp add: fresh_conn_def sample_socket_def sample_conn_def out_open_def in_open_def backlog_of_def start_def
        sending_def new_socket_state_def sent_on_def read_on_def)
  let ?r = "run_state (socket_send (app_env ?C sample_socket sample_conn) sample_socket [1]) (cn_client sample_conn)"
  let ?w = "sample_conn\<lparr> cn_client := snd ?r, cn_out := cn_out sample_conn @ (case fst ?r of Inr _ \<Rightarrow> [[1]] | Inl _ \<Rightarrow> []) \<rparr>"
  have "conn_step quiet_env ?C sample_socket sample_conn ?w"
    by (rule conn_step.app_sends) (simp_all add: sample_conn_def SEND_CHANNEL_CAPACITY_def)
  then have r: "(conn_step quiet_env ?C sample_socket)\<^sup>*\<^sup>* sample_conn ?w" by blast
  have o: "out_open sample_socket (cn_bridge sample_conn)" using f by (simp add: fresh_conn_def)
  then have out: "cn_out ?w = [[1]]" "out_open sample_socket (cn_bridge ?w)" "\<not> refused 7 (log (cn_bridge ?w))"
    by (simp_all add: run_socket_send app_env_def sample_conn_def is_terminal_status_def refused_def hard_error_def start_def)
  moreover have "accepted 7 (log (cn_bridge ?w)) = []" "backlog_of sample_socket (cn_bridge ?w) = []"
    using f by (simp_all add: sample_conn_def start_def fresh_conn_def)
  ultimately have "sent_on 4 (c_log (cn_client ?w)) = [[1]]"
    using transfer_in_order [OF f r] by (simp add: Let_def sample_socket_def)
  with f r out show "\<exists>w. fresh_conn sample_socket sample_conn \<and> (conn_step quiet_env ?C sample_socket)\<^sup>*\<^sup>* sample_conn w
     \<and> cn_out w = [[1]] \<and> sent_on 4 (c_log (cn_client w)) = [[1]] \<and> out_open sample_socket (cn_bridge w)"
    by blast
qed

end
