(* ===== verification/Startup.thy ===== *)
theory Startup
  imports Sockets Utf8
begin

text \<open>
  Starting up: \<^verbatim>\<open>ensure_initialized\<close> of \<^verbatim>\<open>libsrt-sys/src/lib.rs\<close> and \<^verbatim>\<open>io_handle\<close> of
  \<^verbatim>\<open>srt-transport/src/epoll_bridge.rs\<close>, each a \<^verbatim>\<open>OnceLock\<close> filled on first use. A \<^verbatim>\<open>OnceLock\<close> whose
  initializer panics stays empty, and a caller that panics may be caught, so a later call tries again.
  The process is the two cells and the calls made, newest first. What the C library and the operating
  system answer is given to each call.
\<close>

text \<open>The name of the backend, which applications read at run time.\<close>

definition BACKEND_NAME :: rstr where
  "BACKEND_NAME = lit ''libsrt''"

text \<open>\<^verbatim>\<open>stranded_member_repairs\<close>: the members the thread has replaced or closed so far.\<close>

definition stranded_member_repairs :: "u64 io" where
  "stranded_member_repairs = gets stranded_repairs"

datatype start_event = SrtStartup i32 | SrtCleanup | SpawnThread bool

record process =
  srt_init :: bool
  io_cell :: bool
  starts :: "start_event list"

record start_answers =
  sa_startup :: i32
  sa_spawn :: bool

text \<open>\<^verbatim>\<open>SrtStartup::new\<close> and its \<^verbatim>\<open>drop\<close>. Rust never drops a static, so the cleanup is not reached.\<close>

definition srt_startup_new :: "start_answers \<Rightarrow> process \<Rightarrow> unit rust \<times> process" where
  "srt_startup_new a p =
     (if sa_startup a = 0 then Done () else Panic, p\<lparr> starts := SrtStartup (sa_startup a) # starts p \<rparr>)"

definition srt_startup_drop :: "process \<Rightarrow> process" where
  "srt_startup_drop p = p\<lparr> starts := SrtCleanup # starts p \<rparr>"

definition ensure_initialized :: "start_answers \<Rightarrow> process \<Rightarrow> unit rust \<times> process" where
  "ensure_initialized a p =
     (if srt_init p then (Done (), p)
      else (case srt_startup_new a p of
              (Panic, p') \<Rightarrow> (Panic, p')
            | (Done _, p') \<Rightarrow> (Done (), p'\<lparr> srt_init := True \<rparr>)))"

text \<open>The handle is the same for every caller; the result tells whether one was returned.\<close>

definition io_handle :: "start_answers \<Rightarrow> process \<Rightarrow> unit rust \<times> process" where
  "io_handle a p =
     (if io_cell p then (Done (), p)
      else (case ensure_initialized a p of
              (Panic, p') \<Rightarrow> (Panic, p')
            | (Done _, p') \<Rightarrow>
                (let p'' = p'\<lparr> starts := SpawnThread (sa_spawn a) # starts p' \<rparr>
                 in if sa_spawn a then (Done (), p''\<lparr> io_cell := True \<rparr>) else (Panic, p''))))"

text \<open>The last error, as a code and as a message; a null pointer is \<open>None\<close>, the bytes end before the NUL.\<close>

definition last_error_code :: "i32 \<Rightarrow> i32" where
  "last_error_code srt_getlasterror = srt_getlasterror"

definition last_error_message :: "u8 list option \<Rightarrow> rstr" where
  "last_error_message srt_getlasterror_str =
     (case srt_getlasterror_str of None \<Rightarrow> lit ''unknown error'' | Some bs \<Rightarrow> utf8_lossy bs)"

section \<open>Once per process\<close>

datatype start_call = Ensure start_answers | Handle start_answers

definition start_call :: "start_call \<Rightarrow> process \<Rightarrow> unit rust \<times> process" where
  "start_call c p = (case c of Ensure a \<Rightarrow> ensure_initialized a p | Handle a \<Rightarrow> io_handle a p)"

definition unstarted :: process where
  "unstarted = \<lparr> srt_init = False, io_cell = False, starts = [] \<rparr>"

text \<open>No thread before the library is up.\<close>

primrec orderly :: "start_event list \<Rightarrow> bool" where
  "orderly [] = True"
| "orderly (e # l) = (orderly l \<and> (case e of SpawnThread _ \<Rightarrow> SrtStartup 0 \<in> set l | _ \<Rightarrow> True))"

definition started :: "process \<Rightarrow> bool" where
  "started p \<longleftrightarrow>
     length (filter (\<lambda>e. e = SrtStartup 0) (starts p)) = (if srt_init p then 1 else 0)
     \<and> length (filter (\<lambda>e. e = SpawnThread True) (starts p)) = (if io_cell p then 1 else 0)
     \<and> SrtCleanup \<notin> set (starts p)
     \<and> (io_cell p \<longrightarrow> srt_init p)
     \<and> orderly (starts p)"

lemma started_up: "started p \<Longrightarrow> srt_init p \<Longrightarrow> SrtStartup 0 \<in> set (starts p)"
  by (cases "filter (\<lambda>e. e = SrtStartup 0) (starts p)") (auto simp: started_def filter_eq_Cons_iff)

lemma started_ensure:
  assumes "started p" "ensure_initialized a p = (r, p')"
  shows "started p' \<and> (r = Done () \<longrightarrow> srt_init p')"
  using assms by (auto simp: ensure_initialized_def srt_startup_new_def started_def split: if_splits)

lemma started_call:
  assumes "started p" "start_call c p = (r, p')"
  shows "started p' \<and> (r = Done () \<longrightarrow> srt_init p')"
proof (cases c)
  case (Ensure a)
  with assms show ?thesis using started_ensure by (simp add: start_call_def)
next
  case (Handle a)
  show ?thesis
  proof (cases "io_cell p")
    case True
    with assms Handle show ?thesis by (auto simp: start_call_def io_handle_def started_def)
  next
    case False
    obtain r1 p1 where e: "ensure_initialized a p = (r1, p1)" by force
    have p1: "started p1" "r1 = Done () \<Longrightarrow> srt_init p1" "io_cell p1 = io_cell p"
      using started_ensure [OF assms(1) e] e
      by (auto simp: ensure_initialized_def srt_startup_new_def split: if_splits)
    show ?thesis
      using assms(2) Handle False e p1 started_up [OF p1(1)]
      by (auto simp: start_call_def io_handle_def started_def Let_def split: rust.splits if_splits)
  qed
qed

text \<open>
  However often and from wherever the crate is entered, with whatever panics on the way, libsrt is started
  successfully at most once and never cleaned up, the I/O thread is spawned at most once, and only
  after libsrt is up; and an entry that returns finds libsrt up.
\<close>

lemma starts_once:
  "started (fold (\<lambda>c p. snd (start_call c p)) cs unstarted)"
proof (induction cs rule: rev_induct)
  case Nil
  show ?case by (simp add: started_def unstarted_def)
next
  case (snoc c cs)
  then show ?case using started_call [OF snoc prod.collapse [symmetric], of c] by simp
qed

end
