(* ===== verification/Build_Script.thy ===== *)
theory Build_Script
  imports Config
begin

text \<open>
  The build script \<^verbatim>\<open>libsrt-sys/build.rs\<close>: which libsrt is linked and which inputs Cargo watches. The
  directives printed are values of \<open>directive\<close>, in order; a panic ends the script and keeps what was
  printed. Environment, file system, pkg-config, CMake and bindgen are the record \<open>build_env\<close>.
\<close>

datatype directive =
  Rerun_if_changed rstr
| Rerun_if_env_changed rstr
| Link_search rstr
| Link_lib rstr

record library =
  lib_include_paths :: "rstr list"
  lib_link_paths :: "rstr list"

text \<open>pkg-config prints directives of its own.\<close>

record build_env =
  be_var :: "rstr \<Rightarrow> rstr option"
  be_system_libsrt :: bool
  be_exists :: "rstr \<Rightarrow> bool"
  be_probe :: "rstr \<Rightarrow> rstr option \<Rightarrow> directive list \<times> library option"
  be_cmake :: "rstr \<Rightarrow> (rstr \<times> rstr) list \<Rightarrow> rstr rust"
  be_bindgen :: "rstr \<Rightarrow> unit rust"
  be_write :: "rstr \<Rightarrow> unit rust"

type_synonym 'a script = "directive list \<times> 'a rust"

definition say :: "directive list \<Rightarrow> unit script" where
  "say ds = (ds, Done ())"

definition script_bind :: "'a script \<Rightarrow> ('a \<Rightarrow> 'b script) \<Rightarrow> 'b script" where
  "script_bind m f =
     (case m of (out, Panic) \<Rightarrow> (out, Panic) | (out, Done x) \<Rightarrow> (case f x of (out', r) \<Rightarrow> (out @ out', r)))"

definition from_option :: "'a option \<Rightarrow> 'a script" where
  "from_option x = ([], case x of None \<Rightarrow> Panic | Some y \<Rightarrow> Done y)"

text \<open>\<^verbatim>\<open>Path::join\<close> with a relative path.\<close>

definition path_join :: "rstr \<Rightarrow> rstr \<Rightarrow> rstr" where
  "path_join p q = (if p = [] \<or> last p = 47 then p @ q else p @ [47] @ q)"

section \<open>The script\<close>

definition link_crypto_deps :: "build_env \<Rightarrow> unit script" where
  "link_crypto_deps B =
     (case be_probe B (lit ''openssl'') None of
        (out, found) \<Rightarrow>
          (out @ (case found of
             Some l \<Rightarrow> map Link_search (lib_link_paths l)
           | None \<Rightarrow> [Link_lib (lit ''ssl''), Link_lib (lit ''crypto'')])
           @ (let target_os = (case be_var B (lit ''CARGO_CFG_TARGET_OS'') of None \<Rightarrow> [] | Some s \<Rightarrow> s) in
              if target_os = lit ''linux'' then [Link_lib (lit ''pthread''), Link_lib (lit ''stdc++'')]
              else if target_os = lit ''macos'' then [Link_lib (lit ''c++'')]
              else []),
           Done ()))"

definition vendored_defines :: "rstr \<Rightarrow> (rstr \<times> rstr) list" where
  "vendored_defines out_dir =
     [(lit ''ENABLE_SHARED'', lit ''OFF''), (lit ''ENABLE_APPS'', lit ''OFF''), (lit ''ENABLE_TESTING'', lit ''OFF''),
      (lit ''ENABLE_BONDING'', lit ''ON''), (lit ''ENABLE_ENCRYPTION'', lit ''ON''),
      (lit ''ENABLE_AEAD_API_PREVIEW'', lit ''ON''), (lit ''USE_ENCLIB'', lit ''openssl-evp''),
      (lit ''CMAKE_INSTALL_PREFIX'', out_dir)]"

definition build_vendored :: "build_env \<Rightarrow> rstr \<Rightarrow> rstr script" where
  "build_vendored B out_dir =
     (if \<not> be_exists B (lit ''vendor/srt'') then ([], Panic)
      else script_bind (say
        [Rerun_if_changed (lit ''vendor/srt/CMakeLists.txt''), Rerun_if_changed (lit ''vendor/srt/srtcore''),
         Rerun_if_changed (lit ''vendor/srt/haicrypt''), Rerun_if_changed (lit ''vendor/srt/common''),
         Rerun_if_changed (lit ''vendor/srt/scripts'')]) (\<lambda>_.
      script_bind ([], be_cmake B (lit ''vendor/srt'') (vendored_defines out_dir)) (\<lambda>dst.
        let lib_dir = (if be_exists B (path_join dst (lit ''lib'')) then path_join dst (lit ''lib'')
                       else path_join dst (lit ''lib64'')) in
        script_bind (say [Link_search lib_dir, Link_lib (lit ''static=srt'')]) (\<lambda>_.
        script_bind (link_crypto_deps B) (\<lambda>_.
        ([], Done (path_join dst (lit ''include''))))))))"

text \<open>The result is the include path bindgen is given.\<close>

definition build_main :: "build_env \<Rightarrow> rstr script" where
  "build_main B =
     script_bind (from_option (be_var B (lit ''OUT_DIR''))) (\<lambda>out_dir.
     script_bind (say [Rerun_if_changed (lit ''wrapper.h''), Rerun_if_env_changed (lit ''LIBSRT_DIR'')]) (\<lambda>_.
     script_bind
       (case be_var B (lit ''LIBSRT_DIR'') of
          Some libsrt_dir \<Rightarrow>
            script_bind (say [Link_search (path_join libsrt_dir (lit ''lib'')), Link_lib (lit ''static=srt'')]) (\<lambda>_.
            script_bind (link_crypto_deps B) (\<lambda>_.
            ([], Done (path_join libsrt_dir (lit ''include'')))))
        | None \<Rightarrow>
            if be_system_libsrt B then
              (case be_probe B (lit ''srt'') (Some (lit ''1.5.2'')) of
                 (out, found) \<Rightarrow>
                   script_bind (out, Done ()) (\<lambda>_.
                   script_bind (from_option found) (\<lambda>l.
                   from_option (case lib_include_paths l of [] \<Rightarrow> None | p # _ \<Rightarrow> Some p))))
            else build_vendored B out_dir)
       (\<lambda>include_path.
     script_bind ([], be_bindgen B include_path) (\<lambda>_.
     script_bind ([], be_write B (path_join out_dir (lit ''bindings.rs''))) (\<lambda>_.
     ([], Done include_path))))))"

section \<open>What Cargo is told\<close>

lemma script_done:
  "snd (script_bind m f) = Done y \<longleftrightarrow> (\<exists>x. snd m = Done x \<and> snd (f x) = Done y)"
  by (auto simp: script_bind_def split: prod.split rust.split)

lemma script_out:
  "fst (script_bind m f) = fst m @ (case snd m of Panic \<Rightarrow> [] | Done x \<Rightarrow> fst (f x))"
  by (auto simp: script_bind_def split: prod.split rust.split)

text \<open>
  What Cargo watches. Whichever libsrt is used, \<^verbatim>\<open>wrapper.h\<close> and \<^verbatim>\<open>LIBSRT_DIR\<close> are
  watched (also when the script then fails); a script that succeeds with the vendored libsrt watches
  the compiled surface of the submodule as well, and links what it built statically.
\<close>

lemma build_watches_inputs:
  assumes "be_var B (lit ''OUT_DIR'') = Some out_dir"
  shows "{Rerun_if_changed (lit ''wrapper.h''), Rerun_if_env_changed (lit ''LIBSRT_DIR'')} \<subseteq> set (fst (build_main B))"
    and "be_var B (lit ''LIBSRT_DIR'') = None \<Longrightarrow> \<not> be_system_libsrt B \<Longrightarrow> snd (build_main B) = Done inc \<Longrightarrow>
      be_exists B (lit ''vendor/srt'')
      \<and> Link_lib (lit ''static=srt'') \<in> set (fst (build_main B))
      \<and> Rerun_if_changed (lit ''vendor/srt/srtcore'') \<in> set (fst (build_main B))
      \<and> (\<exists>dst. be_cmake B (lit ''vendor/srt'') (vendored_defines out_dir) = Done dst \<and> inc = path_join dst (lit ''include''))"
  using assms
  by (auto simp: build_main_def build_vendored_def script_out script_done from_option_def say_def Let_def
      simp del: lit_Cons split: rust.splits if_splits)

lemma no_vendored_source:
  assumes "be_var B (lit ''LIBSRT_DIR'') = None" "\<not> be_system_libsrt B" "\<not> be_exists B (lit ''vendor/srt'')"
  shows "snd (build_main B) = Panic"
  using assms
  by (auto simp: build_main_def build_vendored_def script_bind_def from_option_def say_def simp del: lit_Cons split: option.split)

end
