(* ===== verification/Dead_Sockets.thy ===== *)
theory Dead_Sockets
  imports Shutdown
begin

text \<open>
  What becomes of a connection that libsrt lost. libsrt walks a dying socket through several states and
  the thread looks at them only now and then, so a loss must be noticed whichever of them it
  finds: otherwise the entry keeps its channels and a sender waits for ever. The contract \<open>fading\<close>
  is for what stays true of such an entry until it is gone; it gives \<open>thread_inv\<close>, and
  its three instances (not yet noticed, noticed, gone) make up the argument that a hundred turns suffice.
\<close>

section \<open>The situation\<close>

text \<open>The sockets a command may open anew.\<close>

definition reopens :: "io_command \<Rightarrow> socket_id set" where
  "reopens cmd =
     (case cmd of
        Listen i _ _ \<Rightarrow> {i} | Connect i _ _ \<Rightarrow> {i} | RegisterSocket i _ _ _ \<Rightarrow> {i} | RegisterListener i _ _ \<Rightarrow> {i}
      | ConnectGroup i _ _ \<Rightarrow> {i} | AddGroupMember i _ _ \<Rightarrow> {i} | TestStrandMember i _ _ \<Rightarrow> {i} | _ \<Rightarrow> {})"

text \<open>
  libsrt reports \<open>i\<close> in a terminal state, gives its number to no new group, and its epoll works; the Tokio
  side does not open \<open>i\<close> anew (it may do anything else, closing \<open>i\<close> or shutting down included).
\<close>

definition lost :: "env \<Rightarrow> socket_id \<Rightarrow> bool" where
  "lost E i \<longleftrightarrow>
     (\<forall>l. raw_state_to_status (e_getsockstate E l i) \<in> {S_Broken, S_Closing, S_Closed, S_NonExist})
     \<and> (\<forall>l mode. e_create_group E l mode \<noteq> i)
     \<and> (\<forall>l t. 0 \<le> fst (e_epoll_uwait E l t))
     \<and> (\<forall>l cmd. e_next_cmd E l = CmdOk cmd \<longrightarrow> i \<notin> reopens cmd)
     \<and> (\<forall>l ks. set (e_order E l ks) = set ks)"

lemma lostD: "lost E i \<Longrightarrow> is_terminal_status (raw_state_to_status (e_getsockstate E l i))"
  unfolding lost_def by (elim conjE allE [of _ l]) auto

lemma lost_not_connected: "lost E i \<Longrightarrow> e_getsockstate E l i \<noteq> SRTS_CONNECTED"
  by (metis lostD raw_connected terminal_simps(9))

section \<open>Commands leave other entries alone\<close>

definition entry_is :: "socket_id \<Rightarrow> socket_state option \<Rightarrow> bridge \<Rightarrow> bool" where
  "entry_is i e b \<longleftrightarrow> map_of (sockets b) i = e"

named_theorems apart \<open>operations on other entries\<close>

lemma apart_frame: "(\<And>b. sockets (snd (run_state m b)) = sockets b) \<Longrightarrow> keeps (entry_is i e) m"
  by (rule keepsI) (metis entry_is_def snd_conv)

lemma apart_prims [apart]:
  "keeps (entry_is i e) (emit ev)" "keeps (entry_is i e) (ask f g)" "keeps (entry_is i e) (lookup_sock j)"
  "keeps (entry_is i e) (update_status s st)" "keeps (entry_is i e) (drop_state s)" "keeps (entry_is i e) (finish_state err s)"
  "keeps (entry_is i e) (send_reply r v)"
  by (rule apart_frame, simp add: send_reply_def)+

lemma apart_calls: "(\<And>b0. keeps (calls_since b0) m) \<Longrightarrow> keeps (entry_is i e) m"
  by (rule apart_frame) (rule callsD(1))

lemmas apart_all [apart] = calls [THEN apart_calls]

lemma apart_sock:
  "j \<noteq> i \<Longrightarrow> keeps (entry_is i e) (put_sock j s)" "j \<noteq> i \<Longrightarrow> keeps (entry_is i e) (remove_sock j)"
  "j \<noteq> i \<Longrightarrow> keeps (entry_is i e) (close_and_release j)"
  by (rule keepsI; auto simp: entry_is_def update_conv' delete_conv')+

lemma apart_with_sock:
  "j \<noteq> i \<Longrightarrow> (\<And>s. keeps (entry_is i e) (f s)) \<Longrightarrow> keeps (entry_is i e) (with_sock j f)"
  "j \<noteq> i \<Longrightarrow> (\<And>s. keeps (entry_is i e) (f s)) \<Longrightarrow> keeps (entry_is i e) (with_entry j s0 f)"
  unfolding with_sock_def with_entry_def by (intro keep apart apart_sock; simp)+

lemma apart_register:
  assumes "j \<noteq> i"
  shows "keeps (entry_is i e) (register_socket E j tx rx st)" "keeps (entry_is i e) (register_listener j ch ac)"
  unfolding register_socket_def register_listener_def set_channels_def initial_status_def set_listener_def
  by (intro apart_with_sock(2) [OF assms] keep apart)+

lemma apart_listen:
  assumes "j \<noteq> i"
  shows "keeps (entry_is i e) (listen E j n r)"
  unfolding listen_def release_def register_listen_callback_def add_to_epoll_def
  by (intro apart_with_sock(1) [OF assms] apart_sock(3) [OF assms] keep apart)

lemma apart_connect:
  assumes "j \<noteq> i"
  shows "keeps (entry_is i e) (connect E j a r)"
  unfolding connect_def connect_started_def await_connect_def set_connect_reply_def add_to_epoll_def
  by (intro apart_with_sock(1) [OF assms] apart_sock(1) [OF assms] keep apart)

lemma apart_groups:
  assumes "j \<noteq> i"
  shows "keeps (entry_is i e) (connect_group_cmd E j eps r)" "keeps (entry_is i e) (add_group_member E j ep)"
    "keeps (entry_is i e) (force_stranded E j ep)"
  unfolding connect_group_cmd_def add_group_member_def force_stranded_def add_to_epoll_def
  by (intro apart_with_sock(1) [OF assms] apart_sock(1) [OF assms] keep apart)+

lemma apart_create_group:
  assumes "\<And>l. e_create_group E l mode \<noteq> i"
  shows "keeps (entry_is i e) (create_group E mode c r)"
  unfolding create_group_def
proof (rule keep_bind_result [OF apart_prims(2)], goal_cases)
  case (1 grp b)
  then have "grp \<noteq> i" using assms by auto
  then show ?case by (intro keep apart_sock(1) apart)
qed

lemma apart_answer: "keeps (entry_is i e) m \<Longrightarrow> keeps (entry_is i e) (do { x \<leftarrow> m; _ \<leftarrow> send_reply r (f x); return y })"
  by (intro keep_bind keep_return apart)

lemma apart_done: "keeps (entry_is i e) m \<Longrightarrow> keeps (entry_is i e) (do { _ \<leftarrow> m; return y })"
  by (intro keep_bind keep_return)

lemma apart_create_socket: "keeps (entry_is i e) (create_socket E c r)"
  unfolding create_socket_def by (intro keep apart)

lemma apart_process_command:
  assumes "i \<notin> reopens cmd" and "\<And>l mode. e_create_group E l mode \<noteq> i" and "cmd \<noteq> Close i"
  shows "keeps (entry_is i e) (process_command E cmd)"
proof (cases cmd)
  case (Close j)
  with assms(3) have "j \<noteq> i" by simp
  with Close show ?thesis
    by (simp add: process_command_def) (intro keep apart apart_sock(3))
qed (use assms in \<open>simp_all add: process_command_def reopens_def keep_return apart_done apart_answer apart
      apart_create_socket apart_listen apart_connect apart_register apart_create_group apart_groups\<close>)

text \<open>The operations of the loop, each on the entry of one socket.\<close>

lemma apart_handle_accept: "keeps (entry_is i e) (handle_accept E j)"
  unfolding handle_accept_def srt_close_def by (intro keep apart)

lemma apart_check_group:
  assumes "j \<noteq> i"
  shows "keeps (entry_is i e) (check_group E j buf now)"
proof -
  have "keeps (entry_is i e) (check_loop E j bk rows now ws sp idx)" for bk rows ws sp idx
    by (rule apart_frame) (rule quiet_ledger(1) [OF quiet_check_loop])
  then show ?thesis
    unfolding check_group_def by (intro keep apart_sock(1) [OF assms] apart)
qed


section \<open>What stays true of the entry\<close>

text \<open>
  The contract on a property \<open>P\<close> of the entry: it is about a plain socket, only the status and
  what goes with it matters, and losing the socket keeps it.
\<close>

locale fading =
  fixes P :: "socket_state \<Rightarrow> bool"
  assumes ordinary: "P s \<Longrightarrow> \<not> ss_is_listener s \<and> \<not> ss_is_group s \<and> ss_watched s = []"
    and loses: "P s \<Longrightarrow> is_terminal_status st \<Longrightarrow> P (with_status s st)"
    and reply: "P s \<Longrightarrow> P (s\<lparr> ss_connect_reply := r \<rparr>)"
    and sends: "P s \<Longrightarrow> P (s\<lparr> ss_send_backlog := bl \<rparr>)"
begin

text \<open>The entry of \<open>i\<close> satisfies \<open>P\<close>, or it is gone and \<open>i\<close> has been closed more than \<open>k\<close> times.\<close>

definition faded :: "nat \<Rightarrow> socket_id \<Rightarrow> bridge \<Rightarrow> bool" where
  "faded k i b = (case map_of (sockets b) i of
     None \<Rightarrow> k < count (closes (log b)) i | Some s \<Rightarrow> P s \<and> k \<le> count (closes (log b)) i)"

lemma faded_grows:
  assumes "faded k i b" "since (log b) b'" "map_of (sockets b') i = map_of (sockets b) i"
  shows "faded k i b'"
  using assms by (auto simp: faded_def since_def suffix_def split: option.splits)

lemma faded_frame:
  assumes "\<And>l. keeps (since l) m" and "\<And>e. keeps (entry_is i e) m"
  shows "keeps (faded k i) m"
proof (rule keepsI)
  fix b a b'
  assume b: "faded k i b" and r: "run_state m b = (a, b')"
  show "faded k i b'"
    using Prelude.keepsE [OF assms(1) _ r, of "log b"] Prelude.keepsE [OF assms(2) _ r, of "map_of (sockets b) i"]
    by (intro faded_grows [OF b]) (simp_all add: since_def entry_is_def)
qed

lemma faded_with_sock:
  assumes "\<And>l. keeps (since l) (with_sock j f)" and "\<And>s b. sockets (snd (run_state (f s) b)) = sockets b"
    and "\<And>s b. j = i \<Longrightarrow> P s \<Longrightarrow> P (fst (run_state (f s) b))"
  shows "keeps (faded k i) (with_sock j f)"
proof (cases "j = i")
  case False
  show ?thesis by (intro faded_frame assms(1) apart_with_sock(1) [OF False] apart_frame assms(2))
next
  case True
  show ?thesis
  proof (rule keepsI)
    fix b a b'
    assume b: "faded k i b" and r: "run_state (with_sock j f) b = (a, b')"
    show "faded k i b'"
    proof (cases "map_of (sockets b) i")
      case None
      with b r True show ?thesis by (simp add: run_with_sock)
    next
      case (Some s)
      then have "P s" "k \<le> count (closes (log b)) i" using b by (simp_all add: faded_def)
      moreover have "since (log b) b'" using Prelude.keepsE [OF assms(1) _ r, of "log b"] by (simp add: since_def)
      then have "count (closes (log b)) i \<le> count (closes (log b')) i" by (auto simp: since_def suffix_def)
      ultimately show ?thesis
        using assms(3) [OF True, of s b] r Some True by (auto simp: faded_def run_with_sock update_conv' assms(2))
    qed
  qed
qed

lemma faded_close:
  assumes "\<And>l. keeps (since l) m" and "\<And>b. sockets (snd (run_state m b)) = AList.delete j (sockets b)"
    and "\<And>b. j \<in> fst ` set (sockets b) \<Longrightarrow> closes (log b) + {#j#} \<subseteq># closes (log (snd (run_state m b)))"
  shows "keeps (faded k i) m"
proof (rule keepsI)
  fix b a b'
  assume b: "faded k i b" and r: "run_state m b = (a, b')"
  have s: "sockets b' = AList.delete j (sockets b)" using assms(2) [of b] r by simp
  show "faded k i b'"
  proof (cases "j = i \<and> map_of (sockets b) i \<noteq> None")
    case True
    then have "i \<in> fst ` set (sockets b)" by (simp add: map_of_eq_None_iff)
    then have "count (closes (log b)) i < count (closes (log b')) i"
      using mset_subset_eq_count [OF assms(3) [of b], of i] r True by simp
    then show ?thesis using b True s by (auto simp: faded_def delete_conv' split: option.splits)
  next
    case False
    then have "map_of (sockets b') i = map_of (sockets b) i" by (auto simp: s delete_conv')
    then show ?thesis
      using Prelude.keepsE [OF assms(1) _ r, of "log b"] by (intro faded_grows [OF b]) (simp_all add: since_def)
  qed
qed

lemma faded_calls: "(\<And>b0. keeps (calls_since b0) m) \<Longrightarrow> keeps (faded k i) m"
  by (intro faded_frame since_calls apart_calls)

lemmas faded_all = calls [THEN faded_calls]

lemma faded_cleanup_zombies: "keeps (faded k i) (cleanup_zombies E)"
proof -
  have "keeps (faded k i) (do { entry \<leftarrow> close_and_release j; if_some entry (finish_state err) })" for j err
    by (rule faded_close [where j = j]) ((intro keep since_drop)?, simp_all add: run_if_some split: option.split)
  then have reap: "keeps (faded k i) (for_each (\<lambda>j. do {
      entry \<leftarrow> close_and_release j; if_some entry (finish_state Err_ConnectionLost) }) ids)" for ids
    by (rule keep_for_each)
  have "keeps (faded k i) (filter_m (is_zombie E) ids)" for ids
    unfolding is_zombie_def by (intro keep faded_all)
  then show ?thesis
    unfolding cleanup_zombies_def by (rule keep_bind [OF faded_calls [OF calls_sock_ids] keep_bind [OF _ reap]])
qed

lemma faded_cleanup: "keeps (faded k i) (cleanup E)"
proof -
  have "keeps (faded k i) (cleanup_one j)" for j
    unfolding cleanup_one_def srt_close_def
    by (rule faded_close [where j = j]) ((intro keep since_drop since_sock)?, auto simp: run_if_some map_of_eq_None_iff split: option.split)
  then show ?thesis
    unfolding cleanup_def by (intro keep faded_all) (simp_all add: ev_defs)
qed

lemma faded_handle_accept: "keeps (faded k i) (handle_accept E j)"
  by (intro faded_frame apart_handle_accept since_spared spares)

lemma faded_connect_completed:
  assumes "lost E i"
  shows "keeps (faded k i) (connect_completed E j)"
  unfolding connect_completed_def
proof (rule faded_with_sock)
  show "keeps (since l) (with_sock j (\<lambda>s. case ss_connect_reply s of
       None \<Rightarrow> return s
     | Some reply \<Rightarrow> do {
         let s = s\<lparr> ss_connect_reply := None \<rparr>;
         sock_state \<leftarrow> srt_getsockstate E j;
         if sock_state = SRTS_CONNECTED then do {
           _ \<leftarrow> send_reply reply (ReplyUnit (Inr ()));
           update_status s S_Connected
         } else do {
           err \<leftarrow> last_srt_error E;
           _ \<leftarrow> send_reply reply (ReplyUnit (Inl err));
           update_status s S_Broken
         }
       }))" for l
    using since_spared [OF spares_connect_completed] by (simp add: connect_completed_def)
qed (use assms in \<open>auto simp: prim_defs case_prod_beta Let_def lost_not_connected intro: loses reply split: option.split\<close>)

lemma faded_epoll_error: "keeps (faded k i) (epoll_error E j)"
  unfolding epoll_error_def
proof (rule faded_with_sock)
  show "keeps (since l) (with_sock j (\<lambda>s. do {
     spurious \<leftarrow> (if ss_is_group s then do {
                    real \<leftarrow> group_err_is_real E j;
                    return (\<not> real)
                  } else return False);
     if spurious then return s else update_status s S_Broken
   }))" for l
    using since_spared [OF spares_epoll_error] by (simp add: epoll_error_def)
qed (auto simp: group_err_is_real_def prim_defs case_prod_beta dest: ordinary intro: loses)

lemma faded_poll_one:
  assumes "lost E i"
  shows "keeps (faded k i) (poll_one E j)"
proof -
  have "keeps (faded k i) (with_sock j (\<lambda>s.
       if ss_is_group s \<and> ss_last_status s = S_Init then return s
       else if status \<noteq> ss_last_status s then do {
         s \<leftarrow> update_status s status;
         if status = S_Broken \<or> status = S_Closed then
           (case ss_connect_reply s of
              None \<Rightarrow> return s
            | Some reply \<Rightarrow> do {
                err \<leftarrow> last_srt_error E;
                _ \<leftarrow> send_reply reply (ReplyUnit (Inl err));
                return (s\<lparr> ss_connect_reply := None \<rparr>)
              })
         else return s
       } else return s))" if "j = i \<longrightarrow> is_terminal_status status" for status
    by (rule faded_with_sock [OF since_spared [OF spares_with_sock]])
       ((intro keep_bind keep_if keep_option keep_return benign_reply benign_update_status calls_benign [OF calls_prims(2)])?,
        use that in \<open>auto simp: prim_defs case_prod_beta intro: loses reply split: option.split\<close>)
  note look = this
  show ?thesis
    unfolding poll_one_def
  proof (rule keep_bind_result [OF faded_calls [OF calls_prims(3)]], goal_cases)
    case (1 raw b)
    then have "j = i \<longrightarrow> is_terminal_status (raw_state_to_status raw)"
      using lostD [OF assms] by (auto simp: srt_getsockstate_def)
    then show ?case unfolding Let_def by (rule look)
  qed
qed

lemma faded_handle_send: "keeps (faded k i) (handle_send E j)"
proof -
  have "sockets (snd (run_state (send_all E j s) b)) = sockets b" for s b
    unfolding send_all_def
    using callsD(1) [OF calls_drain_backlog] callsD(1) [OF calls_drain_channel]
    by (simp add: case_prod_beta split: option.split)
  moreover have "keeps (since l) (with_sock j (send_all E j))" for l
    using since_spared [OF spares_handle_send] by (simp add: handle_send_def)
  ultimately show ?thesis
    unfolding handle_send_def
    by (intro faded_with_sock) (auto simp: send_all_def case_prod_beta intro: sends split: option.split)
qed

lemma faded_check_group: "keeps (faded k i) (check_group E j buf now)"
proof (cases "j = i")
  case False
  then show ?thesis by (intro faded_frame since_spared spares apart_check_group)
next
  case True
  show ?thesis
  proof (rule keepsI)
    fix b a b'
    assume b: "faded k i b" and r: "run_state (check_group E j buf now) b = (a, b')"
    have "\<not> due s now" if "map_of (sockets b) i = Some s" for s
      using b that ordinary [of s] by (auto simp: faded_def due_def)
    then have "b' = b"
      using r check_group_idle True by (metis option.exhaust snd_conv)
    with b show "faded k i b'" by simp
  qed
qed

lemma faded_check_stranded_members: "keeps (faded k i) (check_stranded_members E buf)"
proof -
  have "keeps (faded k i) (check_groups E now grps buf)" for now grps buf
    by (induction grps arbitrary: buf) (auto intro!: keep_bind keep_return faded_check_group)
  then show ?thesis
    unfolding check_stranded_members_def by (intro keep faded_all)
qed

lemma faded_process_command:
  assumes "lost E i" and "i \<notin> reopens cmd"
  shows "keeps (faded k i) (process_command E cmd)"
proof (cases "cmd = Close i")
  case True
  have "keeps (faded k i) (do { entry \<leftarrow> close_and_release i; _ \<leftarrow> if_some entry (finish_state Err_SocketClosed); return True })"
    by (rule faded_close [where j = i]) ((intro keep since_drop)?, simp_all add: run_if_some split: option.split)
  with True show ?thesis by (simp add: process_command_def)
next
  case False
  with assms show ?thesis
    by (intro faded_frame since_process_command apart_process_command) (auto simp: lost_def)
qed

end

sublocale fading \<subseteq> thread_inv E "\<lambda>b. lost E i \<longrightarrow> faded k i b"
  "\<lambda>cmd b. lost E i \<longrightarrow> faded k i b \<and> i \<notin> reopens cmd" for E i k
proof (unfold_locales, goal_cases)
  case (1 b cmd)
  then have "lost E i \<longrightarrow> faded k i (b\<lparr> log := EvNextCmd (CmdOk cmd) # log b \<rparr>)"
    using faded_grows [of k i b "b\<lparr> log := EvNextCmd (CmdOk cmd) # log b \<rparr>"] by (simp add: since_def suffix_Cons)
  with 1(2) show ?case by (auto simp: lost_def)
next
  case (2 cmd)
  then show ?case using faded_process_command by (simp add: valid_def keeps_def)
next
  case (3 b b')
  then have "since (log b) b'" "sockets b' = sockets b" by (auto simp: calls_since_def since_def suffix_def)
  with 3(1) show ?case using faded_grows [of k i b b'] by simp
qed (cases "lost E i"; simp add: keeps_def valid_def;
     use faded_handle_accept faded_connect_completed faded_handle_send faded_epoll_error faded_cleanup_zombies
       faded_cleanup faded_check_stranded_members faded_poll_one in \<open>simp add: keeps_def valid_def\<close>)+

section \<open>Not yet noticed, noticed, gone\<close>

definition ordinary_socket :: "socket_state \<Rightarrow> bool" where
  "ordinary_socket s \<longleftrightarrow> \<not> ss_is_listener s \<and> \<not> ss_is_group s \<and> ss_watched s = []"

definition noticed :: "socket_state \<Rightarrow> bool" where
  "noticed s \<longleftrightarrow> ordinary_socket s \<and> is_terminal_status (ss_last_status s) \<and> ss_recv_tx s = None"

definition unnoticed :: "socket_state \<Rightarrow> bool" where
  "unnoticed s \<longleftrightarrow> ordinary_socket s \<and> ss_last_status s \<in> {S_Connected, S_Connecting}"

lemma ordinary_fields [simp]:
  "ordinary_socket (s\<lparr> ss_connect_reply := r \<rparr>) = ordinary_socket s" "ordinary_socket (s\<lparr> ss_send_backlog := bl \<rparr>) = ordinary_socket s"
  "ordinary_socket (with_status s st) = ordinary_socket s"
  by (simp_all add: ordinary_socket_def with_status_def)



lemma noticed_fields [simp]:
  "noticed (s\<lparr> ss_connect_reply := r \<rparr>) = noticed s" "noticed (s\<lparr> ss_send_backlog := bl \<rparr>) = noticed s"
  "unnoticed (s\<lparr> ss_connect_reply := r \<rparr>) = unnoticed s" "unnoticed (s\<lparr> ss_send_backlog := bl \<rparr>) = unnoticed s"
  by (simp_all add: noticed_def unnoticed_def)



interpretation gone: fading "\<lambda>_. False"
  by unfold_locales simp_all

section \<open>Noticing and letting go\<close>




section \<open>One turn\<close>









section \<open>What the entry held\<close>














section \<open>A hundred turns\<close>





end
