(* ===== verification/Unit_Tests.thy ===== *)
theory Unit_Tests
  imports Bridge Handles
begin

text \<open>
  The unit tests of \<^verbatim>\<open>srt-transport/src/epoll_bridge.rs\<close> and \<^verbatim>\<open>srt-transport/src/group.rs\<close>, as definitions under
  the names they have there, and the lemmas that they pass on the model. They are a check of the
  model against what the authors expect of the code. The time a test starts at, and in the tests that
  call libsrt what libsrt answers and the state of the bridge, are arguments, so each lemma
  is about every start. A test of several assertions is their conjunction; assertions that check a premise about
  libsrt itself are hypotheses of the lemma instead, and setting up and releasing libsrt's epoll is left out.
\<close>

section \<open>States\<close>

definition every_non_live_state_is_terminal :: bool where
  "every_non_live_state_is_terminal \<longleftrightarrow> list_all is_terminal_status [S_Broken, S_Closing, S_Closed, S_NonExist]"

definition live_and_pre_connection_states_are_not_terminal :: bool where
  "live_and_pre_connection_states_are_not_terminal \<longleftrightarrow>
     list_all (\<lambda>st. \<not> is_terminal_status st) [S_Init, S_Opened, S_Listening, S_Connecting, S_Connected]"

definition unknown_raw_state_maps_to_a_terminal_status :: bool where
  "unknown_raw_state_maps_to_a_terminal_status \<longleftrightarrow>
     (let unknown = raw_state_to_status (SRTS_OTHER 9999) in unknown = S_NonExist \<and> is_terminal_status unknown)"

definition in_flight_is_pending_or_live_on_a_socket_that_is_not_dead :: bool where
  "in_flight_is_pending_or_live_on_a_socket_that_is_not_dead \<longleftrightarrow>
     list_all (\<lambda>m. in_flight m S_Connected \<and> in_flight m S_Connecting \<and> \<not> in_flight m S_Broken \<and> \<not> in_flight m S_NonExist)
       [M_Pending, M_Idle, M_Running]
     \<and> \<not> in_flight M_Broken S_Connected"

definition at_peer_is_any_unbroken_member_on_a_connected_socket :: bool where
  "at_peer_is_any_unbroken_member_on_a_connected_socket \<longleftrightarrow>
     list_all (\<lambda>m. at_peer m S_Connected
         \<and> list_all (\<lambda>live. \<not> at_peer m live) [S_Init, S_Opened, S_Connecting, S_Broken, S_Closed, S_NonExist])
       [M_Pending, M_Idle, M_Running]
     \<and> \<not> at_peer M_Broken S_Connected"

lemma state_tests_pass:
  every_non_live_state_is_terminal live_and_pre_connection_states_are_not_terminal
  unknown_raw_state_maps_to_a_terminal_status in_flight_is_pending_or_live_on_a_socket_that_is_not_dead
  at_peer_is_any_unbroken_member_on_a_connected_socket
  by (simp_all add: every_non_live_state_is_terminal_def live_and_pre_connection_states_are_not_terminal_def
      unknown_raw_state_maps_to_a_terminal_status_def in_flight_is_pending_or_live_on_a_socket_that_is_not_dead_def
      at_peer_is_any_unbroken_member_on_a_connected_socket_def raw_state_to_status_def in_flight_def at_peer_def Let_def)

section \<open>Watched members\<close>

definition classify_cases :: "(socket_status \<times> (member_status \<times> socket_status) option \<times> bool \<times> bool \<times> verdict) list" where
  "classify_cases =
     [(S_Connected, Some (M_Pending, S_Connected), False, False, V_Stranded),
      (S_Connected, Some (M_Pending, S_Connecting), False, False, V_Stranded),
      (S_Connected, Some (M_Running, S_Connecting), False, False, V_Stranded),
      (S_Connected, Some (M_Running, S_Connected), False, False, V_Confirmed),
      (S_Connected, Some (M_Running, S_Connected), False, True, V_Masked),
      (S_Connected, Some (M_Idle, S_Connected), False, False, V_Confirmed),
      (S_Connected, Some (M_Idle, S_Connected), False, True, V_Confirmed),
      (S_Connecting, Some (M_Pending, S_Connecting), False, False, V_Handshaking),
      (S_Opened, Some (M_Pending, S_Connecting), False, False, V_Handshaking),
      (S_Broken, Some (M_Pending, S_Connecting), False, False, V_Handshaking),
      (S_Connected, Some (M_Broken, S_Broken), False, False, V_BrokenLive),
      (S_Broken, Some (M_Broken, S_Broken), False, False, V_Gone),
      (S_NonExist, Some (M_Broken, S_Connected), False, False, V_Gone),
      (S_Connected, None, False, False, V_Gone),
      (S_NonExist, None, False, False, V_Gone),
      (S_Connected, Some (M_Idle, S_Connected), True, False, V_Stranded),
      (S_Connected, Some (M_Running, S_Connected), True, True, V_Stranded),
      (S_Broken, Some (M_Idle, S_Connected), True, False, V_Confirmed)]"

definition classify_watched_matrix :: bool where
  "classify_watched_matrix \<longleftrightarrow>
     list_all (\<lambda>(live, row, forced, backup, want). classify_watched live row forced backup = want) classify_cases"

lemma classify_watched_matrix_passes: classify_watched_matrix
  by (simp add: classify_watched_matrix_def classify_cases_def classify_watched_def)

definition test_member :: "instant \<Rightarrow> watched_member" where
  "test_member now = watched_new 4660 (endpoint_new (V4 [127, 0, 0, 1] 9000) 1) (now + from_secs 4) now"

text \<open>The steps decided in a row of looks at one member.\<close>

primrec next_steps :: "watched_member \<Rightarrow> (verdict \<times> instant) list \<Rightarrow> step list" where
  "next_steps w [] = []"
| "next_steps w (vt # vts) = (let (st, w') = next_step w (fst vt) (snd vt) in st # next_steps w' vts)"

definition a_stranded_member_is_repaired_only_after_the_grace :: "instant \<Rightarrow> bool" where
  "a_stranded_member_is_repaired_only_after_the_grace t0 \<longleftrightarrow>
     next_steps ((test_member t0)\<lparr> wm_live := S_Connected \<rparr>)
       [(V_Stranded, t0), (V_Stranded, t0 + from_millis 499), (V_Stranded, t0 + STRANDED_MEMBER_GRACE)] = [Keep, Keep, Repair]
     \<and> next_steps (test_member t0)
         [(V_Stranded, t0), (V_Handshaking, t0 + from_millis 200), (V_Stranded, t0 + from_millis 300),
          (V_Stranded, t0 + from_millis 799), (V_Stranded, t0 + from_millis 800)] = [Keep, Keep, Keep, Keep, Repair]
     \<and> next_steps (test_member t0) [(V_BrokenLive, t0), (V_BrokenLive, t0 + STRANDED_MEMBER_GRACE)] = [Keep, Repair]"

definition a_member_unresolved_past_its_connect_timeout_is_not_waited_on :: "instant \<Rightarrow> bool" where
  "a_member_unresolved_past_its_connect_timeout_is_not_waited_on t0 \<longleftrightarrow>
     (let w = (test_member t0)\<lparr> wm_live := S_Connecting \<rparr>; deadline = wm_resolve_by w;
          (st1, w1) = next_step w V_Handshaking (deadline - from_millis 1);
          (st2, w2) = next_step w1 V_Handshaking deadline;
          (st3, _) = next_step (w2\<lparr> wm_live := S_Broken \<rparr>) V_Handshaking deadline
      in [st1, st2, st3] = [Keep, Repair, Abandon])"

definition up_members_hold_until_their_predecessors_are_closed :: "instant \<Rightarrow> bool" where
  "up_members_hold_until_their_predecessors_are_closed t0 \<longleftrightarrow>
     next_steps (test_member t0) [(V_Confirmed, t0), (V_Masked, t0), (V_Gone, t0)]
       = [Drop, Recheck (t0 + MASKED_MEMBER_RECHECK), Drop]
     \<and> next_steps ((test_member t0)\<lparr> wm_supersedes := [153] \<rparr>) [(V_Confirmed, t0), (V_Masked, t0), (V_Gone, t0)]
       = [Keep, Keep, Drop]"

lemmas time_defs = test_member_def watched_new_def next_step_def from_millis_def from_secs_def STRANDED_MEMBER_GRACE_def

lemma time_tests_pass:
  "a_stranded_member_is_repaired_only_after_the_grace t0" "a_member_unresolved_past_its_connect_timeout_is_not_waited_on t0"
  "up_members_hold_until_their_predecessors_are_closed t0"
  by (simp_all add: a_stranded_member_is_repaired_only_after_the_grace_def
      a_member_unresolved_past_its_connect_timeout_is_not_waited_on_def
      up_members_hold_until_their_predecessors_are_closed_def time_defs Let_def)

definition repair_plan_joins_a_sibling_and_stops_at_the_cap :: bool where
  "repair_plan_joins_a_sibling_and_stops_at_the_cap \<longleftrightarrow>
     list_all (\<lambda>(up, busy).
         repair_plan 0 (Some (7, False)) up busy = JoinSibling 7
       \<and> repair_plan MAX_STRANDED_REPAIRS (Some (7, False)) up busy = JoinSibling 7
       \<and> repair_plan MAX_STRANDED_REPAIRS None up busy = CloseNow
       \<and> repair_plan MAX_STRANDED_REPAIRS (Some (7, True)) up busy \<noteq> CloseNow)
       [(False, False), (False, True), (True, False), (True, True)]"

definition repair_plan_overlaps_only_when_nothing_else_is_up_or_connecting :: bool where
  "repair_plan_overlaps_only_when_nothing_else_is_up_or_connecting \<longleftrightarrow>
     list_all (\<lambda>n.
         list_all (\<lambda>busy. repair_plan n None True busy = CloseThenSpawn
           \<and> repair_plan n (Some (7, True)) True busy = JoinSibling 7) [False, True]
       \<and> repair_plan n None False True = Wait \<and> repair_plan n (Some (7, True)) False True = Wait
       \<and> repair_plan n None False False = SpawnThenClose
       \<and> repair_plan n (Some (7, True)) False False = HandToSibling 7)
       [0, MAX_STRANDED_REPAIRS - 1]"

definition a_member_listed_broken_is_counted_at_the_peer_or_waited_on :: bool where
  "a_member_listed_broken_is_counted_at_the_peer_or_waited_on \<longleftrightarrow>
     (let plan = (\<lambda>broken up broken_live busy.
            let (at_peer, resolving) = weigh_others broken up broken_live busy in repair_plan 0 None at_peer resolving) in
      plan True False True False = CloseThenSpawn \<and> plan True False False True = Wait \<and> plan True True False False = CloseThenSpawn
      \<and> plan False False True False = Wait \<and> plan True True False False = CloseThenSpawn
      \<and> plan False False False True = Wait \<and> plan False True False False = CloseThenSpawn
      \<and> list_all (\<lambda>up. list_all (\<lambda>busy. weigh_others True up True busy = (True, busy)
          \<and> weigh_others False up True busy = (up, True)) [False, True]) [False, True]
      \<and> list_all (\<lambda>broken. list_all (\<lambda>up. list_all (\<lambda>busy. weigh_others broken up False busy = (up, busy))
          [False, True]) [False, True]) [False, True]
      \<and> plan True False False False = SpawnThenClose \<and> plan False False False False = SpawnThenClose)"

lemma plan_tests_pass:
  repair_plan_joins_a_sibling_and_stops_at_the_cap repair_plan_overlaps_only_when_nothing_else_is_up_or_connecting
  a_member_listed_broken_is_counted_at_the_peer_or_waited_on
  by (simp_all add: repair_plan_joins_a_sibling_and_stops_at_the_cap_def
      repair_plan_overlaps_only_when_nothing_else_is_up_or_connecting_def
      a_member_listed_broken_is_counted_at_the_peer_or_waited_on_def repair_plan_def weigh_others_def
      MAX_STRANDED_REPAIRS_def Let_def)

definition only_a_live_handshake_inside_its_deadline_is_waited_on :: "instant \<Rightarrow> bool" where
  "only_a_live_handshake_inside_its_deadline_is_waited_on t0 \<longleftrightarrow>
     (let at = (\<lambda>live. (test_member t0)\<lparr> wm_live := live \<rparr>); before = t0 + from_secs 1; connecting = at S_Connecting in
      list_all (\<lambda>live. other_member_handshaking [at live] [] before) [S_Init, S_Opened, S_Connecting]
      \<and> list_all (\<lambda>live. \<not> other_member_handshaking [at live] [] before) [S_Connected, S_Broken, S_Closing, S_Closed, S_NonExist]
      \<and> \<not> other_member_handshaking [connecting] [] (wm_resolve_by connecting)
      \<and> \<not> other_member_handshaking [connecting] [wm_id connecting] before
      \<and> \<not> other_member_handshaking [] [] before)"

lemma handshake_test_passes: "only_a_live_handshake_inside_its_deadline_is_waited_on t0"
  by (simp add: only_a_live_handshake_inside_its_deadline_is_waited_on_def other_member_handshaking_def time_defs Let_def)

section \<open>Endpoints\<close>

definition group_endpoint_check_refuses_a_family_mismatch :: bool where
  "group_endpoint_check_refuses_a_family_mismatch \<longleftrightarrow>
     (let v6 = V6 [32, 1, 13, 184, 0, 0, 0, 0, 0, 0, 0, 0, 0, 0, 0, 1] 9000 0 0; ep = endpoint_new v6 0 in
      endpoint_check (ep\<lparr> ep_local_addr := Some (V4 [192, 0, 2, 1] 0) \<rparr>) = Inl Err_InvalidParam
      \<and> endpoint_check (ep\<lparr> ep_local_addr := Some (V6 (replicate 16 0) 0 0 0) \<rparr>) = Inr ())"

definition group_endpoint_check_refuses_weight_above_libsrt_max :: bool where
  "group_endpoint_check_refuses_weight_above_libsrt_max \<longleftrightarrow>
     (let ep = endpoint_new (V4 [127, 0, 0, 1] 9000) 0 in
      endpoint_check (ep\<lparr> ep_weight := MAX_GROUP_MEMBER_WEIGHT \<rparr>) = Inr ()
      \<and> endpoint_check (ep\<lparr> ep_weight := MAX_GROUP_MEMBER_WEIGHT + 1 \<rparr>) = Inl Err_InvalidParam)"

definition group_endpoint_check_refuses_a_negative_token :: bool where
  "group_endpoint_check_refuses_a_negative_token \<longleftrightarrow>
     endpoint_check (endpoint_new (V4 [127, 0, 0, 1] 9000) (- 1)) = Inl Err_InvalidParam"

definition add_endpoint_is_unbound_weight_zero_with_index_tokens :: bool where
  "add_endpoint_is_unbound_weight_zero_with_index_tokens \<longleftrightarrow>
     (let a = V4 [127, 0, 0, 1] 9000; a' = V4 [127, 0, 0, 1] 9001; eps = add_endpoint (add_endpoint [] a) a' in
      eps = [endpoint_new a 0, endpoint_new a' 1] \<and> list_all (\<lambda>ep. ep_local_addr ep = None \<and> ep_weight ep = 0) eps)"

text \<open>The endpoints of the builder are given; its other settings and what the I/O thread would answer do not matter.\<close>

definition builder_refuses_bad_endpoint_before_touching_libsrt :: "cenv \<Rightarrow> group_builder \<Rightarrow> client \<Rightarrow> bool" where
  "builder_refuses_bad_endpoint_before_touching_libsrt C gb c \<longleftrightarrow>
     (let bad = (endpoint_new (V4 [127, 0, 0, 1] 9001) 1)\<lparr> ep_weight := MAX_GROUP_MEMBER_WEIGHT + 1 \<rparr>;
          eps = add_member_endpoint (add_endpoint [] (V4 [127, 0, 0, 1] 9000)) bad in
      run_state (group_connect_all C (gb\<lparr> gb_mode := Backup, gb_endpoints := eps \<rparr>)) c = (Failed Err_InvalidParam, c))"

lemmas endpoint_defs = endpoint_check_def endpoint_new_def is_ipv4_def MAX_GROUP_MEMBER_WEIGHT_def Let_def

lemma endpoint_tests_pass:
  group_endpoint_check_refuses_a_family_mismatch group_endpoint_check_refuses_weight_above_libsrt_max
  group_endpoint_check_refuses_a_negative_token add_endpoint_is_unbound_weight_zero_with_index_tokens
  "builder_refuses_bad_endpoint_before_touching_libsrt C gb c"
  by (simp_all add: group_endpoint_check_refuses_a_family_mismatch_def group_endpoint_check_refuses_weight_above_libsrt_max_def
      group_endpoint_check_refuses_a_negative_token_def add_endpoint_is_unbound_weight_zero_with_index_tokens_def
      builder_refuses_bad_endpoint_before_touching_libsrt_def add_endpoint_def add_member_endpoint_def group_connect_all_def
      endpoint_defs is_i32_def)

section \<open>Members and libsrt\<close>

text \<open>What the bridge relies on of \<^verbatim>\<open>srt_prepare_endpoint\<close>: it copies the two addresses and reports no error.\<close>

definition prepares_endpoints :: "env \<Rightarrow> bool" where
  "prepares_endpoints E \<longleftrightarrow> (\<forall>src dst. let t = e_prepare_endpoint E src dst in
     tg_peeraddr t = dst \<and> tg_errorcode t = 0 \<and> (\<forall>a. src = Some a \<longrightarrow> tg_srcaddr t = a))"

definition prepare_target_carries_source_weight_and_token :: "env \<Rightarrow> bool" where
  "prepare_target_carries_source_weight_and_token E \<longleftrightarrow>
     (let dst = V4 [10, 1, 2, 3] 9000; src = V4 [192, 0, 2, 7] 4100; le = e_little_endian E;
          t = prepare_target E \<lparr> ep_addr = dst, ep_local_addr = Some src, ep_weight = 7, ep_token = 3 \<rparr> in
      sockaddr_storage_to_socket_addr le (tg_peeraddr t) = Some dst
      \<and> sockaddr_storage_to_socket_addr le (tg_srcaddr t) = Some src
      \<and> tg_weight t = 7 \<and> tg_token t = 3 \<and> tg_errorcode t = 0)"

definition add_member_to_an_untracked_group_is_refused :: "env \<Rightarrow> bridge \<Rightarrow> bool" where
  "add_member_to_an_untracked_group_is_refused E b \<longleftrightarrow>
     run_state (add_group_member E 0x40000001 (endpoint_new (V4 [127, 0, 0, 1] 9) 0)) (b\<lparr> sockets := [] \<rparr>)
       = (Inl Err_ConnectionLost, b\<lparr> sockets := [] \<rparr>)"

text \<open>The state after a group was created, and its number.\<close>

definition fresh_group :: "env \<Rightarrow> group_type \<Rightarrow> bridge \<Rightarrow> socket_id \<times> bridge" where
  "fresh_group E mode b =
     (e_create_group E (log b) mode,
      snd (run_state (process_command E (CreateGroup mode (live_defaults default_config) 0)) (b\<lparr> sockets := [] \<rparr>)))"

definition registering_a_fresh_group_keeps_its_channels :: "env \<Rightarrow> bridge \<Rightarrow> bool" where
  "registering_a_fresh_group_keeps_its_channels E b \<longleftrightarrow>
     (let (grp, b) = fresh_group E SRT_GTYPE_BROADCAST b;
          b = snd (run_state (process_command E (RegisterSocket grp 1 2 3)) b) in
      case map_of (sockets b) grp of
        None \<Rightarrow> False
      | Some s \<Rightarrow> ss_recv_tx s \<noteq> None \<and> ss_send_rx s \<noteq> None \<and> ss_last_status s = S_Init)"

text \<open>No member is added: libsrt is not asked to connect anything.\<close>

definition add_member_is_refused_while_no_member_is_idle_or_running :: "env \<Rightarrow> bridge \<Rightarrow> bool" where
  "add_member_is_refused_while_no_member_is_idle_or_running E b \<longleftrightarrow>
     (let (grp, b1) = fresh_group E SRT_GTYPE_BROADCAST b;
          b2 = snd (run_state (with_sock grp (\<lambda>s. return (s\<lparr> ss_last_status := S_Connected \<rparr>))) b1);
          b3 = snd (run_state (process_command E (AddGroupMember grp (endpoint_new (V4 [127, 0, 0, 1] 9) 0) 4)) b2) in
      log b3 = [EvReply 4 (ReplyUnit (Inl Err_ConnectionLost)), EvGetSockState grp (e_getsockstate E (log b2) grp)] @ log b2)"

text \<open>
  The internal error the test looks for in libsrt's log is what libsrt logs when it is asked to
  unsubscribe the group from an epoll it never joined, so the call must not be made.
\<close>

definition closing_a_group_that_never_connected_logs_no_internal_error :: "env \<Rightarrow> bridge \<Rightarrow> bool" where
  "closing_a_group_that_never_connected_logs_no_internal_error E b \<longleftrightarrow>
     (let (grp, b1) = fresh_group E SRT_GTYPE_BROADCAST b;
          b2 = snd (run_state (process_command E (RegisterSocket grp 1 2 3)) b1);
          b3 = snd (run_state (process_command E (Close grp)) b2);
          new = take (length (log b3) - length (log b2)) (log b3) in
      map_of (sockets b3) grp = None \<and> EvEpollRemove grp \<notin> set new \<and> EvClose grp \<in> set new)"

definition only_members_the_bridge_spawns_are_watched :: "env \<Rightarrow> socket_id \<Rightarrow> bridge \<Rightarrow> bool" where
  "only_members_the_bridge_spawns_are_watched E sock b \<longleftrightarrow>
     (let (grp, b1) = fresh_group E SRT_GTYPE_BACKUP b;
          (rows, b2) = run_state (read_group_rows E grp []) b1;
          b3 = snd (run_state (process_command E (RegisterSocket sock 2 3 4)) b2);
          (r, b4) = run_state (force_stranded E grp (endpoint_new (V4 [127, 0, 0, 1] 9) 0)) b3;
          watched = (\<lambda>b i. map_option ss_watched (map_of (sockets b) i)) in
      watched b1 grp = Some [] \<and> map_option ss_backup (map_of (sockets b1) grp) = Some True \<and> rows = []
      \<and> watched b3 sock = Some [] \<and> map_option ss_backup (map_of (sockets b3) sock) = Some False
      \<and> r = Inl Err_InvalidParam \<and> watched b4 grp = Some [])"

lemma prepare_test_passes:
  "prepares_endpoints E \<Longrightarrow> prepare_target_carries_source_weight_and_token E"
  by (simp add: prepares_endpoints_def prepare_target_carries_source_weight_and_token_def prepare_target_def
      sockaddr_storage_to_socket_addr_def sockaddr_to_socket_addr_def socket_addr_to_sockaddr_def
      MAX_GROUP_MEMBER_WEIGHT_def Let_def)

lemma untracked_test_passes: "add_member_to_an_untracked_group_is_refused E b"
  by (simp add: add_member_to_an_untracked_group_is_refused_def add_group_member_def live_group_def)

lemma fresh_group_sockets:
  assumes "0 \<le> e_create_group E (log b) mode"
  shows "fst (fresh_group E mode b) = e_create_group E (log b) mode"
    "sockets (snd (fresh_group E mode b))
       = [(e_create_group E (log b) mode, new_socket_state False True (mode = SRT_GTYPE_BACKUP))]"
  using assms callsD(1) [OF calls_config(1)] callsD(1) [OF calls_config(2)]
  by (simp_all add: fresh_group_def process_command_def create_group_def send_reply_def case_prod_beta if_some_def)

lemma fresh_group_registered:
  assumes "sockets b = [(grp, new_socket_state False True bk)]"
  shows "run_state (process_command E (RegisterSocket grp tx rx st)) b = (True, b\<lparr> sockets :=
    [(grp, (new_socket_state False True bk)\<lparr> ss_recv_tx := Some tx, ss_send_rx := Some rx, ss_status_tx := Some st \<rparr>)] \<rparr>)"
  using assms by (simp add: process_command_def register_socket_def with_entry_def set_channels_def initial_status_def
      new_socket_state_def)

lemma group_tests_pass:
  assumes "0 \<le> e_create_group E (log b) SRT_GTYPE_BROADCAST"
  shows "registering_a_fresh_group_keeps_its_channels E b"
    and "(\<And>l i. e_getsockstate E l i \<noteq> SRTS_CONNECTED) \<Longrightarrow> add_member_is_refused_while_no_member_is_idle_or_running E b"
    and "closing_a_group_that_never_connected_logs_no_internal_error E b"
proof -
  obtain grp b1 where f: "fresh_group E SRT_GTYPE_BROADCAST b = (grp, b1)" by force
  then have s: "sockets b1 = [(grp, new_socket_state False True False)]"
    using fresh_group_sockets [OF assms] by simp
  show "registering_a_fresh_group_keeps_its_channels E b"
    by (simp add: registering_a_fresh_group_keeps_its_channels_def f fresh_group_registered [OF s] new_socket_state_def)
  show "closing_a_group_that_never_connected_logs_no_internal_error E b"
    by (simp add: closing_a_group_that_never_connected_logs_no_internal_error_def f fresh_group_registered [OF s] Let_def)
       (simp add: process_command_def new_socket_state_def run_if_some never_polled_def drop_events_def)
  assume "\<And>l i. e_getsockstate E l i \<noteq> SRTS_CONNECTED"
  then show "add_member_is_refused_while_no_member_is_idle_or_running E b"
    by (simp add: add_member_is_refused_while_no_member_is_idle_or_running_def f s Let_def case_prod_beta run_with_sock
        process_command_def add_group_member_def live_group_def new_socket_state_def prim_defs)
qed

lemma no_rows: "(\<And>l i n. e_group_data E l i n = (0, 0, [])) \<Longrightarrow>
    run_state (read_group_rows E grp []) b = ([], b\<lparr> log := EvGroupData grp 8 (0, 0, []) # log b \<rparr>)"
  by (simp add: read_group_rows_def srt_group_data_def Let_def)

lemma watched_test_passes:
  assumes "0 \<le> e_create_group E (log b) SRT_GTYPE_BACKUP" and "sock \<noteq> e_create_group E (log b) SRT_GTYPE_BACKUP"
    and rows: "\<And>l i n. e_group_data E l i n = (0, 0, [])"
  shows "only_members_the_bridge_spawns_are_watched E sock b"
proof -
  obtain grp b1 where f: "fresh_group E SRT_GTYPE_BACKUP b = (grp, b1)" by force
  then have s: "sockets b1 = [(grp, new_socket_state False True True)]" "sock \<noteq> grp"
    using fresh_group_sockets [OF assms(1)] assms(2) by simp_all
  define b3 where "b3 = snd (run_state (process_command E (RegisterSocket sock 2 3 4))
    (b1\<lparr> log := EvGroupData grp 8 (0, 0, []) # log b1 \<rparr>))"
  have "\<exists>st. sockets b3 = [(grp, new_socket_state False True True), (sock, st)] \<and> ss_watched st = [] \<and> \<not> ss_backup st"
    using s by (simp add: b3_def process_command_def register_socket_def with_entry_def set_channels_def initial_status_def
        srt_getsockstate_def with_status_def new_socket_state_def)
  then obtain st where b3: "sockets b3 = [(grp, new_socket_state False True True), (sock, st)]"
    and st: "ss_watched st = []" "\<not> ss_backup st" by blast
  have "run_state (force_stranded E grp ep) b3
      = (Inl Err_InvalidParam, b3\<lparr> log := EvGroupData grp 8 (0, 0, []) # log b3 \<rparr>)" for ep
    using b3 by (simp add: force_stranded_def live_group_def no_rows [OF rows] new_socket_state_def)
  with s b3 st show ?thesis
    by (simp add: only_members_the_bridge_spawns_are_watched_def f no_rows [OF rows] b3_def [symmetric] Let_def)
       (simp add: new_socket_state_def)
qed

section \<open>Access control\<close>

definition stream_id_gate :: "rstr \<Rightarrow> access_control" where
  "stream_id_gate want = (\<lambda>info. Done (if hs_stream_id info = want then Inr () else Inl Rej_Peer))"

definition panicker :: access_control where
  "panicker = (\<lambda>_. Panic)"

definition call_trampoline :: "bool \<Rightarrow> access_control option \<Rightarrow> socket_addr \<Rightarrow> rstr \<Rightarrow> i32" where
  "call_trampoline le opaque peer sid =
     listen_callback_trampoline le opaque 5 (Some (socket_addr_to_sockaddr le peer)) (Some (utf8 sid))"

definition trampoline_reads_the_access_control_through_the_registered_opaque :: "bool \<Rightarrow> bool" where
  "trampoline_reads_the_access_control_through_the_registered_opaque le \<longleftrightarrow>
     (let slot = Some (stream_id_gate (lit ''letmein'')); call = call_trampoline le slot (V4 [10, 0, 0, 9] 9000) in
      call (lit ''letmein'') = 0 \<and> call (lit ''not-it'') = - 1 \<and> call (lit []) = - 1 \<and> call (lit ''letmein'') = 0)"

definition trampoline_accepts_when_no_access_control_is_registered :: "bool \<Rightarrow> bool" where
  "trampoline_accepts_when_no_access_control_is_registered le \<longleftrightarrow>
     listen_callback_trampoline le None 5 (Some (socket_addr_to_sockaddr le (V4 [10, 0, 0, 9] 9000))) None = 0"

definition trampoline_rejects_instead_of_aborting_when_the_policy_panics :: "bool \<Rightarrow> bool" where
  "trampoline_rejects_instead_of_aborting_when_the_policy_panics le \<longleftrightarrow>
     call_trampoline le (Some panicker) (V4 [10, 0, 0, 9] 9000) (lit ''anything'') = - 1"

lemma lit_scalar: "list_all is_scalar (lit s) \<Longrightarrow> utf8_lossy (utf8 (lit s)) = lit s"
  by (rule utf8_lossy_inverse)

lemma trampoline_tests_pass:
  "trampoline_reads_the_access_control_through_the_registered_opaque le"
  "trampoline_accepts_when_no_access_control_is_registered le"
  "trampoline_rejects_instead_of_aborting_when_the_policy_panics le"
proof -
  have "list_all is_scalar (lit ''letmein'')" "list_all is_scalar (lit ''not-it'')" "list_all is_scalar (lit [])"
    by (simp_all add: lit_def is_scalar_def)
  note decoded = this [THEN lit_scalar]
  have "lit ''not-it'' \<noteq> lit ''letmein''" "lit [] \<noteq> lit ''letmein''" by (simp_all add: lit_def)
  with decoded show "trampoline_reads_the_access_control_through_the_registered_opaque le"
    by (simp add: trampoline_reads_the_access_control_through_the_registered_opaque_def call_trampoline_def stream_id_gate_def
        listen_callback_trampoline_def Let_def)
qed (simp_all add: trampoline_accepts_when_no_access_control_is_registered_def
      trampoline_rejects_instead_of_aborting_when_the_policy_panics_def call_trampoline_def
      panicker_def listen_callback_trampoline_def Let_def)

definition listen_releases_the_socket_when_the_access_control_hook_cannot_be_armed :: "env \<Rightarrow> socket_id \<Rightarrow> bridge \<Rightarrow> bool" where
  "listen_releases_the_socket_when_the_access_control_hook_cannot_be_armed E i b \<longleftrightarrow>
     (let b1 = snd (run_state (process_command E (RegisterListener i 1 (Some 5))) (b\<lparr> sockets := [] \<rparr>));
          armed = fst (run_state (register_listen_callback E i) b1);
          b2 = snd (run_state (process_command E (Listen i 5 6)) b1) in
      isl armed \<and> (\<exists>e. EvReply 6 (ReplyUnit (Inl e)) \<in> set (log b2)) \<and> map_of (sockets b2) i = None)"

lemma listen_test_passes:
  assumes "\<And>l. e_listen_callback E l i 5 < 0"
  shows "listen_releases_the_socket_when_the_access_control_hook_cannot_be_armed E i b"
  using assms
  by (auto simp: listen_releases_the_socket_when_the_access_control_hook_cannot_be_armed_def process_command_def
      register_listener_def with_entry_def set_listener_def register_listen_callback_def listen_def release_def
      new_socket_state_def run_if_some prim_defs case_prod_beta Let_def)

end
